theory Spec2Isabelle
  imports Main
begin

text \<open>
  A shallow embedding of the orchestration core of AutoDev Studio: the subprocess runner
  (\<open>claudeCodeRunner.ts\<close>), the log tailer (\<open>logStreamer.ts\<close>), the template engine
  (\<open>templateEngine.ts\<close>), the worktree manager (\<open>gitManager.ts\<close>) and the orchestrator
  (\<open>orchestrator.ts\<close>) with the operations of the store (\<open>database.ts\<close>) it calls.
  JavaScript strings are modelled as \<open>string\<close>; one \<open>char\<close> stands for one code unit.
\<close>

section \<open>Strings\<close>

text \<open>
  \<open>String.prototype.split\<close> with a one-character separator: the pieces between the
  separators, in order; the empty string gives one empty piece, and a string that ends
  with the separator gives an empty last piece.
\<close>

fun split_on :: "'a \<Rightarrow> 'a list \<Rightarrow> 'a list list" where
  "split_on sep [] = [[]]"
| "split_on sep (c # cs) =
     (if c = sep then [] # split_on sep cs
      else (c # hd (split_on sep cs)) # tl (split_on sep cs))"

definition newline :: char where
  "newline = CHR 0x0A"

text \<open>
  A JavaScript \<open>Map\<close> is an association list in insertion order: \<open>get\<close> is \<open>map_of\<close>,
  \<open>set\<close> replaces the value of a present key in place and appends a new key at the end,
  \<open>delete\<close> removes the key.
\<close>

fun map_set :: "'k \<Rightarrow> 'v \<Rightarrow> ('k \<times> 'v) list \<Rightarrow> ('k \<times> 'v) list" where
  "map_set k v [] = [(k, v)]"
| "map_set k v (e # es) = (if fst e = k then (k, v) # es else e # map_set k v es)"

definition map_delete :: "'k \<Rightarrow> ('k \<times> 'v) list \<Rightarrow> ('k \<times> 'v) list" where
  "map_delete k m = filter (\<lambda>e. fst e \<noteq> k) m"

section \<open>Buffers and decoded text\<close>

text \<open>
  A \<open>Buffer\<close> is the list of its bytes, natural numbers below 256. The text that
  \<open>buf.toString('utf8')\<close> gives is well-formed (the decoder produces no lone surrogate),
  so it is modelled as the list of its code points: \<open>split('\n')\<close>, the emptiness test
  \<open>if (line)\<close> and the UTF-8 length read the same on code points as on UTF-16 code
  units. \<open>codes\<close> writes the bytes or code points of a literal of one-byte characters.
\<close>

type_synonym byte = nat

type_synonym codepoint = nat

definition LF :: codepoint where
  "LF = 10"

definition codes :: "string \<Rightarrow> nat list" where
  "codes s = map of_char s"

text \<open>
  \<open>buf.toString('utf8')\<close>: the UTF-8 decoder with replacement. The state is the number
  of continuation bytes still needed, the code point built so far and the bounds of the
  next continuation byte. A byte that cannot start or continue a sequence gives
  \<open>U+FFFD\<close>; a byte that breaks a sequence gives \<open>U+FFFD\<close> for the sequence and is read
  again as a first byte; a sequence cut by the end of the buffer gives one \<open>U+FFFD\<close>.
  Overlong forms, surrogates and code points above \<open>U+10FFFF\<close> are excluded by the
  bounds. No byte order mark is removed.
\<close>

function utf8_decode :: "nat \<Rightarrow> nat \<Rightarrow> nat \<Rightarrow> nat \<Rightarrow> byte list \<Rightarrow> codepoint list" where
  "utf8_decode needed cp lower upper [] = (if needed = 0 then [] else [0xFFFD])"
| "utf8_decode needed cp lower upper (b # bs) =
     (if needed = 0 then
        (if b < 0x80 then b # utf8_decode 0 0 0x80 0xBF bs
         else if 0xC2 \<le> b \<and> b \<le> 0xDF then utf8_decode 1 (b mod 0x20) 0x80 0xBF bs
         else if 0xE0 \<le> b \<and> b \<le> 0xEF then
           utf8_decode 2 (b mod 0x10) (if b = 0xE0 then 0xA0 else 0x80)
             (if b = 0xED then 0x9F else 0xBF) bs
         else if 0xF0 \<le> b \<and> b \<le> 0xF4 then
           utf8_decode 3 (b mod 0x08) (if b = 0xF0 then 0x90 else 0x80)
             (if b = 0xF4 then 0x8F else 0xBF) bs
         else 0xFFFD # utf8_decode 0 0 0x80 0xBF bs)
      else if b < lower \<or> upper < b then 0xFFFD # utf8_decode 0 0 0x80 0xBF (b # bs)
      else if needed = 1 then (cp * 0x40 + b mod 0x40) # utf8_decode 0 0 0x80 0xBF bs
      else utf8_decode (needed - 1) (cp * 0x40 + b mod 0x40) 0x80 0xBF bs)"
  by pat_completeness auto
termination
  by (relation "measure (\<lambda>(needed, cp, lower, upper, bs).
                   2 * length bs + (if needed = 0 then 0 else 1))") auto

definition utf8_toString :: "byte list \<Rightarrow> codepoint list" where
  "utf8_toString buf = utf8_decode 0 0 0x80 0xBF buf"

text \<open>\<open>Buffer.byteLength(s, 'utf8')\<close>: the number of bytes of the UTF-8 encoding of a text.\<close>

definition utf8_size :: "codepoint \<Rightarrow> nat" where
  "utf8_size c = (if c < 0x80 then 1 else if c < 0x800 then 2 else if c < 0x10000 then 3 else 4)"

definition byteLength :: "codepoint list \<Rightarrow> nat" where
  "byteLength s = sum_list (map utf8_size s)"

section \<open>Subprocess runner\<close>

text \<open>
  \<open>ClaudeCodeRunner.run\<close>: the closures \<open>handleData\<close> (registered for both stdout and
  stderr, so one sequence of chunks in arrival order) and the \<open>close\<close> handler share
  \<open>outputBuffer\<close> and \<open>lineBuffer\<close>. A chunk is a \<open>Buffer\<close>; \<open>handleData\<close> decodes each
  chunk on its own with \<open>chunk.toString('utf8')\<close> and writes the bytes of the chunk to
  the log stream. The caller's \<open>onLine\<close> is optional; it is modelled as a function on a
  callback state \<open>'cb\<close>, so that the order of its calls is observable.
\<close>

record 'cb RunState =
  outputBuffer :: "codepoint list"
  lineBuffer :: "codepoint list"
  logStream :: "byte list"
  callback :: 'cb

record RunResult =
  exitCode :: int
  outputText :: "codepoint list"

definition handleData ::
  "(codepoint list \<Rightarrow> 'cb \<Rightarrow> 'cb) option \<Rightarrow> byte list \<Rightarrow> 'cb RunState \<Rightarrow> 'cb RunState" where
  "handleData onLine chunk st =
     (let text = utf8_toString chunk;
          buffered = lineBuffer st @ text;
          lines = split_on LF buffered
      in st\<lparr>outputBuffer := outputBuffer st @ text,
            logStream := logStream st @ chunk,
            lineBuffer := last lines,
            callback := fold (\<lambda>line c. case onLine of
                                 Some f \<Rightarrow> if line \<noteq> [] then f line c else c
                               | None \<Rightarrow> c)
                          (butlast lines) (callback st)\<rparr>)"

text \<open>The \<open>close\<close> handler: flush the line buffer, resolve with \<open>exitCode ?? 1\<close>.\<close>

definition onClose ::
  "(codepoint list \<Rightarrow> 'cb \<Rightarrow> 'cb) option \<Rightarrow> int option \<Rightarrow> 'cb RunState
     \<Rightarrow> RunResult \<times> 'cb" where
  "onClose onLine code st =
     (let c = (case onLine of
                 Some f \<Rightarrow> if lineBuffer st \<noteq> [] then f (lineBuffer st) (callback st)
                           else callback st
               | None \<Rightarrow> callback st)
      in (\<lparr>exitCode = (case code of Some n \<Rightarrow> n | None \<Rightarrow> 1),
           outputText = outputBuffer st\<rparr>, c))"

definition run ::
  "(codepoint list \<Rightarrow> 'cb \<Rightarrow> 'cb) option \<Rightarrow> byte list list \<Rightarrow> int option \<Rightarrow> 'cb
     \<Rightarrow> RunResult \<times> 'cb" where
  "run onLine chunks code c0 =
     onClose onLine code
       (fold (handleData onLine) chunks
          \<lparr>outputBuffer = [], lineBuffer = [], logStream = [], callback = c0\<rparr>)"

text \<open>A callback that records the lines it is given, in order.\<close>

definition record_line :: "codepoint list \<Rightarrow> codepoint list list \<Rightarrow> codepoint list list" where
  "record_line line acc = acc @ [line]"

text \<open>
  The lines of a text in the words of the specification: the newline-terminated lines are
  all pieces but the last one, and the last piece is the trailing unterminated line.
\<close>

definition terminated_lines :: "codepoint list \<Rightarrow> codepoint list list" where
  "terminated_lines text = butlast (split_on LF text)"

definition trailing_line :: "codepoint list \<Rightarrow> codepoint list" where
  "trailing_line text = last (split_on LF text)"

section \<open>Log tailer\<close>

text \<open>
  A file is the list of its bytes. \<open>fs.readSync(fd, buf, 0, length, position)\<close> on a
  descriptor just opened, into a buffer of \<open>length\<close> zero bytes (\<open>Buffer.alloc\<close>), as in
  Node.js 22: a position below \<open>-1\<close> is refused with a \<open>RangeError\<close> (\<open>None\<close>), the
  position \<open>-1\<close> reads from the current position, which is the start of the file, and
  the bytes of the buffer that the file does not fill stay zero.
\<close>

definition readSync :: "byte list \<Rightarrow> nat \<Rightarrow> int \<Rightarrow> byte list option" where
  "readSync content len position =
     (if position < - 1 then None
      else (let start = (if position = - 1 then 0 else nat position);
                bytes = take len (drop start content)
            in Some (bytes @ replicate (len - length bytes) 0)))"

definition ascii :: "byte list \<Rightarrow> bool" where
  "ascii bytes = list_all (\<lambda>b. b < 128) bytes"

text \<open>
  The watchers of the streamer (the interval timer is left out: \<open>poll\<close> is called from
  outside) and the \<open>line\<close> events emitted so far, as pairs of job id and line (the
  timestamp is left out). The offset is a JavaScript number; the roll-back can make it
  negative, so it is an integer. The type of job ids is a parameter.
\<close>

record WatchState =
  logPath :: string
  offset :: int

record 'j LogStreamer =
  watchers :: "('j \<times> WatchState) list"
  lineEvents :: "('j \<times> codepoint list) list"

definition watch :: "'j \<Rightarrow> string \<Rightarrow> 'j LogStreamer \<Rightarrow> 'j LogStreamer" where
  "watch jobId path ls =
     (case map_of (watchers ls) jobId of
        Some state \<Rightarrow> ls
      | None \<Rightarrow> ls\<lparr>watchers := map_set jobId \<lparr>logPath = path, offset = 0\<rparr> (watchers ls)\<rparr>)"

definition stop :: "'j \<Rightarrow> 'j LogStreamer \<Rightarrow> 'j LogStreamer" where
  "stop jobId ls =
     (case map_of (watchers ls) jobId of
        Some state \<Rightarrow> ls\<lparr>watchers := map_delete jobId (watchers ls)\<rparr>
      | None \<Rightarrow> ls)"

text \<open>
  \<open>poll\<close>, with the file system as a map from paths to contents (\<open>existsSync\<close> is
  definedness, \<open>statSync(...).size\<close> the length). The bytes from the offset to the end are
  read and decoded; the offset is set to the size and then rolled back by the byte
  length of a non-empty last piece. An exception of \<open>readSync\<close> is caught by the \<open>try\<close>
  around the body, before anything is changed.
\<close>

definition poll :: "(string \<rightharpoonup> byte list) \<Rightarrow> 'j \<Rightarrow> 'j LogStreamer \<Rightarrow> 'j LogStreamer" where
  "poll fs jobId ls =
     (case map_of (watchers ls) jobId of
        None \<Rightarrow> ls
      | Some state \<Rightarrow>
          (case fs (logPath state) of
             None \<Rightarrow> ls
           | Some content \<Rightarrow>
               if int (length content) \<le> offset state then ls
               else (case readSync content (nat (int (length content) - offset state))
                            (offset state) of
                       None \<Rightarrow> ls
                     | Some buf \<Rightarrow>
                         let chunk = utf8_toString buf;
                             lines = split_on LF chunk;
                             lastPartial = last lines;
                             rolled = (if lastPartial \<noteq> []
                                       then int (length content) - int (byteLength lastPartial)
                                       else int (length content))
                         in ls\<lparr>watchers :=
                                 map_set jobId (state\<lparr>offset := rolled\<rparr>) (watchers ls),
                               lineEvents := lineEvents ls @
                                 map (Pair jobId)
                                   (filter (\<lambda>line. line \<noteq> []) (butlast lines))\<rparr>)))"

text \<open>
  A watched file that grows by a sequence of appends, polled after each append (appends
  between two polls count as one; an empty append is a poll with no new data).
\<close>

fun tail_appends ::
  "'j \<Rightarrow> string \<Rightarrow> byte list \<Rightarrow> byte list list \<Rightarrow> 'j LogStreamer \<Rightarrow> 'j LogStreamer" where
  "tail_appends jobId path content [] ls = ls"
| "tail_appends jobId path content (a # as) ls =
     tail_appends jobId path (content @ a) as (poll [path \<mapsto> content @ a] jobId ls)"

section \<open>Template engine\<close>

text \<open>
  Searching a string for a substring: the index of the first occurrence, as
  \<open>String.prototype.indexOf\<close> and a regular expression of literal characters find it.
\<close>

fun find_sub :: "string \<Rightarrow> string \<Rightarrow> nat option" where
  "find_sub pat [] = (if pat = [] then Some 0 else None)"
| "find_sub pat (c # cs) =
     (if take (length pat) (c # cs) = pat then Some 0
      else map_option Suc (find_sub pat cs))"

text \<open>
  \<open>String.prototype.replaceAll(token, value)\<close> with a string pattern: the occurrences of
  the token are found from left to right without overlap, and each is replaced by the
  expansion of the value, in which \<open>$$\<close> stands for a dollar sign, \<open>$&\<close> for the matched
  token, \<open>$`\<close> for the text before the match and \<open>$'\<close> for the text after it (a string
  pattern has no capture groups, so \<open>$1\<close> and \<open>$<name>\<close> stay as they are).
\<close>

fun getSubstitution :: "string \<Rightarrow> string \<Rightarrow> string \<Rightarrow> string \<Rightarrow> string" where
  "getSubstitution [] matched bef aft = []"
| "getSubstitution [c] matched bef aft = [c]"
| "getSubstitution (c # d # r) matched bef aft =
     (if c = CHR ''$'' \<and> d = CHR ''$'' then CHR ''$'' # getSubstitution r matched bef aft
      else if c = CHR ''$'' \<and> d = CHR ''&'' then matched @ getSubstitution r matched bef aft
      else if c = CHR ''$'' \<and> d = CHR 0x60 then bef @ getSubstitution r matched bef aft
      else if c = CHR ''$'' \<and> d = CHR 0x27 then aft @ getSubstitution r matched bef aft
      else c # getSubstitution (d # r) matched bef aft)"

function replaceAll_from :: "string \<Rightarrow> string \<Rightarrow> string \<Rightarrow> string \<Rightarrow> string" where
  "replaceAll_from token val bef [] = []"
| "replaceAll_from token val bef (c # cs) =
     (if token \<noteq> [] \<and> take (length token) (c # cs) = token
      then getSubstitution val token bef (drop (length token) (c # cs))
             @ replaceAll_from token val (bef @ token) (drop (length token) (c # cs))
      else c # replaceAll_from token val (bef @ [c]) cs)"
  by pat_completeness auto
termination
  by (relation "measure (\<lambda>(token, val, bef, s). length s)") (auto simp: neq_Nil_conv)

definition replaceAll :: "string \<Rightarrow> string \<Rightarrow> string \<Rightarrow> string" where
  "replaceAll token val s = replaceAll_from token val [] s"

text \<open>
  \<open>renderConditionalBlock\<close>: the global regular expression
  \<open>{{#TAG}}([\s\S]*?){{/TAG}}\<close> matches from the first opening tag that has a closing tag
  after it up to the first such closing tag; each match is replaced by its inner text
  (\<open>include\<close>) or by nothing, and the search goes on after the match.
\<close>

lemma find_sub_bound: "find_sub pat s = Some i \<Longrightarrow> i + length pat \<le> length s"
proof (induction s arbitrary: i)
  case Nil
  then show ?case by (simp split: if_splits)
next
  case (Cons c cs)
  show ?case
  proof (cases "take (length pat) (c # cs) = pat")
    case True
    have "length (take (length pat) (c # cs)) \<le> length (c # cs)"
      by (simp del: take_Suc_Cons)
    with True have "length pat \<le> length (c # cs)"
      by simp
    with True Cons.prems show ?thesis by simp
  next
    case False
    with Cons.prems obtain k where "find_sub pat cs = Some k" "i = Suc k" by auto
    with Cons.IH show ?thesis by simp
  qed
qed

function renderConditionalBlock :: "string \<Rightarrow> string \<Rightarrow> bool \<Rightarrow> string" where
  "renderConditionalBlock template tag incl =
     (case find_sub (''{{#'' @ tag @ ''}}'') template of
        None \<Rightarrow> template
      | Some i \<Rightarrow>
          (case find_sub (''{{/'' @ tag @ ''}}'') (drop (i + length (''{{#'' @ tag @ ''}}'')) template) of
             None \<Rightarrow> template
           | Some k \<Rightarrow>
               take i template
               @ (if incl then take k (drop (i + length (''{{#'' @ tag @ ''}}'')) template) else [])
               @ renderConditionalBlock
                   (drop (k + length (''{{/'' @ tag @ ''}}''))
                      (drop (i + length (''{{#'' @ tag @ ''}}'')) template))
                   tag incl))"
  by pat_completeness auto
termination
proof (relation "measure (\<lambda>(template, tag, incl). length template)", goal_cases)
  case 1
  show ?case by simp
next
  case (2 template tag incl i k)
  from find_sub_bound [OF 2(1)] show ?case by simp
qed

text \<open>
  \<open>String.prototype.trim\<close> removes white space and line terminators at both ends; among
  the code units below 256 these are tab, line feed, vertical tab, form feed, carriage
  return, space and no-break space.
\<close>

definition is_space :: "char \<Rightarrow> bool" where
  "is_space c = ((of_char c :: nat) \<in> {9, 10, 11, 12, 13, 32, 160})"

definition trim :: "string \<Rightarrow> string" where
  "trim s = rev (dropWhile is_space (rev (dropWhile is_space s)))"

record TemplateContext =
  ticketTitle :: string
  ticketDescription :: string
  projectName :: string
  autoDetectedStack :: string
  testCommand :: string
  buildCommand :: string
  contextFiles :: "string option"
  attachmentDescriptions :: "string option"

definition truthy :: "string option \<Rightarrow> bool" where
  "truthy v = (case v of Some s \<Rightarrow> s \<noteq> [] | None \<Rightarrow> False)"

definition substitutions :: "TemplateContext \<Rightarrow> (string \<times> string) list" where
  "substitutions ctx =
     [(''{{TICKET_TITLE}}'', ticketTitle ctx),
      (''{{TICKET_DESCRIPTION}}'', ticketDescription ctx),
      (''{{PROJECT_NAME}}'', projectName ctx),
      (''{{AUTO_DETECTED_STACK}}'', autoDetectedStack ctx),
      (''{{TEST_COMMAND}}'', if testCommand ctx \<noteq> [] then testCommand ctx else ''(not configured)''),
      (''{{BUILD_COMMAND}}'', if buildCommand ctx \<noteq> [] then buildCommand ctx else ''(not configured)''),
      (''{{CONTEXT_FILES}}'', case contextFiles ctx of Some s \<Rightarrow> s | None \<Rightarrow> []),
      (''{{ATTACHMENT_DESCRIPTIONS}}'', case attachmentDescriptions ctx of Some s \<Rightarrow> s | None \<Rightarrow> [])]"

definition renderTemplate :: "string \<Rightarrow> TemplateContext \<Rightarrow> string" where
  "renderTemplate template ctx =
     (let r1 = renderConditionalBlock template ''CONTEXT_FILES'' (truthy (contextFiles ctx));
          r2 = renderConditionalBlock r1 ''ATTACHMENTS'' (truthy (attachmentDescriptions ctx));
          r3 = fold (\<lambda>(token, val) result. replaceAll token val result) (substitutions ctx) r2
      in trim r3)"


text \<open>
  The markers that a second rendering would act on: the two opening tags and the eight
  tokens.
\<close>

definition markers :: "string list" where
  "markers =
     [''{{#CONTEXT_FILES}}'', ''{{#ATTACHMENTS}}'',
      ''{{TICKET_TITLE}}'', ''{{TICKET_DESCRIPTION}}'', ''{{PROJECT_NAME}}'',
      ''{{AUTO_DETECTED_STACK}}'', ''{{TEST_COMMAND}}'', ''{{BUILD_COMMAND}}'',
      ''{{CONTEXT_FILES}}'', ''{{ATTACHMENT_DESCRIPTIONS}}'']"

definition marker_free :: "string \<Rightarrow> bool" where
  "marker_free s = list_all (\<lambda>m. find_sub m s = None) markers"

text \<open>Two contexts, used as concrete inputs below.\<close>

definition ctx0 :: TemplateContext where
  "ctx0 = \<lparr>ticketTitle = ''T'', ticketDescription = [], projectName = ''{{TICKET_TITLE}}'',
     autoDetectedStack = [], testCommand = [], buildCommand = [],
     contextFiles = None, attachmentDescriptions = None\<rparr>"

definition ctx1 :: TemplateContext where
  "ctx1 = \<lparr>ticketTitle = ''Dark mode'', ticketDescription = ''Add a toggle'', projectName = ''shop'',
     autoDetectedStack = ''node'', testCommand = ''npm test'', buildCommand = [],
     contextFiles = Some ''a.ts'', attachmentDescriptions = None\<rparr>"

section \<open>Worktree manager\<close>

text \<open>
  \<open>GitManager\<close> acts on the file system and on the repository through the \<open>git\<close>
  command. The state it acts on: the directories that exist, the branches, the other
  names that resolve to a commit (\<open>HEAD\<close>, tags, hashes, remote branches) and the
  registered worktrees (path and branch). \<open>mkdirSync(dir, {recursive: true})\<close> creates
  the directory unless it exists (parent directories are not tracked). \<open>path.join\<close> is a
  parameter \<open>join\<close>.
\<close>

record GitRepo =
  paths :: "string list"
  branches :: "string list"
  revisions :: "string list"
  worktrees :: "(string \<times> string) list"

definition mkdirSync :: "string \<Rightarrow> GitRepo \<Rightarrow> GitRepo" where
  "mkdirSync dir repo =
     (if dir \<in> set (paths repo) then repo else repo\<lparr>paths := paths repo @ [dir]\<rparr>)"

text \<open>
  \<open>git worktree add <path> -b <branch> <start>\<close>, after the documentation and the
  messages of git 2.43. The result is what git writes to stderr when it fails, and the
  repository. The start point is any commit-ish; git then runs \<open>git branch\<close>, which
  refuses a branch that exists; then the path must not exist, nor be registered as a
  worktree, and a failure there leaves the new branch behind; otherwise the directory is
  created and the worktree registered. \<open>quoted\<close> puts a text between single quotes.
\<close>

definition quoted :: "string \<Rightarrow> string" where
  "quoted s = [CHR 0x27] @ s @ [CHR 0x27]"

definition git_worktree_add ::
  "string \<Rightarrow> string \<Rightarrow> string \<Rightarrow> GitRepo \<Rightarrow> string option \<times> GitRepo" where
  "git_worktree_add path branch start repo =
     (if start \<notin> set (branches repo) \<and> start \<notin> set (revisions repo)
      then (Some (''fatal: invalid reference: '' @ start @ [newline]), repo)
      else if branch \<in> set (branches repo)
      then (Some (''fatal: a branch named '' @ quoted branch @ '' already exists''
                    @ [newline]), repo)
      else (let repo1 = repo\<lparr>branches := branches repo @ [branch]\<rparr>
            in if path \<in> set (paths repo1)
               then (Some (''fatal: '' @ quoted path @ '' already exists'' @ [newline]), repo1)
               else if path \<in> fst ` set (worktrees repo1)
               then (Some (''fatal: '' @ quoted path
                             @ '' is a missing but already registered worktree;'' @ [newline]
                             @ ''use '' @ quoted ''add -f'' @ '' to override, or ''
                             @ quoted ''prune'' @ '' or '' @ quoted ''remove'' @ '' to clear''
                             @ [newline]), repo1)
               else (None, repo1\<lparr>paths := paths repo1 @ [path],
                                  worktrees := worktrees repo1 @ [(path, branch)]\<rparr>)))"

text \<open>
  \<open>git worktree remove --force <path>\<close>: the path must be a registered worktree; its
  directory and its registration are removed, its branch is kept.
\<close>

definition git_worktree_remove :: "string \<Rightarrow> GitRepo \<Rightarrow> string option \<times> GitRepo" where
  "git_worktree_remove path repo =
     (if path \<notin> fst ` set (worktrees repo)
      then (Some (''fatal: '' @ quoted path @ '' is not a working tree'' @ [newline]), repo)
      else (None, repo\<lparr>paths := removeAll path (paths repo),
                        worktrees := filter (\<lambda>w. fst w \<noteq> path) (worktrees repo)\<rparr>))"

text \<open>
  The private \<open>git\<close> of \<open>GitManager\<close> is \<open>execFile\<close>, promisified: when the command exits
  with a non-zero code, the promise is rejected with an error whose message is
  \<open>Command failed:\<close>, the command line, a newline and the text of stderr.
\<close>

definition command_failed :: "string list \<Rightarrow> string \<Rightarrow> string" where
  "command_failed args stderr =
     ''Command failed: git'' @ concat (map (\<lambda>a. '' '' @ a) args) @ [newline] @ stderr"

definition createWorktree ::
  "(string \<Rightarrow> string \<Rightarrow> string) \<Rightarrow> string \<Rightarrow> string \<Rightarrow> string \<Rightarrow> string \<Rightarrow> string \<Rightarrow> GitRepo
     \<Rightarrow> (string + string) \<times> GitRepo" where
  "createWorktree join worktreeRoot ticketId slug defaultBranch branchPrefix repo =
     (let branch = branchPrefix @ ''ticket-'' @ ticketId @ ''-'' @ slug;
          worktreePath = join worktreeRoot (''ticket-'' @ ticketId);
          repo1 = mkdirSync worktreeRoot repo
      in if worktreePath \<in> set (paths repo1) then (Inr worktreePath, repo1)
         else (case git_worktree_add worktreePath branch defaultBranch repo1 of
                 (Some stderr, repo2) \<Rightarrow>
                   (Inl (command_failed
                           [''worktree'', ''add'', worktreePath, ''-b'', branch, defaultBranch]
                           stderr), repo2)
               | (None, repo2) \<Rightarrow> (Inr worktreePath, repo2)))"

text \<open>\<open>GitManager.removeWorktree\<close>; the result is the message of the error thrown, if any.\<close>

definition removeWorktree :: "string \<Rightarrow> GitRepo \<Rightarrow> string option \<times> GitRepo" where
  "removeWorktree worktreePath repo =
     (case git_worktree_remove worktreePath repo of
        (Some stderr, repo1) \<Rightarrow>
          (Some (command_failed [''worktree'', ''remove'', ''--force'', worktreePath] stderr), repo1)
      | (None, repo1) \<Rightarrow> (None, repo1))"

text \<open>
  \<open>slugify\<close> of \<open>orchestrator.ts\<close>, on code units below 256: lower-casing, removal of
  everything but \<open>a-z\<close>, digits, white space and the hyphen, trimming, a hyphen for each
  run of white space, and the first 50 characters.
\<close>

definition toLowerCase :: "char \<Rightarrow> char" where
  "toLowerCase c =
     (let n = (of_char c :: nat)
      in if (65 \<le> n \<and> n \<le> 90) \<or> (192 \<le> n \<and> n \<le> 222 \<and> n \<noteq> 215)
         then char_of (n + 32) else c)"

definition slug_char :: "char \<Rightarrow> bool" where
  "slug_char c =
     (let n = (of_char c :: nat)
      in (97 \<le> n \<and> n \<le> 122) \<or> (48 \<le> n \<and> n \<le> 57) \<or> is_space c \<or> c = CHR ''-'')"

function dash_spaces :: "string \<Rightarrow> string" where
  "dash_spaces [] = []"
| "dash_spaces (c # cs) =
     (if is_space c then CHR ''-'' # dash_spaces (dropWhile is_space cs)
      else c # dash_spaces cs)"
  by pat_completeness auto
termination
  by (relation "measure length") (auto simp: le_imp_less_Suc length_dropWhile_le)

definition slugify :: "string \<Rightarrow> string" where
  "slugify title = take 50 (dash_spaces (trim (filter slug_char (map toLowerCase title))))"

section \<open>Store\<close>

text \<open>
  The records of \<open>types/job.ts\<close>, \<open>types/ticket.ts\<close> and \<open>types/project.ts\<close>. Isabelle
  record fields share one name space, so each field carries a prefix for its record
  (\<open>j_\<close>, \<open>t_\<close>, \<open>m_\<close>, \<open>p_\<close>, \<open>s_\<close>, \<open>w_\<close>). Timestamps, the worker pid, attachments,
  the plan type and the fields of the metadata and of the settings that the
  orchestrator never writes or reads are left out. The literal types become datatypes;
  the job statuses \<open>completed\<close> and \<open>failed\<close> are \<open>job_completed\<close> and \<open>job_failed\<close>.
\<close>

datatype JobPhase = phase_plan | phase_execute | phase_fix

datatype JobStatus = pending | running | job_completed | job_failed

datatype TicketStatus =
  backlog | planning | plan_review | queued | in_progress | testing | completed | failed | merged

record ExecutionJob =
  j_id :: nat
  j_ticketId :: string
  j_phase :: JobPhase
  j_status :: JobStatus
  j_exitCode :: "int option"
  j_logPath :: string
  j_retryCount :: nat

record TicketMetadata =
  m_filesChanged :: "string list"
  m_testsPassed :: bool
  m_retryCount :: nat

record Ticket =
  t_id :: string
  t_projectId :: string
  t_title :: string
  t_description :: string
  t_status :: TicketStatus
  t_plan :: "string option"
  t_branch :: "string option"
  t_worktreePath :: "string option"
  t_error :: "string option"
  t_metadata :: "TicketMetadata option"

record ProjectSettings =
  s_maxParallelJobs :: int
  s_autoExecuteAfterPlan :: bool
  s_testCommand :: "string option"
  s_lintCommand :: "string option"

record Project =
  p_id :: string
  p_repoPath :: string
  p_defaultBranch :: string
  p_worktreeRoot :: string
  p_settings :: ProjectSettings

record ActiveWorker =
  w_job :: ExecutionJob
  w_ticket :: Ticket
  w_project :: Project

text \<open>
  The events of the orchestrator that are modelled: \<open>ticket:status\<close>, \<open>job:completed\<close>
  and \<open>job:failed\<close> (\<open>job:progress\<close> and \<open>log:line\<close> are left out).
\<close>

datatype Event =
  TicketStatusEvent string TicketStatus
| JobCompleted string
| JobFailed string string

record OrchestratorConfig =
  maxWorkers :: int
  maxRetries :: int
  branchPrefix :: string
  logsDir :: string

text \<open>
  The state: the tables of the store, the orchestrator's queue and its \<open>activeWorkers\<close>
  map (keyed by ticket id), the calls of \<open>runWorker\<close> that are in flight (\<open>tasks\<close>: each
  is an asynchronous task started by \<open>tick\<close>), the emitted events, the runner's tracked
  processes with the termination signals sent, and the log streamer. Two histories are
  kept: \<open>statusWrites\<close> lists the calls of \<open>tickets.updateStatus\<close> in order, and
  \<open>runnerCalls\<close> the tracking ids of the calls of \<open>runner.run\<close>.
\<close>

record World =
  projects :: "Project list"
  tickets :: "Ticket list"
  jobs :: "ExecutionJob list"
  statusWrites :: "(string \<times> TicketStatus) list"
  queue :: "ExecutionJob list"
  activeWorkers :: "(string \<times> ActiveWorker) list"
  tasks :: "ActiveWorker list"
  events :: "Event list"
  processes :: "string list"
  signals :: "string list"
  logStreamer :: "nat LogStreamer"
  runnerCalls :: "string list"

definition init_world :: "Project list \<Rightarrow> Ticket list \<Rightarrow> World" where
  "init_world ps ts =
     \<lparr>projects = ps, tickets = ts, jobs = [], statusWrites = [], queue = [],
      activeWorkers = [], tasks = [], events = [], processes = [], signals = [],
      logStreamer = \<lparr>watchers = [], lineEvents = []\<rparr>, runnerCalls = []\<rparr>"

text \<open>
  The operations of \<open>database.ts\<close> that the orchestrator calls. An \<open>UPDATE ... WHERE id = ?\<close>
  changes the rows with that id and nothing when there is none. \<open>randomUUID\<close> is modelled
  by numbering the job rows (rows are never deleted here). The store runs with
  \<open>foreign_keys = ON\<close>: inserting a job for a ticket that is not in the store, or an
  analytics event for a ticket or a project that is not in the store, throws; the
  analytics events themselves are not kept.
\<close>

definition tickets_findById :: "string \<Rightarrow> World \<Rightarrow> Ticket option" where
  "tickets_findById tid s = find (\<lambda>t. t_id t = tid) (tickets s)"

definition projects_findById :: "string \<Rightarrow> World \<Rightarrow> Project option" where
  "projects_findById pid s = find (\<lambda>p. p_id p = pid) (projects s)"

definition tickets_updateStatus ::
  "string \<Rightarrow> TicketStatus \<Rightarrow> string option \<Rightarrow> World \<Rightarrow> World" where
  "tickets_updateStatus tid st err s =
     s\<lparr>tickets := map (\<lambda>t. if t_id t = tid then t\<lparr>t_status := st, t_error := err\<rparr> else t)
                     (tickets s),
       statusWrites := statusWrites s @ [(tid, st)]\<rparr>"

definition tickets_updatePlan :: "string \<Rightarrow> string \<Rightarrow> World \<Rightarrow> World" where
  "tickets_updatePlan tid txt s =
     s\<lparr>tickets := map (\<lambda>t. if t_id t = tid then t\<lparr>t_plan := Some txt\<rparr> else t) (tickets s)\<rparr>"

definition tickets_updateBranch :: "string \<Rightarrow> string \<Rightarrow> string \<Rightarrow> World \<Rightarrow> World" where
  "tickets_updateBranch tid branch path s =
     s\<lparr>tickets := map (\<lambda>t. if t_id t = tid
                             then t\<lparr>t_branch := Some branch, t_worktreePath := Some path\<rparr>
                             else t) (tickets s)\<rparr>"

definition tickets_setMetadata :: "string \<Rightarrow> TicketMetadata \<Rightarrow> World \<Rightarrow> World" where
  "tickets_setMetadata tid md s =
     s\<lparr>tickets := map (\<lambda>t. if t_id t = tid then t\<lparr>t_metadata := Some md\<rparr> else t) (tickets s)\<rparr>"

definition jobs_create ::
  "string \<Rightarrow> JobPhase \<Rightarrow> string \<Rightarrow> World \<Rightarrow> string + (ExecutionJob \<times> World)" where
  "jobs_create tid phase path s =
     (case tickets_findById tid s of
        None \<Rightarrow> Inl ''FOREIGN KEY constraint failed''
      | Some t \<Rightarrow>
          (let job = \<lparr>j_id = length (jobs s), j_ticketId = tid, j_phase = phase,
                       j_status = pending, j_exitCode = None, j_logPath = path,
                       j_retryCount = 0\<rparr>
           in Inr (job, s\<lparr>jobs := jobs s @ [job]\<rparr>)))"

definition jobs_updateStatus :: "nat \<Rightarrow> JobStatus \<Rightarrow> int option \<Rightarrow> World \<Rightarrow> World" where
  "jobs_updateStatus jid st code s =
     s\<lparr>jobs := map (\<lambda>j. if j_id j = jid then j\<lparr>j_status := st, j_exitCode := code\<rparr> else j)
                  (jobs s)\<rparr>"

definition jobs_incrementRetry :: "nat \<Rightarrow> World \<Rightarrow> World" where
  "jobs_incrementRetry jid s =
     s\<lparr>jobs := map (\<lambda>j. if j_id j = jid then j\<lparr>j_retryCount := j_retryCount j + 1\<rparr> else j)
                  (jobs s)\<rparr>"

definition analytics_record :: "string \<Rightarrow> string \<Rightarrow> World \<Rightarrow> string option" where
  "analytics_record tid pid s =
     (if tickets_findById tid s = None \<or> projects_findById pid s = None
      then Some ''FOREIGN KEY constraint failed'' else None)"

definition emit :: "Event \<Rightarrow> World \<Rightarrow> World" where
  "emit e s = s\<lparr>events := events s @ [e]\<rparr>"

text \<open>Numbers in messages: the decimal digits of an integer, as a template literal gives.\<close>

fun show_nat :: "nat \<Rightarrow> string" where
  "show_nat n =
     (if n < 10 then [char_of (48 + n)] else show_nat (n div 10) @ [char_of (48 + n mod 10)])"

definition show_int :: "int \<Rightarrow> string" where
  "show_int i = (if i < 0 then CHR ''-'' # show_nat (nat (- i)) else show_nat (nat i))"

declare show_nat.simps [simp del]

section \<open>Orchestrator\<close>

definition remove_at :: "nat \<Rightarrow> 'a list \<Rightarrow> 'a list" where
  "remove_at i xs = take i xs @ drop (Suc i) xs"

fun find_index :: "('a \<Rightarrow> bool) \<Rightarrow> 'a list \<Rightarrow> nat option" where
  "find_index P [] = None"
| "find_index P (x # xs) = (if P x then Some 0 else map_option Suc (find_index P xs))"

text \<open>\<open>LogStreamer.logPath\<close>: the log file of a ticket and a name (the \<open>mkdir\<close> is left out).\<close>

definition logPath_of :: "string \<Rightarrow> string \<Rightarrow> string \<Rightarrow> string" where
  "logPath_of dir tid name = dir @ ''/'' @ tid @ ''/'' @ name @ ''.log''"

text \<open>
  \<open>runWorker\<close> is an asynchronous function. What it does before its first suspension
  happens inside \<open>tick\<close>: the job is marked \<open>running\<close>, and a plan job is handed to the
  log streamer. The rest of its run is the task added to \<open>tasks\<close>.
\<close>

definition runWorker_start :: "ExecutionJob \<Rightarrow> Ticket \<Rightarrow> Project \<Rightarrow> World \<Rightarrow> World" where
  "runWorker_start job ticket project s =
     (let s1 = jobs_updateStatus (j_id job) running None s;
          s2 = (if j_phase job = phase_plan
                then s1\<lparr>logStreamer := watch (j_id job) (j_logPath job) (logStreamer s1)\<rparr>
                else s1)
      in s2\<lparr>tasks := tasks s2 @ [\<lparr>w_job = job, w_ticket = ticket, w_project = project\<rparr>]\<rparr>)"

lemma queue_runWorker_start [simp]: "queue (runWorker_start job ticket project s) = queue s"
  by (simp add: runWorker_start_def Let_def jobs_updateStatus_def)

text \<open>
  \<open>tick\<close>: the loop over the queue with its index \<open>i\<close>; \<open>splice(i--, 1)\<close> followed by the
  loop's \<open>i++\<close> removes the element and keeps the index. The size of the \<open>activeWorkers\<close>
  map is the length of its association list.
\<close>

function tick_loop :: "OrchestratorConfig \<Rightarrow> nat \<Rightarrow> World \<Rightarrow> World" where
  "tick_loop cfg i s =
     (if i < length (queue s) then
        (if maxWorkers cfg \<le> int (length (activeWorkers s)) then s
         else
           (let job = queue s ! i in
            case tickets_findById (j_ticketId job) s of
              None \<Rightarrow> tick_loop cfg i (s\<lparr>queue := remove_at i (queue s)\<rparr>)
            | Some ticket \<Rightarrow>
                (case projects_findById (t_projectId ticket) s of
                   None \<Rightarrow> tick_loop cfg i (s\<lparr>queue := remove_at i (queue s)\<rparr>)
                 | Some project \<Rightarrow>
                     if s_maxParallelJobs (p_settings project)
                          \<le> int (length (filter (\<lambda>e. p_id (w_project (snd e)) = p_id project)
                                           (activeWorkers s)))
                     then tick_loop cfg (Suc i) s
                     else tick_loop cfg i
                            (runWorker_start job ticket project
                               (s\<lparr>queue := remove_at i (queue s),
                                  activeWorkers :=
                                    map_set (t_id ticket)
                                      \<lparr>w_job = job, w_ticket = ticket, w_project = project\<rparr>
                                      (activeWorkers s)\<rparr>)))))
      else s)"
  by pat_completeness auto
termination
  by (relation "measure (\<lambda>(cfg, i, s). length (queue s) - i)")
     (auto simp: remove_at_def)

declare tick_loop.simps [simp del]

definition tick :: "OrchestratorConfig \<Rightarrow> World \<Rightarrow> World" where
  "tick cfg s =
     (if queue s = [] \<or> maxWorkers cfg \<le> int (length (activeWorkers s)) then s
      else tick_loop cfg 0 s)"

text \<open>
  \<open>enqueuePlan\<close> and \<open>enqueueExecute\<close>. The result is the rejection message or the job,
  together with the state, which keeps what was done before a rejection.
\<close>

definition enqueuePlan ::
  "OrchestratorConfig \<Rightarrow> Ticket \<Rightarrow> Project \<Rightarrow> World \<Rightarrow> (string + ExecutionJob) \<times> World" where
  "enqueuePlan cfg ticket project s =
     (case jobs_create (t_id ticket) phase_plan
             (logPath_of (logsDir cfg) (t_id ticket) ''plan'') s of
        Inl err \<Rightarrow> (Inl err, s)
      | Inr (job, s1) \<Rightarrow>
          (let s2 = tickets_updateStatus (t_id ticket) planning None s1;
               s3 = emit (TicketStatusEvent (t_id ticket) planning) s2;
               s4 = s3\<lparr>queue := queue s3 @ [job]\<rparr>
           in case analytics_record (t_id ticket) (p_id project) s4 of
                Some err \<Rightarrow> (Inl err, s4)
              | None \<Rightarrow> (Inr job, tick cfg s4)))"

definition enqueueExecute ::
  "OrchestratorConfig \<Rightarrow> Ticket \<Rightarrow> Project \<Rightarrow> World \<Rightarrow> (string + ExecutionJob) \<times> World" where
  "enqueueExecute cfg ticket project s =
     (case jobs_create (t_id ticket) phase_execute
             (logPath_of (logsDir cfg) (t_id ticket) ''execute'') s of
        Inl err \<Rightarrow> (Inl err, s)
      | Inr (job, s1) \<Rightarrow>
          (let s2 = tickets_updateStatus (t_id ticket) queued None s1;
               s3 = emit (TicketStatusEvent (t_id ticket) queued) s2;
               s4 = s3\<lparr>queue := queue s3 @ [job]\<rparr>
           in case analytics_record (t_id ticket) (p_id project) s4 of
                Some err \<Rightarrow> (Inl err, s4)
              | None \<Rightarrow> (Inr job, tick cfg s4)))"

text \<open>\<open>ClaudeCodeRunner.cancel\<close>: a tracked process gets \<open>SIGTERM\<close> and is forgotten.\<close>

definition runner_cancel :: "string \<Rightarrow> World \<Rightarrow> World" where
  "runner_cancel trackingId s =
     (if trackingId \<in> set (processes s)
      then s\<lparr>signals := signals s @ [trackingId],
             processes := removeAll trackingId (processes s)\<rparr>
      else s)"

definition cancel :: "string \<Rightarrow> World \<Rightarrow> World" where
  "cancel ticketId s =
     (let s1 = (case find_index (\<lambda>j. j_ticketId j = ticketId) (queue s) of
                  None \<Rightarrow> s
                | Some queueIdx \<Rightarrow>
                    jobs_updateStatus (j_id (queue s ! queueIdx)) job_failed (Some (- 1))
                      (s\<lparr>queue := remove_at queueIdx (queue s)\<rparr>));
          s2 = runner_cancel ticketId s1;
          s3 = (case map_of (activeWorkers s2) ticketId of
                  None \<Rightarrow> s2
                | Some worker \<Rightarrow>
                    jobs_updateStatus (j_id (w_job worker)) job_failed (Some (- 1))
                      (s2\<lparr>activeWorkers := map_delete ticketId (activeWorkers s2),
                          logStreamer := stop (j_id (w_job worker)) (logStreamer s2)\<rparr>));
          s4 = tickets_updateStatus ticketId failed (Some ''Cancelled by user.'') s3
      in emit (TicketStatusEvent ticketId failed) s4)"

text \<open>
  \<open>finishWorker\<close>. The result is the message of an exception thrown by the analytics
  insert, after which \<open>tick\<close> is not reached.
\<close>

definition finishWorker ::
  "OrchestratorConfig \<Rightarrow> ExecutionJob \<Rightarrow> Ticket \<Rightarrow> Project \<Rightarrow> bool \<Rightarrow> string option \<Rightarrow> World
     \<Rightarrow> string option \<times> World" where
  "finishWorker cfg job ticket project succeeded errorMessage s =
     (let s1 = s\<lparr>logStreamer := stop (j_id job) (logStreamer s),
                 activeWorkers := map_delete (t_id ticket) (activeWorkers s)\<rparr>
      in if succeeded then
           (let s2 = jobs_updateStatus (j_id job) job_completed (Some 0) s1;
                s3 = tickets_updateStatus (t_id ticket) completed None s2;
                s4 = emit (TicketStatusEvent (t_id ticket) completed) s3;
                s5 = emit (JobCompleted (t_id ticket)) s4
            in case analytics_record (t_id ticket) (p_id project) s5 of
                 Some err \<Rightarrow> (Some err, s5)
               | None \<Rightarrow> (None, tick cfg s5))
         else
           (let msg = (case errorMessage of Some m \<Rightarrow> m | None \<Rightarrow> ''Unknown error'');
                s2 = jobs_updateStatus (j_id job) job_failed (Some 1) s1;
                s3 = tickets_updateStatus (t_id ticket) failed (Some msg) s2;
                s4 = emit (TicketStatusEvent (t_id ticket) failed) s3;
                s5 = emit (JobFailed (t_id ticket) msg) s4
            in case analytics_record (t_id ticket) (p_id project) s5 of
                 Some err \<Rightarrow> (Some err, s5)
               | None \<Rightarrow> (None, tick cfg s5)))"

text \<open>
  What the outside world answers during a plan phase: an exception of the template
  engine, the outcome of \<open>runner.run\<close> (a rejection, or the exit code \<open>exitCode ?? 1\<close>) and
  the plan text that \<open>extractPlanFromOutput\<close> finds in the output.
\<close>

record PlanEnv =
  pe_renderError :: "string option"
  pe_agent :: "string + int"
  pe_plan :: string

definition finishPlan ::
  "OrchestratorConfig \<Rightarrow> ExecutionJob \<Rightarrow> Ticket \<Rightarrow> Project \<Rightarrow> World \<Rightarrow> string option \<times> World" where
  "finishPlan cfg job ticket project s =
     (let s1 = jobs_updateStatus (j_id job) job_completed (Some 0) s;
          s2 = s1\<lparr>activeWorkers := map_delete (t_id ticket) (activeWorkers s1)\<rparr>
      in case analytics_record (t_id ticket) (p_id project) s2 of
           Some err \<Rightarrow> (Some err, s2)
         | None \<Rightarrow> (None, tick cfg s2))"

text \<open>
  \<open>runPlanPhase\<close> after the start of the worker; \<open>finishPlan\<close> is its last five lines.
  The result is the message of a thrown exception, if any.
\<close>

definition runPlanPhase ::
  "OrchestratorConfig \<Rightarrow> PlanEnv \<Rightarrow> ExecutionJob \<Rightarrow> Ticket \<Rightarrow> Project \<Rightarrow> World
     \<Rightarrow> string option \<times> World" where
  "runPlanPhase cfg env job ticket project s =
     (case pe_renderError env of
        Some err \<Rightarrow> (Some err, s)
      | None \<Rightarrow>
          (let s1 = s\<lparr>runnerCalls := runnerCalls s @ [t_id ticket]\<rparr> in
           case pe_agent env of
             Inl err \<Rightarrow> (Some err, s1)
           | Inr code \<Rightarrow>
               (let s2 = s1\<lparr>logStreamer := stop (j_id job) (logStreamer s1)\<rparr> in
                if code \<noteq> 0
                then (Some (''Plan generation failed with exit code '' @ show_int code), s2)
                else
                  (let s3 = tickets_updatePlan (t_id ticket) (pe_plan env) s2 in
                   if s_autoExecuteAfterPlan (p_settings project) then
                     (case tickets_findById (t_id ticket) s3 of
                        None \<Rightarrow> (Some ''Cannot read properties of undefined'', s3)
                      | Some refreshed \<Rightarrow>
                          (case enqueueExecute cfg refreshed project s3 of
                             (Inl err, s4) \<Rightarrow> (Some err, s4)
                           | (Inr queuedJob, s4) \<Rightarrow> finishPlan cfg job ticket project s4))
                   else
                     (let s4 = tickets_updateStatus (t_id ticket) plan_review None s3;
                          s5 = emit (TicketStatusEvent (t_id ticket) plan_review) s4
                      in finishPlan cfg job ticket project s5)))))"

text \<open>
  What the outside world answers during an execute phase: an exception of
  \<open>checkGitVersion\<close>, the test command that \<open>detectStack\<close> proposes, the outcome of the
  \<open>n\<close>-th call of \<open>runner.run\<close> and of the \<open>n\<close>-th run of the test command (exit code and
  output), counted from 0, and the outcome of \<open>getChangeSummary\<close> (an exception or the
  changed files). The lint command only writes log lines and analytics events, inside a
  \<open>try\<close>; it is left out.
\<close>

record ExecEnv =
  ee_gitVersionError :: "string option"
  ee_stackTestCommand :: "string option"
  ee_agent :: "nat \<Rightarrow> string + int"
  ee_test :: "nat \<Rightarrow> int \<times> string"
  ee_changeSummary :: "string + string list"

text \<open>
  The retry loop of \<open>runExecutePhase\<close>, \<open>while (retryCount <= maxRetries)\<close>, as a
  recursion on \<open>retryCount\<close>; \<open>hasTest\<close> is the truth value of \<open>testCommand\<close>. The result
  is the message of a thrown exception (\<open>Inl\<close>) or the final \<open>retryCount\<close> after a
  \<open>break\<close> with \<open>success\<close>; leaving the loop without success throws after it.
\<close>

function retryLoop ::
  "OrchestratorConfig \<Rightarrow> ExecEnv \<Rightarrow> bool \<Rightarrow> ExecutionJob \<Rightarrow> Ticket \<Rightarrow> Project \<Rightarrow> nat \<Rightarrow> World
     \<Rightarrow> (string + nat) \<times> World" where
  "retryLoop cfg env hasTest job ticket project retryCount s =
     (if int retryCount \<le> maxRetries cfg then
        (let s1 = s\<lparr>runnerCalls := runnerCalls s @ [t_id ticket]\<rparr> in
         case ee_agent env retryCount of
           Inl err \<Rightarrow> (Inl err, s1)
         | Inr code \<Rightarrow>
             if code \<noteq> 0 then (Inl (''Claude Code exited with code '' @ show_int code), s1)
             else if hasTest then
               (let s2 = tickets_updateStatus (t_id ticket) testing None s1;
                    s3 = emit (TicketStatusEvent (t_id ticket) testing) s2
                in if fst (ee_test env retryCount) = 0 then
                     (case analytics_record (t_id ticket) (p_id project) s3 of
                        Some err \<Rightarrow> (Inl err, s3)
                      | None \<Rightarrow> (Inr retryCount, s3))
                   else
                     (let s4 = jobs_incrementRetry (j_id job) s3 in
                      case analytics_record (t_id ticket) (p_id project) s4 of
                        Some err \<Rightarrow> (Inl err, s4)
                      | None \<Rightarrow>
                          if maxRetries cfg < int (Suc retryCount)
                          then (Inl (''Tests still failing after '' @ show_int (maxRetries cfg)
                                     @ '' retries.'' @ [newline, newline] @ ''Last error:''
                                     @ [newline] @ snd (ee_test env retryCount)), s4)
                          else retryLoop cfg env hasTest job ticket project (Suc retryCount) s4))
             else (Inr retryCount, s1))
      else (Inl ''Execution failed after exhausting retries.'', s))"
  by pat_completeness auto
termination
  by (relation "measure (\<lambda>(cfg, env, hasTest, job, ticket, project, retryCount, s).
                   nat (maxRetries cfg + 1 - int retryCount))") auto

declare retryLoop.simps [simp del]

definition runExecutePhase ::
  "OrchestratorConfig \<Rightarrow> (string \<Rightarrow> string \<Rightarrow> string) \<Rightarrow> ExecEnv \<Rightarrow> GitRepo \<Rightarrow> ExecutionJob \<Rightarrow> Ticket
     \<Rightarrow> Project \<Rightarrow> World \<Rightarrow> string option \<times> GitRepo \<times> World" where
  "runExecutePhase cfg join env repo job ticket project s =
     (case ee_gitVersionError env of
        Some err \<Rightarrow> (Some err, repo, s)
      | None \<Rightarrow>
          (let slug = slugify (t_title ticket) in
           case createWorktree join (p_worktreeRoot project) (t_id ticket) slug
                  (p_defaultBranch project) (branchPrefix cfg) repo of
             (Inl err, repo1) \<Rightarrow> (Some err, repo1, s)
           | (Inr worktreePath, repo1) \<Rightarrow>
               (let branch = branchPrefix cfg @ ''ticket-'' @ t_id ticket @ ''-'' @ slug;
                    s1 = tickets_updateBranch (t_id ticket) branch worktreePath s;
                    s2 = tickets_updateStatus (t_id ticket) in_progress None s1;
                    s3 = emit (TicketStatusEvent (t_id ticket) in_progress) s2;
                    s4 = s3\<lparr>logStreamer := watch (j_id job) (j_logPath job) (logStreamer s3)\<rparr>;
                    testCmd = (case s_testCommand (p_settings project) of
                                 Some c \<Rightarrow> Some c
                               | None \<Rightarrow> ee_stackTestCommand env)
                in case retryLoop cfg env (truthy testCmd) job ticket project 0 s4 of
                     (Inl err, s5) \<Rightarrow> (Some err, repo1, s5)
                   | (Inr retryCount, s5) \<Rightarrow>
                       (let s6 = s5\<lparr>logStreamer := stop (j_id job) (logStreamer s5)\<rparr>;
                            s7 = (case ee_changeSummary env of
                                    Inl err \<Rightarrow> s6
                                  | Inr files \<Rightarrow>
                                      tickets_setMetadata (t_id ticket)
                                        \<lparr>m_filesChanged = files,
                                         m_testsPassed = truthy testCmd,
                                         m_retryCount = retryCount\<rparr> s6)
                        in case finishWorker cfg job ticket project True None s7 of
                             (thrown, s8) \<Rightarrow> (thrown, repo1, s8)))))"

text \<open>
  The rest of \<open>runWorker\<close>: the phase of the job (the branch for \<open>execute\<close> also takes
  \<open>fix\<close>), and the \<open>catch\<close> that finishes the worker as failed.
\<close>

definition runWorker_rest ::
  "OrchestratorConfig \<Rightarrow> (string \<Rightarrow> string \<Rightarrow> string) \<Rightarrow> PlanEnv \<Rightarrow> ExecEnv \<Rightarrow> GitRepo
     \<Rightarrow> ExecutionJob \<Rightarrow> Ticket \<Rightarrow> Project \<Rightarrow> World \<Rightarrow> World" where
  "runWorker_rest cfg join penv eenv repo job ticket project s =
     (let r = (if j_phase job = phase_plan then runPlanPhase cfg penv job ticket project s
               else (case runExecutePhase cfg join eenv repo job ticket project s of
                       (thrown, repo', s') \<Rightarrow> (thrown, s')))
      in case r of
           (None, s') \<Rightarrow> s'
         | (Some message, s') \<Rightarrow>
             snd (finishWorker cfg job ticket project False (Some message) s'))"

text \<open>
  A task in flight runs to its end. Between the start of a worker and its end the model
  takes no intermediate state: the rest of the worker is one step.
\<close>

definition completeTask ::
  "OrchestratorConfig \<Rightarrow> (string \<Rightarrow> string \<Rightarrow> string) \<Rightarrow> PlanEnv \<Rightarrow> ExecEnv \<Rightarrow> GitRepo \<Rightarrow> nat
     \<Rightarrow> World \<Rightarrow> World" where
  "completeTask cfg join penv eenv repo i s =
     (if i < length (tasks s)
      then runWorker_rest cfg join penv eenv repo
             (w_job (tasks s ! i)) (w_ticket (tasks s ! i)) (w_project (tasks s ! i))
             (s\<lparr>tasks := remove_at i (tasks s)\<rparr>)
      else s)"

text \<open>
  The states the orchestrator reaches from a store without jobs, by calls of its public
  operations, ticks of the timer and completions of tasks, for any answers of the
  outside world.
\<close>

inductive reachable :: "OrchestratorConfig \<Rightarrow> World \<Rightarrow> bool" for cfg where
  r_init: "reachable cfg (init_world ps ts)"
| r_enqueuePlan: "reachable cfg s \<Longrightarrow> reachable cfg (snd (enqueuePlan cfg ticket project s))"
| r_enqueueExecute: "reachable cfg s \<Longrightarrow> reachable cfg (snd (enqueueExecute cfg ticket project s))"
| r_cancel: "reachable cfg s \<Longrightarrow> reachable cfg (cancel ticketId s)"
| r_tick: "reachable cfg s \<Longrightarrow> reachable cfg (tick cfg s)"
| r_complete: "reachable cfg s \<Longrightarrow> reachable cfg (completeTask cfg join penv eenv repo i s)"

text \<open>
  Outside the orchestrator: \<open>recoverInterruptedJobs\<close> of \<open>extension.ts\<close>, run at start-up,
  and the merge handler of the ticket views after the confirmation and a successful
  \<open>git merge\<close>.
\<close>

definition recoverInterruptedJobs :: "World \<Rightarrow> World" where
  "recoverInterruptedJobs s =
     fold (\<lambda>ticket w.
             if t_status ticket = in_progress \<or> t_status ticket = planning
                \<or> t_status ticket = testing
             then tickets_updateStatus (t_id ticket) failed
                    (Some ''Job interrupted by editor restart. Re-execute to try again.'') w
             else w)
          (tickets s) s"

definition handleMerge :: "string \<Rightarrow> World \<Rightarrow> World" where
  "handleMerge ticketId s =
     (case tickets_findById ticketId s of
        None \<Rightarrow> s
      | Some ticket \<Rightarrow>
          (case t_branch ticket of
             None \<Rightarrow> s
           | Some branch \<Rightarrow>
               (case projects_findById (t_projectId ticket) s of
                  None \<Rightarrow> s
                | Some project \<Rightarrow> tickets_updateStatus ticketId merged None s)))"

section \<open>Concrete inputs\<close>

text \<open>
  A configuration with a global cap of two workers and two retries, a project with a
  cap of two parallel jobs that runs the execute phase right after the plan and has a
  test command, and tickets of that project.
\<close>

definition cfg0 :: OrchestratorConfig where
  "cfg0 = \<lparr>maxWorkers = 2, maxRetries = 2, branchPrefix = ''autodev/'', logsDir = ''/logs''\<rparr>"

definition project0 :: Project where
  "project0 =
     \<lparr>p_id = ''P'', p_repoPath = ''/repo'', p_defaultBranch = ''main'',
      p_worktreeRoot = ''/repo/.worktrees'',
      p_settings = \<lparr>s_maxParallelJobs = 2, s_autoExecuteAfterPlan = True,
                     s_testCommand = Some ''exit 1'', s_lintCommand = None\<rparr>\<rparr>"

definition ticket0 :: "string \<Rightarrow> TicketStatus \<Rightarrow> Ticket" where
  "ticket0 tid st =
     \<lparr>t_id = tid, t_projectId = ''P'', t_title = ''Dark mode'', t_description = [],
      t_status = st, t_plan = None, t_branch = None, t_worktreePath = None,
      t_error = None, t_metadata = None\<rparr>"

definition world0 :: World where
  "world0 =
     init_world [project0] [ticket0 ''T'' backlog, ticket0 ''U'' backlog, ticket0 ''V'' backlog]"

text \<open>A plan run that succeeds, and an execute run whose tests fail every time.\<close>

definition planOk :: PlanEnv where
  "planOk = \<lparr>pe_renderError = None, pe_agent = Inr 0, pe_plan = ''Step 1''\<rparr>"

definition testsFail :: ExecEnv where
  "testsFail =
     \<lparr>ee_gitVersionError = None, ee_stackTestCommand = None,
      ee_agent = (\<lambda>n. Inr 0), ee_test = (\<lambda>n. (1, ''FAIL '' @ show_nat n)),
      ee_changeSummary = Inr [''a.ts'']\<rparr>"

definition repo0 :: GitRepo where
  "repo0 = \<lparr>paths = [''/repo''], branches = [''main''], revisions = [''HEAD''], worktrees = []\<rparr>"

definition path_join :: "string \<Rightarrow> string \<Rightarrow> string" where
  "path_join a b = a @ ''/'' @ b"

text \<open>
  A run of the orchestrator: the plan of ticket T is enqueued and its worker completes,
  which enqueues the execute phase of T; then the plans of U and V are enqueued.
\<close>

definition after_plan_T :: World where
  "after_plan_T =
     completeTask cfg0 path_join planOk testsFail repo0 0
       (snd (enqueuePlan cfg0 (ticket0 ''T'' backlog) project0 world0))"

definition after_plan_T_U_V :: World where
  "after_plan_T_U_V =
     snd (enqueuePlan cfg0 (ticket0 ''V'' backlog) project0
            (snd (enqueuePlan cfg0 (ticket0 ''U'' backlog) project0 after_plan_T)))"

text \<open>An execute job of ticket T is enqueued and its worker runs with failing tests.\<close>

definition execute_T_failing :: World where
  "execute_T_failing =
     completeTask cfg0 path_join planOk testsFail repo0 0
       (snd (enqueueExecute cfg0 (ticket0 ''T'' plan_review) project0
               (init_world [project0] [ticket0 ''T'' plan_review])))"

text \<open>The active jobs of a ticket: its rows with status \<open>pending\<close> or \<open>running\<close>.\<close>

definition active_jobs :: "string \<Rightarrow> World \<Rightarrow> nat" where
  "active_jobs tid s =
     length (filter (\<lambda>j. j_ticketId j = tid \<and> (j_status j = pending \<or> j_status j = running))
                    (jobs s))"

text \<open>The \<open>ticket:status\<close> events of an event list, as pairs of ticket id and status.\<close>

fun status_events :: "Event list \<Rightarrow> (string \<times> TicketStatus) list" where
  "status_events [] = []"
| "status_events (TicketStatusEvent tid st # es) = (tid, st) # status_events es"
| "status_events (e # es) = status_events es"


text \<open>A store as a restart of the editor finds it: ticket T was being executed.\<close>

definition interrupted :: World where
  "interrupted = init_world [project0] [ticket0 ''T'' in_progress]"

text \<open>The execute job of ticket T, and the state in which its worker runs.\<close>

definition job_T :: ExecutionJob where
  "job_T = \<lparr>j_id = 0, j_ticketId = ''T'', j_phase = phase_execute, j_status = pending,
            j_exitCode = None, j_logPath = ''/logs/T/execute.log'', j_retryCount = 0\<rparr>"

definition running_T :: World where
  "running_T =
     (snd (enqueueExecute cfg0 (ticket0 ''T'' plan_review) project0
             (init_world [project0] [ticket0 ''T'' plan_review])))\<lparr>tasks := []\<rparr>"


text \<open>The repository after the first execution of ticket T has created its worktree.\<close>

definition repo_T :: GitRepo where
  "repo_T =
     \<lparr>paths = [''/repo'', ''/repo/.worktrees'', ''/repo/.worktrees/ticket-T''],
      branches = [''main'', ''autodev/ticket-T-dark-mode''], revisions = [''HEAD''],
      worktrees = [(''/repo/.worktrees/ticket-T'', ''autodev/ticket-T-dark-mode'')]\<rparr>"

text \<open>
  An execute run whose tests fail after the first run of the agent and pass after the
  second, and a configuration with another branch prefix.
\<close>

definition testsFailOnce :: ExecEnv where
  "testsFailOnce =
     \<lparr>ee_gitVersionError = None, ee_stackTestCommand = None,
      ee_agent = (\<lambda>n. Inr 0), ee_test = (\<lambda>n. if n = 0 then (1, ''FAIL'') else (0, ''ok'')),
      ee_changeSummary = Inr [''a.ts'']\<rparr>"

definition cfg1 :: OrchestratorConfig where
  "cfg1 = cfg0\<lparr>branchPrefix := ''feature/''\<rparr>"

text \<open>The repository after the worktree of ticket T has been removed.\<close>

definition repo_cleaned :: GitRepo where
  "repo_cleaned =
     \<lparr>paths = [''/repo'', ''/repo/.worktrees''],
      branches = [''main'', ''autodev/ticket-T-dark-mode''], revisions = [''HEAD''],
      worktrees = []\<rparr>"
section \<open>Notions used in the proofs\<close>

text \<open>The rows of the given ids marked \<open>running\<close>, as the workers started by a tick do.\<close>

definition mark_running :: "nat set \<Rightarrow> ExecutionJob list \<Rightarrow> ExecutionJob list" where
  "mark_running A js =
     map (\<lambda>j. if j_id j \<in> A then j\<lparr>j_status := running, j_exitCode := None\<rparr> else j) js"

text \<open>
  A relation between states holds along the orchestrator's code when it is reflexive and
  transitive and holds across each elementary step. The core steps are those of the
  scheduler and of the test loop: an update of the queue, of the \<open>activeWorkers\<close> map,
  of the tasks, of the streamer or of the history of runner calls, a write to a job row,
  a status write together with the \<open>ticket:status\<close> event that follows it in the
  source, and the two job events. The other steps are the termination of a process and
  the writes to a ticket's plan, branch and metadata.
\<close>

definition core_closed :: "(World \<Rightarrow> World \<Rightarrow> bool) \<Rightarrow> bool" where
  "core_closed R \<longleftrightarrow>
     (\<forall>s. R s s) \<and> (\<forall>a b c. R a b \<longrightarrow> R b c \<longrightarrow> R a c)
     \<and> (\<forall>s q. R s (s\<lparr>queue := q\<rparr>))
     \<and> (\<forall>s aw. R s (s\<lparr>activeWorkers := aw\<rparr>))
     \<and> (\<forall>s ts. R s (s\<lparr>tasks := ts\<rparr>))
     \<and> (\<forall>s l. R s (s\<lparr>logStreamer := l\<rparr>))
     \<and> (\<forall>s c. R s (s\<lparr>runnerCalls := c\<rparr>))
     \<and> (\<forall>s jid st code. R s (jobs_updateStatus jid st code s))
     \<and> (\<forall>s jid. R s (jobs_incrementRetry jid s))
     \<and> (\<forall>s tid st err. R s (emit (TicketStatusEvent tid st) (tickets_updateStatus tid st err s)))
     \<and> (\<forall>s tid. R s (emit (JobCompleted tid) s))
     \<and> (\<forall>s tid msg. R s (emit (JobFailed tid msg) s))"

definition prim_closed :: "(World \<Rightarrow> World \<Rightarrow> bool) \<Rightarrow> bool" where
  "prim_closed R \<longleftrightarrow>
     core_closed R
     \<and> (\<forall>s tid. R s (runner_cancel tid s))
     \<and> (\<forall>s tid txt. R s (tickets_updatePlan tid txt s))
     \<and> (\<forall>s tid b p. R s (tickets_updateBranch tid b p s))
     \<and> (\<forall>s tid md. R s (tickets_setMetadata tid md s))"

text \<open>The same for the insertion of a job row of phase \<open>plan\<close> or \<open>execute\<close>.\<close>

definition create_closed :: "(World \<Rightarrow> World \<Rightarrow> bool) \<Rightarrow> bool" where
  "create_closed R \<longleftrightarrow>
     (\<forall>s tid phase path job s'.
        jobs_create tid phase path s = Inr (job, s') \<longrightarrow> phase \<noteq> phase_fix \<longrightarrow> R s s')"

text \<open>
  Every status write has its event: the \<open>ticket:status\<close> events, in order, are the
  calls of \<open>tickets.updateStatus\<close>, in order.
\<close>

definition paired :: "World \<Rightarrow> bool" where
  "paired s \<longleftrightarrow> status_events (events s) = statusWrites s"

text \<open>What identifies a job row: its id, its ticket and its phase.\<close>

definition job_keys :: "World \<Rightarrow> (nat \<times> string \<times> JobPhase) list" where
  "job_keys s = map (\<lambda>j. (j_id j, j_ticketId j, j_phase j)) (jobs s)"

definition plan_or_execute :: "JobPhase \<Rightarrow> bool" where
  "plan_or_execute ph \<longleftrightarrow> ph = phase_plan \<or> ph = phase_execute"


definition phases_ok :: "World \<Rightarrow> bool" where
  "phases_ok s \<longleftrightarrow> list_all (\<lambda>k. plan_or_execute (snd (snd k))) (job_keys s)"

text \<open>The job rows after \<open>k\<close> calls of \<open>jobs.incrementRetry\<close> for the job \<open>jid\<close>.\<close>

definition add_retries :: "nat \<Rightarrow> nat \<Rightarrow> ExecutionJob list \<Rightarrow> ExecutionJob list" where
  "add_retries jid k js =
     map (\<lambda>j. if j_id j = jid then j\<lparr>j_retryCount := j_retryCount j + k\<rparr> else j) js"

text \<open>The message of the error thrown by the retry loop when the last retry has failed.\<close>

definition exhausted_message :: "OrchestratorConfig \<Rightarrow> string \<Rightarrow> string" where
  "exhausted_message cfg lastError =
     ''Tests still failing after '' @ show_int (maxRetries cfg) @ '' retries.''
       @ [newline, newline] @ ''Last error:'' @ [newline] @ lastError"

text \<open>
  One turn of the retry loop in which the agent exits with 0 and the tests fail: the
  call of the runner, the status \<open>testing\<close> with its event, and the increment of the job's
  retry counter.
\<close>

definition failed_attempt :: "ExecutionJob \<Rightarrow> Ticket \<Rightarrow> World \<Rightarrow> World" where
  "failed_attempt job ticket s =
     jobs_incrementRetry (j_id job)
       (emit (TicketStatusEvent (t_id ticket) testing)
          (tickets_updateStatus (t_id ticket) testing None
             (s\<lparr>runnerCalls := runnerCalls s @ [t_id ticket]\<rparr>)))"

text \<open>The state in which the retry loop of \<open>runExecutePhase\<close> starts, for the worktree \<open>path\<close>.\<close>

definition execute_start :: "OrchestratorConfig \<Rightarrow> ExecutionJob \<Rightarrow> Ticket \<Rightarrow> string \<Rightarrow> World \<Rightarrow> World" where
  "execute_start cfg job ticket path s =
     (let s3 = emit (TicketStatusEvent (t_id ticket) in_progress)
                 (tickets_updateStatus (t_id ticket) in_progress None
                    (tickets_updateBranch (t_id ticket)
                       (branchPrefix cfg @ ''ticket-'' @ t_id ticket @ ''-'' @ slugify (t_title ticket))
                       path s))
      in s3\<lparr>logStreamer := watch (j_id job) (j_logPath job) (logStreamer s3)\<rparr>)"


text \<open>The branch and the worktree path recorded for each ticket.\<close>

definition ticket_places :: "World \<Rightarrow> (string \<times> string option \<times> string option) list" where
  "ticket_places s = map (\<lambda>t. (t_id t, t_branch t, t_worktreePath t)) (tickets s)"

text \<open>
  The number of test runs that fail in the retry loop entered with \<open>retryCount\<close>, in the
  words of the specification: a turn counts when the agent exits with 0, a test command
  is configured and the tests fail; the loop goes on to the next turn unless the retries
  are used up or the analytics insert throws (\<open>stored\<close> is false).
\<close>

function failed_test_runs :: "OrchestratorConfig \<Rightarrow> ExecEnv \<Rightarrow> bool \<Rightarrow> bool \<Rightarrow> nat \<Rightarrow> nat" where
  "failed_test_runs cfg env hasTest stored retryCount =
     (if int retryCount \<le> maxRetries cfg \<and> ee_agent env retryCount = Inr 0 \<and> hasTest
         \<and> fst (ee_test env retryCount) \<noteq> 0
      then (if stored \<and> \<not> maxRetries cfg < int (Suc retryCount)
            then Suc (failed_test_runs cfg env hasTest stored (Suc retryCount))
            else 1)
      else 0)"
  by pat_completeness auto
termination
  by (relation "measure (\<lambda>(cfg, env, hasTest, stored, retryCount).
                   nat (maxRetries cfg + 1 - int retryCount))") auto

declare failed_test_runs.simps [simp del]

section \<open>Properties of the subprocess runner\<close>

lemma split_on_nonempty [simp]: "split_on sep xs \<noteq> []"
  by (induction xs) auto

lemma split_on_append:
  "split_on sep (xs @ ys) =
     butlast (split_on sep xs) @ split_on sep (last (split_on sep xs) @ ys)"
proof (induction xs)
  case Nil
  show ?case by simp
next
  case (Cons c cs)
  show ?case
  proof (cases "c = sep")
    case True
    with Cons show ?thesis by simp
  next
    case False
    obtain l ls where sp: "split_on sep cs = l # ls"
      by (cases "split_on sep cs") auto
    show ?thesis
    proof (cases ls)
      case Nil
      with False sp Cons show ?thesis by simp
    next
      case (Cons a as)
      with False sp Cons.IH show ?thesis by simp
    qed
  qed
qed

lemma split_on_no_sep: "sep \<notin> set xs \<Longrightarrow> split_on sep xs = [xs]"
  by (induction xs) auto

lemma last_split_on_no_sep: "sep \<notin> set (last (split_on sep xs))"
proof (induction xs)
  case Nil
  show ?case by simp
next
  case (Cons c cs)
  obtain l ls where sp: "split_on sep cs = l # ls"
    by (cases "split_on sep cs") auto
  with Cons show ?case by (cases ls) auto
qed

lemma last_split_on_append:
  "last (split_on sep (xs @ ys)) = last (split_on sep (last (split_on sep xs) @ ys))"
  by (subst split_on_append) simp

lemma butlast_split_on_append:
  "butlast (split_on sep (xs @ ys)) =
     butlast (split_on sep xs) @ butlast (split_on sep (last (split_on sep xs) @ ys))"
  by (subst split_on_append) (simp add: butlast_append)

lemma filter_butlast_last:
  "xs \<noteq> [] \<Longrightarrow>
   filter P xs = filter P (butlast xs) @ (if P (last xs) then [last xs] else [])"
  by (induction xs rule: rev_induct) auto

lemma fold_nonempty_lines:
  "fold (\<lambda>line c. if line \<noteq> [] then f line c else c) ls c =
     fold f (filter (\<lambda>l. l \<noteq> []) ls) c"
  by (induction ls arbitrary: c) auto

text \<open>
  The state after any number of chunks, from a state whose line buffer holds no newline:
  the output buffer has grown by the decoded chunks and the log stream by their bytes,
  the line buffer is the unterminated rest of everything buffered, and the callback has
  received the non-empty terminated lines.
\<close>

lemma handleData_fold:
  "LF \<notin> set (lineBuffer st) \<Longrightarrow>
   fold (handleData (Some f)) chunks st =
     st\<lparr>outputBuffer := outputBuffer st @ concat (map utf8_toString chunks),
        logStream := logStream st @ concat chunks,
        lineBuffer := last (split_on LF (lineBuffer st @ concat (map utf8_toString chunks))),
        callback := fold f (filter (\<lambda>l. l \<noteq> [])
                      (butlast (split_on LF (lineBuffer st @ concat (map utf8_toString chunks)))))
                      (callback st)\<rparr>"
proof (induction chunks arbitrary: st)
  case Nil
  then show ?case by (simp add: split_on_no_sep)
next
  case (Cons c cs)
  let ?st1 = "handleData (Some f) c st"
  let ?t = "utf8_toString c"
  let ?ts = "concat (map utf8_toString cs)"
  have lb1: "lineBuffer ?st1 = last (split_on LF (lineBuffer st @ ?t))"
    by (simp add: handleData_def Let_def)
  have cb1: "callback ?st1 = fold f (filter (\<lambda>l. l \<noteq> [])
               (butlast (split_on LF (lineBuffer st @ ?t)))) (callback st)"
    by (simp add: handleData_def Let_def fold_nonempty_lines)
  have ob1: "outputBuffer ?st1 = outputBuffer st @ ?t" "logStream ?st1 = logStream st @ c"
    by (simp_all add: handleData_def Let_def)
  have nl1: "LF \<notin> set (lineBuffer ?st1)"
    unfolding lb1 by (rule last_split_on_no_sep)
  have "fold (handleData (Some f)) (c # cs) st = fold (handleData (Some f)) cs ?st1"
    by simp
  also have "\<dots> = ?st1\<lparr>outputBuffer := outputBuffer ?st1 @ ?ts,
        logStream := logStream ?st1 @ concat cs,
        lineBuffer := last (split_on LF (lineBuffer ?st1 @ ?ts)),
        callback := fold f (filter (\<lambda>l. l \<noteq> [])
                      (butlast (split_on LF (lineBuffer ?st1 @ ?ts))))
                      (callback ?st1)\<rparr>"
    by (rule Cons.IH [OF nl1])
  also have "\<dots> = st\<lparr>outputBuffer := outputBuffer st @ concat (map utf8_toString (c # cs)),
        logStream := logStream st @ concat (c # cs),
        lineBuffer := last (split_on LF (lineBuffer st @ concat (map utf8_toString (c # cs)))),
        callback := fold f (filter (\<lambda>l. l \<noteq> [])
                      (butlast (split_on LF (lineBuffer st @ concat (map utf8_toString (c # cs))))))
                      (callback st)\<rparr>"
  proof -
    have e1: "last (split_on LF (lineBuffer st @ concat (map utf8_toString (c # cs)))) =
              last (split_on LF (lineBuffer ?st1 @ ?ts))"
      unfolding lb1
      using last_split_on_append [of LF "lineBuffer st @ ?t" ?ts] by simp
    have e2: "butlast (split_on LF (lineBuffer st @ concat (map utf8_toString (c # cs)))) =
              butlast (split_on LF (lineBuffer st @ ?t)) @
              butlast (split_on LF (lineBuffer ?st1 @ ?ts))"
      unfolding lb1
      using butlast_split_on_append [of LF "lineBuffer st @ ?t" ?ts] by simp
    show ?thesis
      unfolding e1 e2 cb1 ob1 by (simp add: handleData_def Let_def)
  qed
  finally show ?case .
qed

text \<open>
  For every sequence of chunks, the callback receives, in order and once each, the
  non-empty lines of the concatenation of the texts of the chunks, each chunk decoded on
  its own; the resolved output is that concatenation, and empty lines are not delivered,
  because \<open>handleData\<close> calls \<open>onLine\<close> under the guard \<open>if (line && options.onLine)\<close>.
\<close>

lemma run_delivers_lines_of_decoded_chunks:
  "run (Some f) chunks code c0 =
     (\<lparr>exitCode = (case code of Some n \<Rightarrow> n | None \<Rightarrow> 1),
       outputText = concat (map utf8_toString chunks)\<rparr>,
      fold f (filter (\<lambda>l. l \<noteq> []) (split_on LF (concat (map utf8_toString chunks)))) c0)"
proof -
  let ?ls = "split_on LF (concat (map utf8_toString chunks))"
  have "filter (\<lambda>l. l \<noteq> []) ?ls =
          filter (\<lambda>l. l \<noteq> []) (butlast ?ls) @ (if last ?ls \<noteq> [] then [last ?ls] else [])"
    by (rule filter_butlast_last) simp
  then show ?thesis
    by (simp add: run_def onClose_def handleData_fold Let_def)
qed

lemma run_skips_empty_lines:
  "terminated_lines (utf8_toString (codes ''a\<newline>\<newline>b\<newline>'')) = [codes ''a'', [], codes ''b'']
   \<and> snd (run (Some record_line) [codes ''a\<newline>\<newline>b\<newline>''] (Some 0) []) = [codes ''a'', codes ''b'']"
  by (simp add: terminated_lines_def run_def onClose_def handleData_def utf8_toString_def
        record_line_def LF_def codes_def Let_def)

text \<open>
  C7 does not hold of the code. The process writes the line \<open>c\<close>, \<open>U+00E9\<close>, newline, in
  UTF-8 the bytes \<open>63 C3 A9 0A\<close>, and the bytes arrive in the two chunks \<open>63 C3\<close> and
  \<open>A9 0A\<close>. The concatenated stream has the one line \<open>c\<close>, \<open>U+00E9\<close>. \<open>handleData\<close> decodes
  each chunk on its own: the first gives \<open>c\<close> and \<open>U+FFFD\<close> for the cut sequence, the
  second \<open>U+FFFD\<close> for the stray continuation byte and the newline. The callback
  receives the line \<open>c\<close>, \<open>U+FFFD\<close>, \<open>U+FFFD\<close>, and the resolved output is not the text of
  the concatenation of the chunks.
\<close>

theorem run_damages_character_cut_by_chunks:
  "utf8_toString (concat [[0x63, 0xC3], [0xA9, 0x0A]]) = [0x63, 0xE9, 0x0A]
   \<and> terminated_lines (utf8_toString (concat [[0x63, 0xC3], [0xA9, 0x0A]])) = [[0x63, 0xE9]]
   \<and> run (Some record_line) [[0x63, 0xC3], [0xA9, 0x0A]] (Some 0) []
       = (\<lparr>exitCode = 0, outputText = [0x63, 0xFFFD, 0xFFFD, 0x0A]\<rparr>, [[0x63, 0xFFFD, 0xFFFD]])"
  by (simp add: terminated_lines_def run_def onClose_def handleData_def utf8_toString_def
        record_line_def LF_def Let_def)

section \<open>Properties of the log tailer\<close>

lemma last_split_on_suffix_aux:
  "\<exists>q. xs = q @ last (split_on sep xs) \<and> (tl (split_on sep xs) = [] \<longrightarrow> q = [])"
proof (induction xs)
  case Nil
  show ?case by simp
next
  case (Cons c cs)
  then obtain q where q: "cs = q @ last (split_on sep cs)"
    and q0: "tl (split_on sep cs) = [] \<longrightarrow> q = []" by blast
  obtain l ls where sp: "split_on sep cs = l # ls"
    by (cases "split_on sep cs") auto
  show ?case
  proof (cases "c = sep")
    case True
    then have "c # cs = (c # q) @ last (split_on sep (c # cs))"
      using q by simp
    moreover have "tl (split_on sep (c # cs)) \<noteq> []" using True by simp
    ultimately show ?thesis by blast
  next
    case False
    show ?thesis
    proof (cases ls)
      case Nil
      with sp q0 q have "cs = l" by simp
      with False sp Nil have "c # cs = [] @ last (split_on sep (c # cs))" by simp
      then show ?thesis by blast
    next
      case (Cons a as)
      with False sp have "last (split_on sep (c # cs)) = last (split_on sep cs)"
        and "tl (split_on sep (c # cs)) \<noteq> []" by simp_all
      with q have "c # cs = (c # q) @ last (split_on sep (c # cs))" by simp
      with \<open>tl (split_on sep (c # cs)) \<noteq> []\<close> show ?thesis by blast
    qed
  qed
qed

lemma last_split_on_suffix: "\<exists>q. xs = q @ last (split_on sep xs)"
  using last_split_on_suffix_aux [of xs sep] by blast

lemma ascii_append [simp]: "ascii (xs @ ys) \<longleftrightarrow> ascii xs \<and> ascii ys"
  by (simp add: ascii_def)

lemma utf8_toString_ascii: "ascii bytes \<Longrightarrow> utf8_toString bytes = bytes"
  unfolding utf8_toString_def
  by (induction bytes) (simp_all add: ascii_def)

lemma byteLength_ascii: "ascii s \<Longrightarrow> byteLength s = length s"
  by (induction s) (simp_all add: ascii_def byteLength_def utf8_size_def)

lemma readSync_rest:
  "readSync (pre @ rest) (nat (int (length (pre @ rest)) - int (length pre))) (int (length pre))
   = Some rest"
  by (simp add: readSync_def Let_def)

text \<open>
  Single-byte content: from a state in which the offset stands at the start of a
  partial line without newline, the polls after the appends emit the non-empty complete
  lines and leave the offset at the start of the last partial line.
\<close>

lemma tail_appends_invariant:
  "LF \<notin> set lb \<Longrightarrow> ascii (lb @ concat as) \<Longrightarrow>
   tail_appends j p (pre @ lb) as
       \<lparr>watchers = [(j, \<lparr>logPath = p, offset = int (length pre)\<rparr>)], lineEvents = E\<rparr> =
     \<lparr>watchers = [(j, \<lparr>logPath = p,
                 offset = int (length (pre @ lb @ concat as)
                            - length (last (split_on LF (lb @ concat as))))\<rparr>)],
      lineEvents = E @ map (Pair j)
                 (filter (\<lambda>line. line \<noteq> []) (butlast (split_on LF (lb @ concat as))))\<rparr>"
proof (induction as arbitrary: pre lb E)
  case Nil
  then show ?case by (simp add: split_on_no_sep)
next
  case (Cons a as)
  let ?ls = "\<lparr>watchers = [(j, \<lparr>logPath = p, offset = int (length pre)\<rparr>)], lineEvents = E\<rparr>"
  show ?case
  proof (cases "lb @ a = []")
    case True
    then have "poll [p \<mapsto> (pre @ lb) @ a] j ?ls = ?ls"
      by (simp add: poll_def)
    with True Cons.IH [of lb pre E] Cons.prems show ?thesis by simp
  next
    case False
    let ?lines = "split_on LF (lb @ a)"
    let ?lp = "last ?lines"
    obtain q where q: "lb @ a = q @ ?lp"
      using last_split_on_suffix [of "lb @ a" LF] by blast
    have asc: "ascii (lb @ a)" using Cons.prems(2) by simp
    have ascp: "ascii ?lp" using asc by (subst (asm) q) simp
    have len: "length (pre @ lb @ a) - length ?lp = length (pre @ q)"
      using q by (metis add_diff_cancel_right' append.assoc length_append)
    have le: "length ?lp \<le> length (pre @ lb @ a)"
      using q by (metis append.assoc length_append le_add2)
    have rolled: "(if ?lp \<noteq> [] then int (length (pre @ lb @ a)) - int (byteLength ?lp)
                   else int (length (pre @ lb @ a))) = int (length (pre @ q))"
      using len le by (auto simp: byteLength_ascii [OF ascp])
    have rd: "readSync (pre @ lb @ a) (nat (int (length (pre @ lb @ a)) - int (length pre)))
                (int (length pre)) = Some (lb @ a)"
      by (rule readSync_rest)
    have gt: "\<not> int (length (pre @ lb @ a)) \<le> int (length pre)"
      using False by (cases lb; cases a; simp)
    have dec: "utf8_toString (lb @ a) = lb @ a"
      using asc by (rule utf8_toString_ascii)
    have p1: "poll [p \<mapsto> (pre @ lb) @ a] j ?ls =
       \<lparr>watchers = [(j, \<lparr>logPath = p, offset = int (length (pre @ q))\<rparr>)],
        lineEvents = E @ map (Pair j) (filter (\<lambda>line. line \<noteq> []) (butlast ?lines))\<rparr>"
      unfolding poll_def append_assoc
      by (simp only: LogStreamer.simps WatchState.simps map_of.simps fun_upd_same fst_conv snd_conv
            if_True option.case gt if_False rd dec Let_def rolled map_set.simps
            LogStreamer.update_convs WatchState.update_convs refl)
    have nl: "LF \<notin> set ?lp" by (rule last_split_on_no_sep)
    have asc2: "ascii (?lp @ concat as)"
      using Cons.prems(2) q by (metis ascii_append append.assoc concat.simps(2))
    have cont: "(pre @ lb) @ a = (pre @ q) @ ?lp" using q by simp
    have e1: "last (split_on LF (lb @ concat (a # as))) =
              last (split_on LF (?lp @ concat as))"
      using last_split_on_append [of LF "lb @ a" "concat as"] by simp
    have e2: "butlast (split_on LF (lb @ concat (a # as))) =
              butlast ?lines @ butlast (split_on LF (?lp @ concat as))"
      using butlast_split_on_append [of LF "lb @ a" "concat as"] by simp
    have e3: "length (pre @ lb @ concat (a # as)) = length ((pre @ q) @ ?lp @ concat as)"
      using q by (metis append.assoc concat.simps(2))
    have "tail_appends j p (pre @ lb) (a # as) ?ls =
          tail_appends j p ((pre @ q) @ ?lp) as
            \<lparr>watchers = [(j, \<lparr>logPath = p, offset = int (length (pre @ q))\<rparr>)],
             lineEvents = E @ map (Pair j) (filter (\<lambda>line. line \<noteq> []) (butlast ?lines))\<rparr>"
      using p1 cont by simp
    also have "\<dots> = \<lparr>watchers = [(j, \<lparr>logPath = p,
                 offset = int (length ((pre @ q) @ ?lp @ concat as)
                            - length (last (split_on LF (?lp @ concat as))))\<rparr>)],
           lineEvents = (E @ map (Pair j) (filter (\<lambda>line. line \<noteq> []) (butlast ?lines))) @ map (Pair j)
                 (filter (\<lambda>line. line \<noteq> []) (butlast (split_on LF (?lp @ concat as))))\<rparr>"
      by (rule Cons.IH [OF nl asc2])
    finally show ?thesis
      unfolding e1 e2 e3 by simp
  qed
qed

text \<open>
  For every sequence of appends of single-byte (ASCII) characters to a watched file,
  polled after each append from offset 0, the lines emitted are exactly the non-empty
  complete lines of the file, in order and once each, and the offset stands at the start
  of the trailing partial line. Empty lines are not emitted, because of the guard
  \<open>if (line)\<close> around \<open>emit\<close>.
\<close>

lemma tail_of_ascii_emits_nonempty_complete_lines:
  "ascii (concat appends) \<Longrightarrow>
   tail_appends jobId path [] appends (watch jobId path \<lparr>watchers = [], lineEvents = []\<rparr>) =
     \<lparr>watchers = [(jobId, \<lparr>logPath = path,
                 offset = int (length (concat appends) - length (trailing_line (concat appends)))\<rparr>)],
      lineEvents = map (Pair jobId)
                 (filter (\<lambda>line. line \<noteq> []) (terminated_lines (concat appends)))\<rparr>"
  using tail_appends_invariant [of "[]" appends jobId path "[]" "[]"]
  by (simp add: watch_def terminated_lines_def trailing_line_def)

text \<open>
  C6 does not hold of the code. The file receives the two lines \<open>ab\<close> and \<open>c\<close>, \<open>U+00E9\<close>,
  \<open>d\<close>, in UTF-8 the bytes \<open>61 62 0A 63 C3 A9 64 0A\<close>, in two appends that cut the two-byte
  character: \<open>61 62 0A 63 C3\<close>, then \<open>A9 64 0A\<close>. The first poll reads five bytes, decodes
  the partial line as \<open>c\<close>, \<open>U+FFFD\<close> and emits \<open>ab\<close>; \<open>Buffer.byteLength\<close> of the partial
  line is 4 (one byte for \<open>c\<close>, three for \<open>U+FFFD\<close>), where 2 bytes were read for it, so the
  offset is rolled back from 5 to 1, into the line \<open>ab\<close>. The second poll reads from the
  second byte and emits \<open>b\<close>, a fragment of a line already emitted, before the line
  \<open>c\<close>, \<open>U+00E9\<close>, \<open>d\<close>.
\<close>

theorem poll_emits_fragment_after_cut_character:
  "terminated_lines (utf8_toString (concat [[0x61, 0x62, 0x0A, 0x63, 0xC3], [0xA9, 0x64, 0x0A]]))
     = [[0x61, 0x62], [0x63, 0xE9, 0x64]]
   \<and> tail_appends ''job'' ''log'' [] [[0x61, 0x62, 0x0A, 0x63, 0xC3]]
         (watch ''job'' ''log'' \<lparr>watchers = [], lineEvents = []\<rparr>)
       = \<lparr>watchers = [(''job'', \<lparr>logPath = ''log'', offset = 1\<rparr>)],
          lineEvents = [(''job'', [0x61, 0x62])]\<rparr>
   \<and> tail_appends ''job'' ''log'' [] [[0x61, 0x62, 0x0A, 0x63, 0xC3], [0xA9, 0x64, 0x0A]]
         (watch ''job'' ''log'' \<lparr>watchers = [], lineEvents = []\<rparr>)
       = \<lparr>watchers = [(''job'', \<lparr>logPath = ''log'', offset = 8\<rparr>)],
          lineEvents = [(''job'', [0x61, 0x62]), (''job'', [0x62]), (''job'', [0x63, 0xE9, 0x64])]\<rparr>"
  by (simp add: terminated_lines_def watch_def poll_def readSync_def utf8_toString_def
        byteLength_def utf8_size_def LF_def Let_def)

section \<open>Properties of the template engine\<close>

declare renderConditionalBlock.simps [simp del]
declare replaceAll_from.simps [simp del]

lemma replaceAll_from_absent:
  "find_sub token s = None \<Longrightarrow> replaceAll_from token val bef s = s"
proof (induction s arbitrary: bef)
  case Nil
  show ?case by (simp add: replaceAll_from.simps)
next
  case (Cons c cs)
  from Cons.prems have ne: "take (length token) (c # cs) \<noteq> token"
    and rest: "find_sub token cs = None"
    by (auto split: if_splits)
  from ne Cons.IH [OF rest] show ?case
    by (simp add: replaceAll_from.simps)
qed

lemma fold_replaceAll_absent:
  "list_all (\<lambda>m. find_sub m s = None) (map fst subs) \<Longrightarrow>
   fold (\<lambda>(token, val) result. replaceAll token val result) subs s = s"
  by (induction subs) (auto simp: replaceAll_def replaceAll_from_absent)

lemma renderConditionalBlock_absent:
  "find_sub (''{{#'' @ tag @ ''}}'') template = None \<Longrightarrow>
   renderConditionalBlock template tag incl = template"
  by (subst renderConditionalBlock.simps) simp

lemma dropWhile_fixed: "xs = [] \<or> \<not> P (hd xs) \<Longrightarrow> dropWhile P xs = xs"
  by (cases xs) auto

lemma dropWhile_rev_tail:
  assumes x: "x = [] \<or> \<not> P (hd x)"
  shows "dropWhile P (rev (dropWhile P (rev x))) = rev (dropWhile P (rev x))"
proof (cases "dropWhile P (rev x) = []")
  case True
  show ?thesis unfolding True by simp
next
  case False
  let ?n = "length (takeWhile P (rev x))"
  have u: "dropWhile P (rev x) = drop ?n (rev x)" by (rule dropWhile_eq_drop)
  then have ru: "rev (dropWhile P (rev x)) = take (length x - ?n) x"
    by (simp add: rev_drop)
  from False have "drop ?n (rev x) \<noteq> []" unfolding u .
  then have pos: "0 < length x - ?n" by simp
  then have "x \<noteq> []" by auto
  with x have "\<not> P (hd x)" by blast
  moreover from pos have "hd (take (length x - ?n) x) = hd x"
    by (simp add: hd_take)
  ultimately show ?thesis
    unfolding ru by (intro dropWhile_fixed) simp
qed

lemma trim_idem: "trim (trim s) = trim s"
proof -
  have x: "dropWhile is_space s = [] \<or> \<not> is_space (hd (dropWhile is_space s))"
    using hd_dropWhile [of is_space s] by blast
  have "dropWhile is_space (trim s) = trim s"
    unfolding trim_def
    by (rule dropWhile_rev_tail [of "dropWhile is_space s" is_space, OF x])
  then show ?thesis by (simp add: trim_def)
qed

text \<open>
  C9, as the specification states it, at a context with no conditional section
  (\<open>contextFiles\<close> and \<open>attachmentDescriptions\<close> unset) whose project name is the text of
  another token: the template \<open>{{PROJECT_NAME}}\<close> renders to \<open>{{TICKET_TITLE}}\<close>, and
  rendering that output again with the same context gives \<open>T\<close>.
\<close>

theorem renderTemplate_idempotent_counterexample:
  "renderTemplate ''{{PROJECT_NAME}}'' ctx0 = ''{{TICKET_TITLE}}''
   \<and> renderTemplate (renderTemplate ''{{PROJECT_NAME}}'' ctx0) ctx0 = ''T''"
  by code_simp

text \<open>
  C9, amended: rendering is idempotent whenever the first rendering's output contains
  none of the eight tokens and neither opening tag of a conditional block: rendering
  that output again with the same context (conditional blocks, substitutions, trimming)
  gives the same string.
\<close>

theorem renderTemplate_idempotent_when_marker_free:
  "marker_free (renderTemplate template ctx) \<Longrightarrow>
   renderTemplate (renderTemplate template ctx) ctx = renderTemplate template ctx"
proof -
  assume mf: "marker_free (renderTemplate template ctx)"
  let ?out = "renderTemplate template ctx"
  have c1: "renderConditionalBlock ?out ''CONTEXT_FILES'' (truthy (contextFiles ctx)) = ?out"
    using mf by (intro renderConditionalBlock_absent) (simp add: marker_free_def markers_def)
  have c2: "renderConditionalBlock ?out ''ATTACHMENTS'' (truthy (attachmentDescriptions ctx)) = ?out"
    using mf by (intro renderConditionalBlock_absent) (simp add: marker_free_def markers_def)
  have "list_all (\<lambda>m. find_sub m ?out = None) (map fst (substitutions ctx))"
    using mf by (simp add: marker_free_def markers_def substitutions_def)
  then have c3: "fold (\<lambda>(token, val) result. replaceAll token val result)
                   (substitutions ctx) ?out = ?out"
    by (rule fold_replaceAll_absent)
  obtain r where out: "?out = trim r"
    by (simp add: renderTemplate_def Let_def)
  have "renderTemplate ?out ctx = trim ?out"
    by (subst (1) renderTemplate_def) (simp only: Let_def c1 c2 c3)
  also have "\<dots> = ?out"
    unfolding out by (rule trim_idem)
  finally show ?thesis .
qed

theorem renderTemplate_idempotent_when_marker_free_witness:
  "marker_free (renderTemplate
       ''# {{TICKET_TITLE}} in {{PROJECT_NAME}}{{#CONTEXT_FILES}}: {{CONTEXT_FILES}}{{/CONTEXT_FILES}} '' ctx1)
   \<and> renderTemplate (renderTemplate
       ''# {{TICKET_TITLE}} in {{PROJECT_NAME}}{{#CONTEXT_FILES}}: {{CONTEXT_FILES}}{{/CONTEXT_FILES}} '' ctx1) ctx1
     = ''# Dark mode in shop: a.ts''"
proof -
  have r: "renderTemplate
       ''# {{TICKET_TITLE}} in {{PROJECT_NAME}}{{#CONTEXT_FILES}}: {{CONTEXT_FILES}}{{/CONTEXT_FILES}} '' ctx1
       = ''# Dark mode in shop: a.ts''"
    by code_simp
  have h: "marker_free ''# Dark mode in shop: a.ts''"
    by code_simp
  from h have h': "marker_free (renderTemplate
       ''# {{TICKET_TITLE}} in {{PROJECT_NAME}}{{#CONTEXT_FILES}}: {{CONTEXT_FILES}}{{/CONTEXT_FILES}} '' ctx1)"
    by (simp only: r)
  from renderTemplate_idempotent_when_marker_free [OF h'] h' show ?thesis
    by (simp only: r simp_thms)
qed

section \<open>The orchestrator: relations that hold along every operation\<close>

text \<open>
  The scheduler's loop preserves a reflexive and transitive relation that holds when a
  queue entry is dropped and when a worker is started.
\<close>

lemma tick_loop_rel:
  assumes rfl: "\<And>s. R s s"
    and trans: "\<And>a b c. R a b \<Longrightarrow> R b c \<Longrightarrow> R a c"
    and drop: "\<And>s q. R s (s\<lparr>queue := q\<rparr>)"
    and start: "\<And>s q aw job ticket project.
                  R s (runWorker_start job ticket project (s\<lparr>queue := q, activeWorkers := aw\<rparr>))"
  shows "R s (tick_loop cfg i s)"
proof (induction cfg i s rule: tick_loop.induct)
  case (1 cfg i s)
  show ?case
  proof (cases "i < length (queue s) \<and> \<not> maxWorkers cfg \<le> int (length (activeWorkers s))")
    case False
    then have "tick_loop cfg i s = s"
      by (subst tick_loop.simps) auto
    then show ?thesis by (simp add: rfl)
  next
    case True
    then have lt: "i < length (queue s)"
      and cap: "\<not> maxWorkers cfg \<le> int (length (activeWorkers s))"
      by simp_all
    show ?thesis
    proof (cases "tickets_findById (j_ticketId (queue s ! i)) s")
      case None
      have eq: "tick_loop cfg i s = tick_loop cfg i (s\<lparr>queue := remove_at i (queue s)\<rparr>)"
        using lt cap None by (subst tick_loop.simps) (simp add: Let_def)
      show ?thesis
        unfolding eq
        by (rule trans [OF drop [of s "remove_at i (queue s)"] 1(1) [OF lt cap refl None]])
    next
      case (Some ticket)
      note tk = Some
      show ?thesis
      proof (cases "projects_findById (t_projectId ticket) s")
        case None
        have eq: "tick_loop cfg i s = tick_loop cfg i (s\<lparr>queue := remove_at i (queue s)\<rparr>)"
          using lt cap tk None by (subst tick_loop.simps) (simp add: Let_def)
        show ?thesis
          unfolding eq
          by (rule trans [OF drop [of s "remove_at i (queue s)"] 1(2) [OF lt cap refl tk None]])
      next
        case (Some project)
        note pr = Some
        show ?thesis
        proof (cases "s_maxParallelJobs (p_settings project)
                          \<le> int (length (filter (\<lambda>e. p_id (w_project (snd e)) = p_id project)
                                           (activeWorkers s)))")
          case True
          have "tick_loop cfg i s = tick_loop cfg (Suc i) s"
            using lt cap tk pr True by (subst tick_loop.simps) (simp add: Let_def)
          with 1(3) [OF lt cap refl tk pr True] show ?thesis by simp
        next
          case False
          let ?s1 = "runWorker_start (queue s ! i) ticket project
                       (s\<lparr>queue := remove_at i (queue s),
                          activeWorkers :=
                            map_set (t_id ticket)
                              \<lparr>w_job = queue s ! i, w_ticket = ticket, w_project = project\<rparr>
                              (activeWorkers s)\<rparr>)"
          have eq: "tick_loop cfg i s = tick_loop cfg i ?s1"
            using lt cap tk pr False by (subst tick_loop.simps) (simp add: Let_def)
          have r1: "R s ?s1" by (rule start)
          have r2: "R ?s1 (tick_loop cfg i ?s1)"
            by (rule 1(4) [OF lt cap refl tk pr False])
          show ?thesis unfolding eq by (rule trans [OF r1 r2])
        qed
      qed
    qed
  qed
qed

lemma tick_rel:
  assumes rfl: "\<And>s. R s s"
    and trans: "\<And>a b c. R a b \<Longrightarrow> R b c \<Longrightarrow> R a c"
    and drop: "\<And>s q. R s (s\<lparr>queue := q\<rparr>)"
    and start: "\<And>s q aw job ticket project.
                  R s (runWorker_start job ticket project (s\<lparr>queue := q, activeWorkers := aw\<rparr>))"
  shows "R s (tick cfg s)"
  unfolding tick_def using tick_loop_rel [of R s cfg 0, OF rfl trans drop start] rfl
  by simp


named_theorems store_defs

lemmas [store_defs] =
  tickets_updateStatus_def tickets_updatePlan_def tickets_updateBranch_def
  tickets_setMetadata_def jobs_updateStatus_def jobs_incrementRetry_def emit_def
  runner_cancel_def

lemma pc_refl: "core_closed R \<Longrightarrow> R s s"
  by (simp add: core_closed_def)

lemma pc_trans:
  assumes "core_closed R" and "R a b" and "R b c"
  shows "R a c"
proof -
  from assms(1) have "\<forall>a b c. R a b \<longrightarrow> R b c \<longrightarrow> R a c"
    by (simp add: core_closed_def)
  with assms(2,3) show ?thesis by blast
qed

lemma pc_queue: "core_closed R \<Longrightarrow> R s (s\<lparr>queue := q\<rparr>)"
  by (simp add: core_closed_def)

lemma pc_workers: "core_closed R \<Longrightarrow> R s (s\<lparr>activeWorkers := aw\<rparr>)"
  by (simp add: core_closed_def)

lemma pc_tasks: "core_closed R \<Longrightarrow> R s (s\<lparr>tasks := ts\<rparr>)"
  by (simp add: core_closed_def)

lemma pc_streamer: "core_closed R \<Longrightarrow> R s (s\<lparr>logStreamer := l\<rparr>)"
  by (simp add: core_closed_def)

lemma pc_calls: "core_closed R \<Longrightarrow> R s (s\<lparr>runnerCalls := c\<rparr>)"
  by (simp add: core_closed_def)

lemma pc_runner_cancel: "prim_closed R \<Longrightarrow> R s (runner_cancel tid s)"
  by (simp add: prim_closed_def)

lemma pc_job_status: "core_closed R \<Longrightarrow> R s (jobs_updateStatus jid st code s)"
  by (simp add: core_closed_def)

lemma pc_job_retry: "core_closed R \<Longrightarrow> R s (jobs_incrementRetry jid s)"
  by (simp add: core_closed_def)

lemma pc_plan: "prim_closed R \<Longrightarrow> R s (tickets_updatePlan tid txt s)"
  by (simp add: prim_closed_def)

lemma pc_branch: "prim_closed R \<Longrightarrow> R s (tickets_updateBranch tid b p s)"
  by (simp add: prim_closed_def)

lemma pc_metadata: "prim_closed R \<Longrightarrow> R s (tickets_setMetadata tid md s)"
  by (simp add: prim_closed_def)

lemma pc_status:
  "core_closed R \<Longrightarrow> R s (emit (TicketStatusEvent tid st) (tickets_updateStatus tid st err s))"
  by (simp add: core_closed_def)

lemma pc_completed: "core_closed R \<Longrightarrow> R s (emit (JobCompleted tid) s)"
  by (simp add: core_closed_def)

lemma pc_failed: "core_closed R \<Longrightarrow> R s (emit (JobFailed tid msg) s)"
  by (simp add: core_closed_def)

lemma prim_core: "prim_closed R \<Longrightarrow> core_closed R"
  by (simp add: prim_closed_def)

lemma cc_create:
  assumes "create_closed R" and "jobs_create tid phase path s = Inr (job, s')"
    and "phase \<noteq> phase_fix"
  shows "R s s'"
  using assms unfolding create_closed_def by blast

lemma runWorker_start_closed:
  assumes cl: "core_closed R"
  shows "R s (runWorker_start job ticket project (s\<lparr>queue := q, activeWorkers := aw\<rparr>))"
proof -
  note [trans] = pc_trans [OF cl]
  let ?s0 = "s\<lparr>queue := q, activeWorkers := aw\<rparr>"
  let ?s1 = "jobs_updateStatus (j_id job) running None ?s0"
  let ?s2 = "if j_phase job = phase_plan
             then ?s1\<lparr>logStreamer := watch (j_id job) (j_logPath job) (logStreamer ?s1)\<rparr> else ?s1"
  have "R s (s\<lparr>queue := q\<rparr>)" by (rule pc_queue [OF cl])
  also have "R (s\<lparr>queue := q\<rparr>) ?s0" by (rule pc_workers [OF cl])
  also have "R ?s0 ?s1" by (rule pc_job_status [OF cl])
  also have "R ?s1 ?s2" by (simp add: pc_refl [OF cl] pc_streamer [OF cl])
  also have "R ?s2 (?s2\<lparr>tasks := tasks ?s2 @ [\<lparr>w_job = job, w_ticket = ticket, w_project = project\<rparr>]\<rparr>)"
    by (rule pc_tasks [OF cl])
  finally show ?thesis by (simp add: runWorker_start_def Let_def)
qed

lemma tick_closed:
  assumes cl: "core_closed R"
  shows "R s (tick cfg s)"
  by (rule tick_rel [of R, OF pc_refl [OF cl] pc_trans [OF cl]
        pc_queue [OF cl] runWorker_start_closed [OF cl]])

lemma cancel_closed:
  assumes pr: "prim_closed R"
  shows "R s (cancel ticketId s)"
proof -
  note [trans] = pc_trans [OF prim_core [OF pr]]
  let ?s1 = "case find_index (\<lambda>j. j_ticketId j = ticketId) (queue s) of
               None \<Rightarrow> s
             | Some queueIdx \<Rightarrow>
                 jobs_updateStatus (j_id (queue s ! queueIdx)) job_failed (Some (- 1))
                   (s\<lparr>queue := remove_at queueIdx (queue s)\<rparr>)"
  let ?s2 = "runner_cancel ticketId ?s1"
  let ?s3 = "case map_of (activeWorkers ?s2) ticketId of
               None \<Rightarrow> ?s2
             | Some worker \<Rightarrow>
                 jobs_updateStatus (j_id (w_job worker)) job_failed (Some (- 1))
                   (?s2\<lparr>activeWorkers := map_delete ticketId (activeWorkers ?s2),
                        logStreamer := stop (j_id (w_job worker)) (logStreamer ?s2)\<rparr>)"
  have "R s ?s1"
  proof (cases "find_index (\<lambda>j. j_ticketId j = ticketId) (queue s)")
    case None
    then show ?thesis by (simp add: pc_refl [OF prim_core [OF pr]])
  next
    case (Some i)
    have "R s (s\<lparr>queue := remove_at i (queue s)\<rparr>)" by (rule pc_queue [OF prim_core [OF pr]])
    also have "R \<dots> (jobs_updateStatus (j_id (queue s ! i)) job_failed (Some (- 1))
                   (s\<lparr>queue := remove_at i (queue s)\<rparr>))" by (rule pc_job_status [OF prim_core [OF pr]])
    finally show ?thesis by (simp only: Some option.case)
  qed
  also have "R ?s1 ?s2" by (rule pc_runner_cancel [OF pr])
  also have "R ?s2 ?s3"
  proof (cases "map_of (activeWorkers ?s2) ticketId")
    case None
    then show ?thesis by (simp only: option.case pc_refl [OF prim_core [OF pr]])
  next
    case (Some worker)
    have "R ?s2 (?s2\<lparr>activeWorkers := map_delete ticketId (activeWorkers ?s2)\<rparr>)"
      by (rule pc_workers [OF prim_core [OF pr]])
    also have "R \<dots> (?s2\<lparr>activeWorkers := map_delete ticketId (activeWorkers ?s2),
                          logStreamer := stop (j_id (w_job worker)) (logStreamer ?s2)\<rparr>)"
      by (rule pc_streamer [OF prim_core [OF pr]])
    also have "R \<dots> (jobs_updateStatus (j_id (w_job worker)) job_failed (Some (- 1))
                   (?s2\<lparr>activeWorkers := map_delete ticketId (activeWorkers ?s2),
                        logStreamer := stop (j_id (w_job worker)) (logStreamer ?s2)\<rparr>))"
      by (rule pc_job_status [OF prim_core [OF pr]])
    finally show ?thesis by (simp only: Some option.case)
  qed
  also have "R ?s3 (emit (TicketStatusEvent ticketId failed)
                     (tickets_updateStatus ticketId failed (Some ''Cancelled by user.'') ?s3))"
    by (rule pc_status [OF prim_core [OF pr]])
  finally show ?thesis by (simp only: cancel_def Let_def)
qed

lemma finishWorker_closed:
  assumes cl: "core_closed R"
  shows "R s (snd (finishWorker cfg job ticket project succeeded errorMessage s))"
proof -
  note [trans] = pc_trans [OF cl]
  let ?s1 = "s\<lparr>logStreamer := stop (j_id job) (logStreamer s),
               activeWorkers := map_delete (t_id ticket) (activeWorkers s)\<rparr>"
  have 1: "R s ?s1"
    by (rule pc_trans [OF cl pc_streamer [OF cl] pc_workers [OF cl]])
  show ?thesis
  proof (cases succeeded)
    case True
    let ?s2 = "jobs_updateStatus (j_id job) job_completed (Some 0) ?s1"
    let ?s4 = "emit (TicketStatusEvent (t_id ticket) completed)
                 (tickets_updateStatus (t_id ticket) completed None ?s2)"
    let ?s5 = "emit (JobCompleted (t_id ticket)) ?s4"
    note 1
    also have "R ?s1 ?s2" by (rule pc_job_status [OF cl])
    also have "R ?s2 ?s4" by (rule pc_status [OF cl])
    also have "R ?s4 ?s5" by (rule pc_completed [OF cl])
    finally have 5: "R s ?s5" .
    have 6: "R s (tick cfg ?s5)" by (rule pc_trans [OF cl 5 tick_closed [OF cl]])
    from 5 6 True show ?thesis
      by (simp add: finishWorker_def Let_def split: option.splits)
  next
    case False
    let ?msg = "case errorMessage of Some m \<Rightarrow> m | None \<Rightarrow> ''Unknown error''"
    let ?s2 = "jobs_updateStatus (j_id job) job_failed (Some 1) ?s1"
    let ?s4 = "emit (TicketStatusEvent (t_id ticket) failed)
                 (tickets_updateStatus (t_id ticket) failed (Some ?msg) ?s2)"
    let ?s5 = "emit (JobFailed (t_id ticket) ?msg) ?s4"
    note 1
    also have "R ?s1 ?s2" by (rule pc_job_status [OF cl])
    also have "R ?s2 ?s4" by (rule pc_status [OF cl])
    also have "R ?s4 ?s5" by (rule pc_failed [OF cl])
    finally have 5: "R s ?s5" .
    have 6: "R s (tick cfg ?s5)" by (rule pc_trans [OF cl 5 tick_closed [OF cl]])
    from 5 6 False show ?thesis
      by (simp add: finishWorker_def Let_def split: option.splits)
  qed
qed

lemma finishPlan_closed:
  assumes cl: "core_closed R"
  shows "R s (snd (finishPlan cfg job ticket project s))"
proof -
  let ?s1 = "jobs_updateStatus (j_id job) job_completed (Some 0) s"
  let ?s2 = "?s1\<lparr>activeWorkers := map_delete (t_id ticket) (activeWorkers ?s1)\<rparr>"
  have 2: "R s ?s2" by (rule pc_trans [OF cl pc_job_status [OF cl] pc_workers [OF cl]])
  have 3: "R s (tick cfg ?s2)" by (rule pc_trans [OF cl 2 tick_closed [OF cl]])
  from 2 3 show ?thesis
    by (simp add: finishPlan_def Let_def split: option.splits)
qed

lemma enqueue_closed:
  assumes cl: "core_closed R" and cc: "create_closed R"
  shows "R s (snd (enqueuePlan cfg ticket project s))"
    and "R s (snd (enqueueExecute cfg ticket project s))"
proof -
  note [trans] = pc_trans [OF cl]
  have gen: "R s (snd (case jobs_create (t_id ticket) phase path s of
                   Inl err \<Rightarrow> (Inl err, s)
                 | Inr (job, s1) \<Rightarrow>
                     (let s2 = tickets_updateStatus (t_id ticket) st None s1;
                          s3 = emit (TicketStatusEvent (t_id ticket) st) s2;
                          s4 = s3\<lparr>queue := queue s3 @ [job]\<rparr>
                      in case analytics_record (t_id ticket) (p_id project) s4 of
                           Some err \<Rightarrow> (Inl err, s4)
                         | None \<Rightarrow> (Inr job, tick cfg s4))))"
    if ph: "phase \<noteq> phase_fix" for phase path st
  proof (cases "jobs_create (t_id ticket) phase path s")
    case (Inl err)
    then show ?thesis by (simp add: pc_refl [OF cl])
  next
    case (Inr r)
    obtain job s1 where r: "r = (job, s1)" by (cases r)
    let ?s3 = "emit (TicketStatusEvent (t_id ticket) st) (tickets_updateStatus (t_id ticket) st None s1)"
    let ?s4 = "?s3\<lparr>queue := queue ?s3 @ [job]\<rparr>"
    have "R s s1" using cc_create [OF cc] Inr r ph by blast
    also have "R s1 ?s3" by (rule pc_status [OF cl])
    also have "R ?s3 ?s4" by (rule pc_queue [OF cl])
    finally have 4: "R s ?s4" .
    have 5: "R s (tick cfg ?s4)" by (rule pc_trans [OF cl 4 tick_closed [OF cl]])
    from 4 5 Inr r show ?thesis
      by (simp add: Let_def split: option.splits)
  qed
  show "R s (snd (enqueuePlan cfg ticket project s))"
    unfolding enqueuePlan_def by (rule gen) simp
  show "R s (snd (enqueueExecute cfg ticket project s))"
    unfolding enqueueExecute_def by (rule gen) simp
qed


lemma runPlanPhase_closed:
  assumes pr: "prim_closed R" and cc: "create_closed R"
  shows "R s (snd (runPlanPhase cfg env job ticket project s))"
proof (cases "pe_renderError env")
  case (Some err)
  then show ?thesis by (simp add: runPlanPhase_def pc_refl [OF prim_core [OF pr]])
next
  case None
  note [trans] = pc_trans [OF prim_core [OF pr]]
  let ?s1 = "s\<lparr>runnerCalls := runnerCalls s @ [t_id ticket]\<rparr>"
  have 1: "R s ?s1" by (rule pc_calls [OF prim_core [OF pr]])
  show ?thesis
  proof (cases "pe_agent env")
    case (Inl err)
    with None 1 show ?thesis by (simp add: runPlanPhase_def Let_def)
  next
    case (Inr code)
    let ?s2 = "?s1\<lparr>logStreamer := stop (j_id job) (logStreamer ?s1)\<rparr>"
    have 2: "R s ?s2" by (rule pc_trans [OF prim_core [OF pr] 1 pc_streamer [OF prim_core [OF pr]]])
    show ?thesis
    proof (cases "code \<noteq> 0")
      case True
      with None Inr 2 show ?thesis by (simp add: runPlanPhase_def Let_def)
    next
      case False
      let ?s3 = "tickets_updatePlan (t_id ticket) (pe_plan env) ?s2"
      have 3: "R s ?s3" by (rule pc_trans [OF prim_core [OF pr] 2 pc_plan [OF pr]])
      show ?thesis
      proof (cases "s_autoExecuteAfterPlan (p_settings project)")
        case True
        show ?thesis
        proof (cases "tickets_findById (t_id ticket) ?s3")
          case None
          with \<open>pe_renderError env = None\<close> Inr False True 3 show ?thesis
            by (simp add: runPlanPhase_def Let_def)
        next
          case (Some refreshed)
          obtain r s4 where e: "enqueueExecute cfg refreshed project ?s3 = (r, s4)"
            by (cases "enqueueExecute cfg refreshed project ?s3")
          have "R ?s3 s4"
            using enqueue_closed(2) [OF prim_core [OF pr] cc, of ?s3 cfg refreshed project] e by simp
          with 3 have 4: "R s s4" by (rule pc_trans [OF prim_core [OF pr]])
          have 5: "R s (snd (finishPlan cfg job ticket project s4))"
            by (rule pc_trans [OF prim_core [OF pr] 4 finishPlan_closed [OF prim_core [OF pr]]])
          from 4 5 \<open>pe_renderError env = None\<close> Inr False True Some e show ?thesis
            by (cases r) (simp_all add: runPlanPhase_def Let_def)
        qed
      next
        case na: False
        let ?s5 = "emit (TicketStatusEvent (t_id ticket) plan_review)
                     (tickets_updateStatus (t_id ticket) plan_review None ?s3)"
        have 5: "R s ?s5" by (rule pc_trans [OF prim_core [OF pr] 3 pc_status [OF prim_core [OF pr]]])
        have "R s (snd (finishPlan cfg job ticket project ?s5))"
          by (rule pc_trans [OF prim_core [OF pr] 5 finishPlan_closed [OF prim_core [OF pr]]])
        with None Inr False na show ?thesis
          by (simp add: runPlanPhase_def Let_def)
      qed
    qed
  qed
qed

lemma retryLoop_closed:
  assumes cl: "core_closed R"
  shows "R s (snd (retryLoop cfg env hasTest job ticket project retryCount s))"
proof (induction cfg env hasTest job ticket project retryCount s rule: retryLoop.induct)
  case (1 cfg env hasTest job ticket project retryCount s)
  let ?s1 = "s\<lparr>runnerCalls := runnerCalls s @ [t_id ticket]\<rparr>"
  let ?s3 = "emit (TicketStatusEvent (t_id ticket) testing)
               (tickets_updateStatus (t_id ticket) testing None ?s1)"
  let ?s4 = "jobs_incrementRetry (j_id job) ?s3"
  have 1: "R s ?s1" by (rule pc_calls [OF cl])
  have 3: "R s ?s3" by (rule pc_trans [OF cl 1 pc_status [OF cl]])
  have 4: "R s ?s4" by (rule pc_trans [OF cl 3 pc_job_retry [OF cl]])
  show ?case
  proof (cases "int retryCount \<le> maxRetries cfg \<and> ee_agent env retryCount = Inr 0 \<and> hasTest
                \<and> fst (ee_test env retryCount) \<noteq> 0
                \<and> analytics_record (t_id ticket) (p_id project) ?s4 = None
                \<and> \<not> maxRetries cfg < int (Suc retryCount)")
    case True
    then have c: "int retryCount \<le> maxRetries cfg" "ee_agent env retryCount = Inr 0" hasTest
      "fst (ee_test env retryCount) \<noteq> 0"
      "analytics_record (t_id ticket) (p_id project) ?s4 = None"
      "\<not> maxRetries cfg < int (Suc retryCount)" by simp_all
    have ih: "R ?s4 (snd (retryLoop cfg env hasTest job ticket project (Suc retryCount) ?s4))"
      by (rule "1.IH" [OF c(1) refl c(2) _ c(3) refl refl c(4) refl c(5) c(6)]) simp
    have eq: "retryLoop cfg env hasTest job ticket project retryCount s
              = retryLoop cfg env hasTest job ticket project (Suc retryCount) ?s4"
      using c by (subst retryLoop.simps) (simp add: Let_def)
    show ?thesis unfolding eq by (rule pc_trans [OF cl 4 ih])
  next
    case False
    then show ?thesis
      using 1 3 4 pc_refl [OF cl, of s]
      by (subst retryLoop.simps) (auto simp: Let_def split: sum.splits option.splits)
  qed
qed


lemma runExecutePhase_after_branch:
  assumes cl: "core_closed R"
    and md: "\<And>s tid m. R s (tickets_setMetadata tid m s)"
    and git: "ee_gitVersionError env = None"
    and wt: "fst (createWorktree join (p_worktreeRoot project) (t_id ticket)
                    (slugify (t_title ticket)) (p_defaultBranch project) (branchPrefix cfg) repo)
             = Inr path"
  shows "R (tickets_updateBranch (t_id ticket)
              (branchPrefix cfg @ ''ticket-'' @ t_id ticket @ ''-'' @ slugify (t_title ticket))
              path s)
           (snd (snd (runExecutePhase cfg join env repo job ticket project s)))"
proof -
  let ?slug = "slugify (t_title ticket)"
  obtain repo1 where cw: "createWorktree join (p_worktreeRoot project) (t_id ticket) ?slug
                  (p_defaultBranch project) (branchPrefix cfg) repo = (Inr path, repo1)"
    using wt by (cases "createWorktree join (p_worktreeRoot project) (t_id ticket) ?slug
                  (p_defaultBranch project) (branchPrefix cfg) repo") simp
  note [trans] = pc_trans [OF cl]
  let ?branch = "branchPrefix cfg @ ''ticket-'' @ t_id ticket @ ''-'' @ ?slug"
  let ?s1 = "tickets_updateBranch (t_id ticket) ?branch path s"
  let ?s3 = "emit (TicketStatusEvent (t_id ticket) in_progress)
               (tickets_updateStatus (t_id ticket) in_progress None ?s1)"
  let ?s4 = "?s3\<lparr>logStreamer := watch (j_id job) (j_logPath job) (logStreamer ?s3)\<rparr>"
  let ?testCmd = "case s_testCommand (p_settings project) of
                    Some c \<Rightarrow> Some c | None \<Rightarrow> ee_stackTestCommand env"
  obtain lr s5 where rl: "retryLoop cfg env (truthy ?testCmd) job ticket project 0 ?s4 = (lr, s5)"
    by (cases "retryLoop cfg env (truthy ?testCmd) job ticket project 0 ?s4")
  have "R ?s1 ?s3" by (rule pc_status [OF cl])
  also have "R ?s3 ?s4" by (rule pc_streamer [OF cl])
  also have "R ?s4 s5"
    using retryLoop_closed [OF cl, of ?s4 cfg env "truthy ?testCmd" job ticket project 0] rl
    by simp
  finally have 5: "R ?s1 s5" .
  show ?thesis
  proof (cases lr)
    case (Inl err)
    with git cw rl 5 show ?thesis
      by (simp add: runExecutePhase_def Let_def)
  next
    case ok: (Inr retryCount)
    let ?s6 = "s5\<lparr>logStreamer := stop (j_id job) (logStreamer s5)\<rparr>"
    let ?s7 = "case ee_changeSummary env of
                 Inl err \<Rightarrow> ?s6
               | Inr files \<Rightarrow>
                   tickets_setMetadata (t_id ticket)
                     \<lparr>m_filesChanged = files, m_testsPassed = truthy ?testCmd,
                      m_retryCount = retryCount\<rparr> ?s6"
    have 6: "R ?s1 ?s6" by (rule pc_trans [OF cl 5 pc_streamer [OF cl]])
    have "R ?s6 ?s7"
      by (cases "ee_changeSummary env") (simp_all add: pc_refl [OF cl] md)
    with 6 have 7: "R ?s1 ?s7" by (rule pc_trans [OF cl])
    obtain thrown s8 where fw: "finishWorker cfg job ticket project True None ?s7 = (thrown, s8)"
      by (cases "finishWorker cfg job ticket project True None ?s7")
    have "R ?s1 (snd (finishWorker cfg job ticket project True None ?s7))"
      by (rule pc_trans [OF cl 7 finishWorker_closed [OF cl]])
    then have "R ?s1 s8" by (simp only: fw snd_conv)
    with git cw rl ok fw show ?thesis
      by (simp add: runExecutePhase_def Let_def)
  qed
qed

lemma runExecutePhase_closed:
  assumes pr: "prim_closed R"
  shows "R s (snd (snd (runExecutePhase cfg join env repo job ticket project s)))"
proof (cases "ee_gitVersionError env")
  case (Some err)
  then show ?thesis by (simp add: runExecutePhase_def pc_refl [OF prim_core [OF pr]])
next
  case None
  let ?slug = "slugify (t_title ticket)"
  obtain res repo1 where cw: "createWorktree join (p_worktreeRoot project) (t_id ticket) ?slug
                  (p_defaultBranch project) (branchPrefix cfg) repo = (res, repo1)"
    by (cases "createWorktree join (p_worktreeRoot project) (t_id ticket) ?slug
                  (p_defaultBranch project) (branchPrefix cfg) repo")
  show ?thesis
  proof (cases res)
    case (Inl err)
    with None cw show ?thesis
      by (simp add: runExecutePhase_def Let_def pc_refl [OF prim_core [OF pr]])
  next
    case (Inr path)
    with cw have wt: "fst (createWorktree join (p_worktreeRoot project) (t_id ticket) ?slug
                  (p_defaultBranch project) (branchPrefix cfg) repo) = Inr path" by simp
    show ?thesis
      by (rule pc_trans [OF prim_core [OF pr] pc_branch [OF pr]
            runExecutePhase_after_branch [OF prim_core [OF pr] pc_metadata [OF pr] None wt]])
  qed
qed

lemma runWorker_rest_execute_closed:
  assumes pr: "prim_closed R" and ph: "j_phase job \<noteq> phase_plan"
  shows "R s (runWorker_rest cfg join penv eenv repo job ticket project s)"
proof -
  obtain thrown repo' s' where e: "runExecutePhase cfg join eenv repo job ticket project s = (thrown, repo', s')"
    by (cases "runExecutePhase cfg join eenv repo job ticket project s") auto
  have 1: "R s s'"
    using runExecutePhase_closed [OF pr, of s cfg join eenv repo job ticket project] e by simp
  show ?thesis
  proof (cases thrown)
    case None
    with ph e 1 show ?thesis by (simp add: runWorker_rest_def Let_def)
  next
    case (Some message)
    have "R s (snd (finishWorker cfg job ticket project False (Some message) s'))"
      by (rule pc_trans [OF prim_core [OF pr] 1 finishWorker_closed [OF prim_core [OF pr]]])
    with ph e Some show ?thesis by (simp add: runWorker_rest_def Let_def)
  qed
qed

lemma runWorker_rest_closed:
  assumes pr: "prim_closed R" and cc: "create_closed R"
  shows "R s (runWorker_rest cfg join penv eenv repo job ticket project s)"
proof (cases "j_phase job = phase_plan")
  case False
  then show ?thesis by (rule runWorker_rest_execute_closed [OF pr])
next
  case True
  obtain thrown s' where e: "runPlanPhase cfg penv job ticket project s = (thrown, s')"
    by (cases "runPlanPhase cfg penv job ticket project s")
  have 1: "R s s'"
    using runPlanPhase_closed [OF pr cc, of s cfg penv job ticket project] e by simp
  show ?thesis
  proof (cases thrown)
    case None
    with True e 1 show ?thesis by (simp add: runWorker_rest_def Let_def)
  next
    case (Some message)
    have "R s (snd (finishWorker cfg job ticket project False (Some message) s'))"
      by (rule pc_trans [OF prim_core [OF pr] 1 finishWorker_closed [OF prim_core [OF pr]]])
    with True e Some show ?thesis by (simp add: runWorker_rest_def Let_def)
  qed
qed

lemma completeTask_closed:
  assumes pr: "prim_closed R" and cc: "create_closed R"
  shows "R s (completeTask cfg join penv eenv repo i s)"
proof (cases "i < length (tasks s)")
  case False
  then show ?thesis by (simp add: completeTask_def pc_refl [OF prim_core [OF pr]])
next
  case True
  have "R s (s\<lparr>tasks := remove_at i (tasks s)\<rparr>)" by (rule pc_tasks [OF prim_core [OF pr]])
  then have "R s (runWorker_rest cfg join penv eenv repo
             (w_job (tasks s ! i)) (w_ticket (tasks s ! i)) (w_project (tasks s ! i))
             (s\<lparr>tasks := remove_at i (tasks s)\<rparr>))"
    by (rule pc_trans [OF prim_core [OF pr] _ runWorker_rest_closed [OF pr cc]])
  with True show ?thesis by (simp add: completeTask_def)
qed

lemma reachable_closed:
  assumes pr: "prim_closed R" and cc: "create_closed R" and r: "reachable cfg s"
  shows "\<exists>ps ts. R (init_world ps ts) s"
proof -
  show ?thesis using r
  proof (induction rule: reachable.induct)
  case (r_init ps ts)
  show ?case using pc_refl [OF prim_core [OF pr]] by blast
next
  case (r_enqueuePlan s ticket project)
  then show ?case using pc_trans [OF prim_core [OF pr] _ enqueue_closed(1) [OF prim_core [OF pr] cc]] by blast
next
  case (r_enqueueExecute s ticket project)
  then show ?case using pc_trans [OF prim_core [OF pr] _ enqueue_closed(2) [OF prim_core [OF pr] cc]] by blast
next
  case (r_cancel s ticketId)
  then show ?case using pc_trans [OF prim_core [OF pr] _ cancel_closed [OF pr]] by blast
next
  case (r_tick s)
  then show ?case using pc_trans [OF prim_core [OF pr] _ tick_closed [OF prim_core [OF pr]]] by blast
next
  case (r_complete s join penv eenv repo i)
  then show ?case using pc_trans [OF prim_core [OF pr] _ completeTask_closed [OF pr cc]] by blast
  qed
qed

section \<open>The orchestrator: what a tick and an enqueue do to the store\<close>

lemma runWorker_start_fields [simp]:
  "tickets (runWorker_start job ticket project s) = tickets s"
  "projects (runWorker_start job ticket project s) = projects s"
  "statusWrites (runWorker_start job ticket project s) = statusWrites s"
  "events (runWorker_start job ticket project s) = events s"
  "runnerCalls (runWorker_start job ticket project s) = runnerCalls s"
  "processes (runWorker_start job ticket project s) = processes s"
  "signals (runWorker_start job ticket project s) = signals s"
  "activeWorkers (runWorker_start job ticket project s) = activeWorkers s"
  by (simp_all add: runWorker_start_def Let_def jobs_updateStatus_def)

lemma tick_tickets [simp]: "tickets (tick cfg s) = tickets s"
  by (rule tick_rel [where R = "\<lambda>a b. tickets b = tickets a"]) simp_all

lemma tick_projects [simp]: "projects (tick cfg s) = projects s"
  by (rule tick_rel [where R = "\<lambda>a b. projects b = projects a"]) simp_all

lemma tick_statusWrites [simp]: "statusWrites (tick cfg s) = statusWrites s"
  by (rule tick_rel [where R = "\<lambda>a b. statusWrites b = statusWrites a"]) simp_all

lemma tick_events [simp]: "events (tick cfg s) = events s"
  by (rule tick_rel [where R = "\<lambda>a b. events b = events a"]) simp_all

lemma tick_runnerCalls [simp]: "runnerCalls (tick cfg s) = runnerCalls s"
  by (rule tick_rel [where R = "\<lambda>a b. runnerCalls b = runnerCalls a"]) simp_all

lemma mark_running_empty [simp]: "mark_running {} js = js"
  by (simp add: mark_running_def)

lemma mark_running_twice: "mark_running B (mark_running A js) = mark_running (A \<union> B) js"
  by (auto simp: mark_running_def)

lemma jobs_runWorker_start:
  "jobs (runWorker_start job ticket project s) = mark_running {j_id job} (jobs s)"
  by (simp add: runWorker_start_def Let_def jobs_updateStatus_def mark_running_def)

lemma tick_jobs: "\<exists>A. jobs (tick cfg s) = mark_running A (jobs s)"
proof (rule tick_rel [where R = "\<lambda>a b. \<exists>A. jobs b = mark_running A (jobs a)"], goal_cases)
  case (1 s)
  show ?case by (rule exI [of _ "{}"]) simp
next
  case (2 a b c)
  then show ?case by (metis mark_running_twice)
next
  case (3 s q)
  show ?case by (rule exI [of _ "{}"]) simp
next
  case (4 s q aw job ticket project)
  show ?case by (rule exI [of _ "{j_id job}"]) (simp add: jobs_runWorker_start)
qed

lemma mark_running_phase [simp]: "map j_phase (mark_running A js) = map j_phase js"
  by (simp add: mark_running_def)

lemma mark_running_active:
  "length (filter (\<lambda>j. j_ticketId j = tid \<and> (j_status j = pending \<or> j_status j = running)) js)
     \<le> length (filter (\<lambda>j. j_ticketId j = tid \<and> (j_status j = pending \<or> j_status j = running))
                  (mark_running A js))"
  by (induction js) (auto simp: mark_running_def)

lemma tick_active_jobs: "active_jobs tid s \<le> active_jobs tid (tick cfg s)"
proof -
  obtain A where "jobs (tick cfg s) = mark_running A (jobs s)"
    using tick_jobs by blast
  then show ?thesis
    unfolding active_jobs_def using mark_running_active [of tid "jobs s" A] by simp
qed

lemma enqueue_job_active:
  assumes t: "tickets_findById (t_id ticket) s = Some t"
    and step: "\<And>job s4. jobs s4 = jobs s @ [job] \<Longrightarrow> j_ticketId job = t_id ticket \<Longrightarrow>
                 j_status job = pending \<Longrightarrow> r = s4 \<or> r = tick cfg s4 \<Longrightarrow> thesis"
    and r: "r = snd (enqueuePlan cfg ticket project s) \<or> r = snd (enqueueExecute cfg ticket project s)"
  shows thesis
proof -
  let ?jp = "\<lparr>j_id = length (jobs s), j_ticketId = t_id ticket, j_phase = phase_plan,
              j_status = pending, j_exitCode = None,
              j_logPath = logPath_of (logsDir cfg) (t_id ticket) ''plan'', j_retryCount = 0\<rparr>"
  let ?je = "\<lparr>j_id = length (jobs s), j_ticketId = t_id ticket, j_phase = phase_execute,
              j_status = pending, j_exitCode = None,
              j_logPath = logPath_of (logsDir cfg) (t_id ticket) ''execute'', j_retryCount = 0\<rparr>"
  let ?sp = "(emit (TicketStatusEvent (t_id ticket) planning)
               (tickets_updateStatus (t_id ticket) planning None (s\<lparr>jobs := jobs s @ [?jp]\<rparr>)))
             \<lparr>queue := queue s @ [?jp]\<rparr>"
  let ?se = "(emit (TicketStatusEvent (t_id ticket) queued)
               (tickets_updateStatus (t_id ticket) queued None (s\<lparr>jobs := jobs s @ [?je]\<rparr>)))
             \<lparr>queue := queue s @ [?je]\<rparr>"
  have p: "snd (enqueuePlan cfg ticket project s) = ?sp \<or> snd (enqueuePlan cfg ticket project s) = tick cfg ?sp"
    using t by (simp add: enqueuePlan_def jobs_create_def Let_def store_defs split: option.splits)
  have e: "snd (enqueueExecute cfg ticket project s) = ?se \<or> snd (enqueueExecute cfg ticket project s) = tick cfg ?se"
    using t by (simp add: enqueueExecute_def jobs_create_def Let_def store_defs split: option.splits)
  have jp: "jobs ?sp = jobs s @ [?jp]" and je: "jobs ?se = jobs s @ [?je]"
    by (simp_all add: store_defs)
  from r show thesis
  proof
    assume "r = snd (enqueuePlan cfg ticket project s)"
    with p have "r = ?sp \<or> r = tick cfg ?sp" by simp
    then show thesis by (rule step [OF jp, rotated 2]) simp_all
  next
    assume "r = snd (enqueueExecute cfg ticket project s)"
    with e have "r = ?se \<or> r = tick cfg ?se" by simp
    then show thesis by (rule step [OF je, rotated 2]) simp_all
  qed
qed

lemma active_jobs_enqueued:
  assumes t: "tickets_findById (t_id ticket) s = Some t"
    and r: "r = snd (enqueuePlan cfg ticket project s) \<or> r = snd (enqueueExecute cfg ticket project s)"
  shows "active_jobs (t_id ticket) s + 1 \<le> active_jobs (t_id ticket) r"
proof (rule enqueue_job_active [OF t _ r])
  fix job s4
  assume j: "jobs s4 = jobs s @ [job]" and tk: "j_ticketId job = t_id ticket"
    and st: "j_status job = pending" and rr: "r = s4 \<or> r = tick cfg s4"
  have a4: "active_jobs (t_id ticket) s4 = active_jobs (t_id ticket) s + 1"
    using j tk st by (simp add: active_jobs_def)
  from rr show "active_jobs (t_id ticket) s + 1 \<le> active_jobs (t_id ticket) r"
  proof
    assume "r = s4" with a4 show ?thesis by simp
  next
    assume "r = tick cfg s4"
    with a4 tick_active_jobs [of "t_id ticket" s4 cfg] show ?thesis by simp
  qed
qed

text \<open>
  Neither enqueue operation looks at the jobs the ticket already has: each call of
  \<open>enqueuePlan\<close> or \<open>enqueueExecute\<close> for a ticket that is in the store adds a job row
  that is active (pending or running) after the call and makes no active job of the
  ticket inactive, so the number of active jobs of the ticket grows by at least one.
\<close>

theorem enqueue_adds_active_job:
  "tickets_findById (t_id ticket) s \<noteq> None \<Longrightarrow>
   active_jobs (t_id ticket) s + 1 \<le> active_jobs (t_id ticket) (snd (enqueuePlan cfg ticket project s))
   \<and> active_jobs (t_id ticket) s + 1
       \<le> active_jobs (t_id ticket) (snd (enqueueExecute cfg ticket project s))"
proof -
  assume "tickets_findById (t_id ticket) s \<noteq> None"
  then obtain t where t: "tickets_findById (t_id ticket) s = Some t" by blast
  show ?thesis
    using active_jobs_enqueued [OF t, of "snd (enqueuePlan cfg ticket project s)" cfg project]
          active_jobs_enqueued [OF t, of "snd (enqueueExecute cfg ticket project s)" cfg project]
    by simp
qed

theorem enqueue_adds_active_job_witness:
  "active_jobs ''T'' after_plan_T = 1
   \<and> 2 \<le> active_jobs ''T'' (snd (enqueuePlan cfg0 (ticket0 ''T'' queued) project0 after_plan_T))
   \<and> 2 \<le> active_jobs ''T'' (snd (enqueueExecute cfg0 (ticket0 ''T'' queued) project0 after_plan_T))"
proof -
  have t: "tickets_findById (t_id (ticket0 ''T'' queued)) after_plan_T \<noteq> None" by code_simp
  have i: "t_id (ticket0 ''T'' queued) = ''T''" by (simp add: ticket0_def)
  have a: "active_jobs ''T'' after_plan_T = 1" by code_simp
  from enqueue_adds_active_job [OF t, of cfg0 project0] show ?thesis
    unfolding i a by simp
qed

text \<open>
  C3 does not hold of the code. \<open>enqueuePlan\<close> is called for ticket T, in \<open>backlog\<close>, and
  the scheduler starts the plan worker: T has one active job, and its status is
  \<open>planning\<close>. \<open>enqueuePlan\<close> is called for T again while that job runs. The call is not
  refused, although the operation is documented for a ticket in \<open>backlog\<close> or
  \<open>plan_review\<close>: a second job is created, queued and started, and T has two active
  jobs. The second worker takes the key T of \<open>activeWorkers\<close> from the first.
\<close>

theorem second_enqueue_second_active_job:
  "active_jobs ''T'' (snd (enqueuePlan cfg0 (ticket0 ''T'' backlog) project0 world0)) = 1
   \<and> map t_status (tickets (snd (enqueuePlan cfg0 (ticket0 ''T'' backlog) project0 world0)))
       = [planning, backlog, backlog]
   \<and> active_jobs ''T''
        (snd (enqueuePlan cfg0 (ticket0 ''T'' planning) project0
               (snd (enqueuePlan cfg0 (ticket0 ''T'' backlog) project0 world0)))) = 2
   \<and> map (\<lambda>j. (j_ticketId j, j_phase j, j_status j))
        (jobs (snd (enqueuePlan cfg0 (ticket0 ''T'' planning) project0
                 (snd (enqueuePlan cfg0 (ticket0 ''T'' backlog) project0 world0)))))
       = [(''T'', phase_plan, running), (''T'', phase_plan, running)]
   \<and> map (\<lambda>e. (fst e, j_id (w_job (snd e))))
        (activeWorkers (snd (enqueuePlan cfg0 (ticket0 ''T'' planning) project0
                 (snd (enqueuePlan cfg0 (ticket0 ''T'' backlog) project0 world0)))))
       = [(''T'', 1)]"
  by code_simp

section \<open>Status writes and their events\<close>

lemma status_events_append:
  "status_events (es @ fs) = status_events es @ status_events fs"
  by (induction es rule: status_events.induct) simp_all

lemma paired_prim_closed: "prim_closed (\<lambda>a b. paired a \<longrightarrow> paired b)"
  by (simp add: prim_closed_def core_closed_def paired_def store_defs status_events_append)

lemma paired_create_closed: "create_closed (\<lambda>a b. paired a \<longrightarrow> paired b)"
  by (auto simp: create_closed_def paired_def jobs_create_def Let_def split: option.splits)

lemma reachable_cfg0_after_plan_T: "reachable cfg0 after_plan_T"
  unfolding after_plan_T_def world0_def
  by (intro r_complete r_enqueuePlan r_init)

lemma statusWrites_after_plan_T:
  "statusWrites after_plan_T = [(''T'', planning), (''T'', queued)]"
  by code_simp

text \<open>
  C5, as the specification states it, at the recovery after a restart: ticket T, found
  \<open>in_progress\<close>, is written \<open>failed\<close> by \<open>recoverInterruptedJobs\<close>, and no \<open>ticket:status\<close>
  event is emitted, so the event stream does not tell this transition.
\<close>

theorem recovery_writes_status_without_event:
  "statusWrites (recoverInterruptedJobs interrupted) = [(''T'', failed)]
   \<and> map t_status (tickets (recoverInterruptedJobs interrupted)) = [failed]
   \<and> status_events (events (recoverInterruptedJobs interrupted)) = []"
  by code_simp

text \<open>The merge handler writes the status \<open>merged\<close> and emits no event either.\<close>

lemma merge_writes_status_without_event:
  "statusWrites (handleMerge ''T''
      (init_world [project0] [(ticket0 ''T'' completed)\<lparr>t_branch := Some ''autodev/ticket-T-dark-mode''\<rparr>]))
     = [(''T'', merged)]
   \<and> status_events (events (handleMerge ''T''
      (init_world [project0] [(ticket0 ''T'' completed)\<lparr>t_branch := Some ''autodev/ticket-T-dark-mode''\<rparr>])))
     = []"
  by code_simp

text \<open>
  C5, amended: in every state that the orchestrator reaches by its own operations
  (enqueue of a plan or an execute job, cancellation, scheduler ticks, and the runs of
  the workers to their success or failure, whatever the outside world answers), the
  \<open>ticket:status\<close> events emitted so far, read as pairs of ticket id and status, are
  exactly the status writes made so far, in the same order: every status write of these
  paths has its event, and the status history can be rebuilt from the events. The
  writes of the crash recovery at start-up and of the merge handler are not covered.
\<close>

theorem status_writes_of_orchestrator_have_events:
  "reachable cfg s \<Longrightarrow> status_events (events s) = statusWrites s"
proof -
  assume "reachable cfg s"
  from reachable_closed [OF paired_prim_closed paired_create_closed this]
  obtain ps ts where "paired (init_world ps ts) \<longrightarrow> paired s" by blast
  then show ?thesis by (simp add: paired_def init_world_def)
qed

theorem status_writes_of_orchestrator_have_events_witness:
  "status_events (events after_plan_T) = [(''T'', planning), (''T'', queued)]"
  using status_writes_of_orchestrator_have_events [OF reachable_cfg0_after_plan_T]
  by (simp only: statusWrites_after_plan_T)

section \<open>The job table\<close>

lemma job_keys_updateStatus [simp]: "job_keys (jobs_updateStatus jid st code s) = job_keys s"
  by (simp add: job_keys_def jobs_updateStatus_def)

lemma job_keys_incrementRetry [simp]: "job_keys (jobs_incrementRetry jid s) = job_keys s"
  by (simp add: job_keys_def jobs_incrementRetry_def)

lemma job_keys_prim_closed: "prim_closed (\<lambda>a b. job_keys a = job_keys b)"
  by (simp add: prim_closed_def core_closed_def)
     (simp add: job_keys_def store_defs)

lemma phases_prim_closed: "prim_closed (\<lambda>a b. phases_ok a \<longrightarrow> phases_ok b)"
  by (simp add: prim_closed_def core_closed_def phases_ok_def)
     (simp add: job_keys_def store_defs)

lemma phases_create_closed: "create_closed (\<lambda>a b. phases_ok a \<longrightarrow> phases_ok b)"
  unfolding create_closed_def
proof (intro allI impI)
  fix s tid phase path job s'
  assume c: "jobs_create tid phase path s = Inr (job, s')" and nf: "phase \<noteq> phase_fix"
    and ok: "phases_ok s"
  from nf have "plan_or_execute phase" by (cases phase) (simp_all add: plan_or_execute_def)
  with c ok show "phases_ok s'"
    by (auto simp: jobs_create_def Let_def phases_ok_def job_keys_def split: option.splits)
qed

lemma retry_counts_closed:
  "prim_closed (\<lambda>a b. list_all2 (\<lambda>x y. j_retryCount x \<le> j_retryCount y) (jobs a) (jobs b))"
  unfolding prim_closed_def core_closed_def
  by (auto simp: store_defs list_all2_map2 list.rel_refl intro: list_all2_trans [rotated])

section \<open>The retry loop\<close>

lemma add_retries_0 [simp]: "add_retries jid 0 js = js"
  by (simp add: add_retries_def map_idI)

lemma add_retries_add: "add_retries jid k (add_retries jid l js) = add_retries jid (l + k) js"
  by (simp add: add_retries_def)

lemma jobs_failed_attempt: "jobs (failed_attempt job ticket s) = add_retries (j_id job) 1 (jobs s)"
  by (simp add: failed_attempt_def add_retries_def store_defs)

lemma runnerCalls_failed_attempt:
  "runnerCalls (failed_attempt job ticket s) = runnerCalls s @ [t_id ticket]"
  by (simp add: failed_attempt_def store_defs)

text \<open>One unfolding of the loop.\<close>

lemma retryLoop_again:
  assumes "int retryCount \<le> maxRetries cfg" "ee_agent env retryCount = Inr 0" hasTest
    "fst (ee_test env retryCount) \<noteq> 0"
    "analytics_record (t_id ticket) (p_id project) (failed_attempt job ticket s) = None"
    "\<not> maxRetries cfg < int (Suc retryCount)"
  shows "retryLoop cfg env hasTest job ticket project retryCount s
         = retryLoop cfg env hasTest job ticket project (Suc retryCount)
             (failed_attempt job ticket s)"
  using assms by (subst retryLoop.simps) (simp add: Let_def failed_attempt_def)

lemma retryLoop_last:
  assumes "int retryCount \<le> maxRetries cfg" "ee_agent env retryCount = Inr 0" hasTest
    "fst (ee_test env retryCount) \<noteq> 0"
    "analytics_record (t_id ticket) (p_id project) (failed_attempt job ticket s) = None"
    "maxRetries cfg < int (Suc retryCount)"
  shows "retryLoop cfg env hasTest job ticket project retryCount s
         = (Inl (exhausted_message cfg (snd (ee_test env retryCount))),
            failed_attempt job ticket s)"
  using assms
  by (subst retryLoop.simps) (simp add: Let_def failed_attempt_def exhausted_message_def)

lemma retryLoop_stops:
  assumes "\<not> (int retryCount \<le> maxRetries cfg \<and> ee_agent env retryCount = Inr 0 \<and> hasTest
                \<and> fst (ee_test env retryCount) \<noteq> 0
                \<and> analytics_record (t_id ticket) (p_id project) (failed_attempt job ticket s) = None
                \<and> \<not> maxRetries cfg < int (Suc retryCount))"
  shows "(\<not> int retryCount \<le> maxRetries cfg
            \<and> snd (retryLoop cfg env hasTest job ticket project retryCount s) = s
            \<and> (\<exists>e. fst (retryLoop cfg env hasTest job ticket project retryCount s) = Inl e))
       \<or> (int retryCount \<le> maxRetries cfg
            \<and> snd (retryLoop cfg env hasTest job ticket project retryCount s)
                = s\<lparr>runnerCalls := runnerCalls s @ [t_id ticket]\<rparr>
            \<and> (\<forall>m. fst (retryLoop cfg env hasTest job ticket project retryCount s) = Inr m
                     \<longrightarrow> m = retryCount))
       \<or> (int retryCount \<le> maxRetries cfg
            \<and> snd (retryLoop cfg env hasTest job ticket project retryCount s)
                = emit (TicketStatusEvent (t_id ticket) testing)
                    (tickets_updateStatus (t_id ticket) testing None
                       (s\<lparr>runnerCalls := runnerCalls s @ [t_id ticket]\<rparr>))
            \<and> (\<forall>m. fst (retryLoop cfg env hasTest job ticket project retryCount s) = Inr m
                     \<longrightarrow> m = retryCount))
       \<or> (int retryCount \<le> maxRetries cfg
            \<and> snd (retryLoop cfg env hasTest job ticket project retryCount s)
                = failed_attempt job ticket s
            \<and> (\<exists>e. fst (retryLoop cfg env hasTest job ticket project retryCount s) = Inl e))"
  using assms
  by (subst (1 2 3 4 5 6 7 8) retryLoop.simps)
     (auto simp: Let_def failed_attempt_def split: sum.splits option.splits)


lemma retryLoop_calls:
  "\<exists>c. c \<le> nat (maxRetries cfg + 1 - int retryCount)
       \<and> runnerCalls (snd (retryLoop cfg env hasTest job ticket project retryCount s))
           = runnerCalls s @ replicate c (t_id ticket)"
proof (induction cfg env hasTest job ticket project retryCount s rule: retryLoop.induct)
  case (1 cfg env hasTest job ticket project retryCount s)
  let ?r = "retryLoop cfg env hasTest job ticket project retryCount s"
  show ?case
  proof (cases "int retryCount \<le> maxRetries cfg \<and> ee_agent env retryCount = Inr 0 \<and> hasTest
                \<and> fst (ee_test env retryCount) \<noteq> 0
                \<and> analytics_record (t_id ticket) (p_id project) (failed_attempt job ticket s) = None
                \<and> \<not> maxRetries cfg < int (Suc retryCount)")
    case True
    then have c: "int retryCount \<le> maxRetries cfg" "ee_agent env retryCount = Inr 0" hasTest
      "fst (ee_test env retryCount) \<noteq> 0"
      "analytics_record (t_id ticket) (p_id project) (failed_attempt job ticket s) = None"
      "\<not> maxRetries cfg < int (Suc retryCount)" by simp_all
    have "\<exists>c. c \<le> nat (maxRetries cfg + 1 - int (Suc retryCount))
       \<and> runnerCalls (snd (retryLoop cfg env hasTest job ticket project (Suc retryCount)
                              (failed_attempt job ticket s)))
           = runnerCalls (failed_attempt job ticket s) @ replicate c (t_id ticket)"
      unfolding failed_attempt_def
      by (rule "1.IH" [OF c(1) refl c(2) _ c(3) refl refl c(4) refl
                 c(5) [unfolded failed_attempt_def] c(6)]) simp
    then obtain c' where c': "c' \<le> nat (maxRetries cfg + 1 - int (Suc retryCount))"
      "runnerCalls (snd (retryLoop cfg env hasTest job ticket project (Suc retryCount)
                              (failed_attempt job ticket s)))
           = runnerCalls (failed_attempt job ticket s) @ replicate c' (t_id ticket)" by blast
    have "Suc c' \<le> nat (maxRetries cfg + 1 - int retryCount)" using c'(1) c(1) by simp
    moreover have "runnerCalls (snd ?r) = runnerCalls s @ replicate (Suc c') (t_id ticket)"
      unfolding retryLoop_again [OF c] c'(2) runnerCalls_failed_attempt by simp
    ultimately show ?thesis by blast
  next
    case False
    from retryLoop_stops [OF False]
    have "snd ?r = s \<or> (int retryCount \<le> maxRetries cfg
        \<and> runnerCalls (snd ?r) = runnerCalls s @ [t_id ticket])"
      by (elim disjE conjE) (simp_all add: failed_attempt_def store_defs)
    then consider
      "snd ?r = s"
      | "int retryCount \<le> maxRetries cfg"
        "runnerCalls (snd ?r) = runnerCalls s @ [t_id ticket]"
      by blast
    then show ?thesis
    proof cases
      case 1
      then have "0 \<le> nat (maxRetries cfg + 1 - int retryCount)
                 \<and> runnerCalls (snd ?r) = runnerCalls s @ replicate 0 (t_id ticket)" by simp
      then show ?thesis by blast
    next
      case 2
      then have "1 \<le> nat (maxRetries cfg + 1 - int retryCount)
                 \<and> runnerCalls (snd ?r) = runnerCalls s @ replicate 1 (t_id ticket)" by simp
      then show ?thesis by blast
    qed
  qed
qed

lemma retryLoop_jobs:
  "\<exists>k. jobs (snd (retryLoop cfg env hasTest job ticket project retryCount s))
           = add_retries (j_id job) k (jobs s)
       \<and> (\<forall>m. fst (retryLoop cfg env hasTest job ticket project retryCount s) = Inr m
              \<longrightarrow> m = retryCount + k)"
proof (induction cfg env hasTest job ticket project retryCount s rule: retryLoop.induct)
  case (1 cfg env hasTest job ticket project retryCount s)
  let ?r = "retryLoop cfg env hasTest job ticket project retryCount s"
  show ?case
  proof (cases "int retryCount \<le> maxRetries cfg \<and> ee_agent env retryCount = Inr 0 \<and> hasTest
                \<and> fst (ee_test env retryCount) \<noteq> 0
                \<and> analytics_record (t_id ticket) (p_id project) (failed_attempt job ticket s) = None
                \<and> \<not> maxRetries cfg < int (Suc retryCount)")
    case True
    then have c: "int retryCount \<le> maxRetries cfg" "ee_agent env retryCount = Inr 0" hasTest
      "fst (ee_test env retryCount) \<noteq> 0"
      "analytics_record (t_id ticket) (p_id project) (failed_attempt job ticket s) = None"
      "\<not> maxRetries cfg < int (Suc retryCount)" by simp_all
    let ?r' = "retryLoop cfg env hasTest job ticket project (Suc retryCount)
                 (failed_attempt job ticket s)"
    have "\<exists>k. jobs (snd ?r') = add_retries (j_id job) k (jobs (failed_attempt job ticket s))
       \<and> (\<forall>m. fst ?r' = Inr m \<longrightarrow> m = Suc retryCount + k)"
      unfolding failed_attempt_def
      by (rule "1.IH" [OF c(1) refl c(2) _ c(3) refl refl c(4) refl
                 c(5) [unfolded failed_attempt_def] c(6)]) simp
    then obtain k where k: "jobs (snd ?r') = add_retries (j_id job) k (jobs (failed_attempt job ticket s))"
      "\<forall>m. fst ?r' = Inr m \<longrightarrow> m = Suc retryCount + k" by blast
    have "jobs (snd ?r) = add_retries (j_id job) (Suc k) (jobs s)"
      unfolding retryLoop_again [OF c] k(1) jobs_failed_attempt add_retries_add by simp
    moreover have "\<forall>m. fst ?r = Inr m \<longrightarrow> m = retryCount + Suc k"
      unfolding retryLoop_again [OF c] using k(2) by simp
    ultimately show ?thesis by blast
  next
    case False
    from retryLoop_stops [OF False]
    have "(jobs (snd ?r) = jobs s \<and> (\<forall>m. fst ?r = Inr m \<longrightarrow> m = retryCount))
        \<or> (jobs (snd ?r) = add_retries (j_id job) 1 (jobs s) \<and> (\<exists>e. fst ?r = Inl e))"
      by (elim disjE conjE exE) (simp_all add: jobs_failed_attempt store_defs)
    then consider
      "jobs (snd ?r) = jobs s" "\<forall>m. fst ?r = Inr m \<longrightarrow> m = retryCount"
      | "jobs (snd ?r) = add_retries (j_id job) 1 (jobs s)" "\<exists>e. fst ?r = Inl e"
      by blast
    then show ?thesis
    proof cases
      case 1
      then have "jobs (snd ?r) = add_retries (j_id job) 0 (jobs s)
                 \<and> (\<forall>m. fst ?r = Inr m \<longrightarrow> m = retryCount + 0)" by simp
      then show ?thesis by blast
    next
      case 2
      then have "jobs (snd ?r) = add_retries (j_id job) 1 (jobs s)
                 \<and> (\<forall>m. fst ?r = Inr m \<longrightarrow> m = retryCount + 1)" by auto
      then show ?thesis by blast
    qed
  qed
qed


lemma find_map_same_id:
  assumes "\<And>t. t_id (f t) = t_id t"
  shows "find (\<lambda>t. t_id t = tid) (map f ts) = map_option f (find (\<lambda>t. t_id t = tid) ts)"
  by (induction ts) (simp_all add: assms)

lemma findById_updateStatus:
  "tickets_findById tid (tickets_updateStatus tid' st err s)
   = map_option (\<lambda>t. if t_id t = tid' then t\<lparr>t_status := st, t_error := err\<rparr> else t)
       (tickets_findById tid s)"
  by (simp add: tickets_findById_def tickets_updateStatus_def find_map_same_id)

lemma findById_updateBranch:
  "tickets_findById tid (tickets_updateBranch tid' b p s)
   = map_option (\<lambda>t. if t_id t = tid' then t\<lparr>t_branch := Some b, t_worktreePath := Some p\<rparr> else t)
       (tickets_findById tid s)"
  by (simp add: tickets_findById_def tickets_updateBranch_def find_map_same_id)

lemma findById_id: "tickets_findById tid s = Some t \<Longrightarrow> t_id t = tid"
  by (auto simp: tickets_findById_def find_Some_iff)

lemma findById_cong: "tickets a = tickets b \<Longrightarrow> tickets_findById tid a = tickets_findById tid b"
  by (simp add: tickets_findById_def)

lemma findById_failed_attempt:
  "tickets_findById tid (failed_attempt job ticket s)
   = map_option (\<lambda>t. if t_id t = t_id ticket then t\<lparr>t_status := testing, t_error := None\<rparr> else t)
       (tickets_findById tid s)"
proof -
  have "tickets_findById tid (failed_attempt job ticket s)
        = tickets_findById tid (tickets_updateStatus (t_id ticket) testing None s)"
    by (rule findById_cong) (simp add: failed_attempt_def store_defs)
  then show ?thesis by (simp only: findById_updateStatus)
qed

lemma projects_failed_attempt [simp]: "projects (failed_attempt job ticket s) = projects s"
  by (simp add: failed_attempt_def store_defs)

lemma analytics_failed_attempt:
  "analytics_record tid pid (failed_attempt job ticket s) = analytics_record tid pid s"
  by (simp add: analytics_record_def findById_failed_attempt projects_findById_def)

lemma tickets_failed_attempt:
  "tickets (failed_attempt job ticket s) = tickets (tickets_updateStatus (t_id ticket) testing None s)"
  by (simp add: failed_attempt_def store_defs)

lemma tickets_updateStatus_twice:
  "tickets (tickets_updateStatus tid st err (s\<lparr>tickets := tickets (tickets_updateStatus tid st err s')\<rparr>))
   = tickets (tickets_updateStatus tid st err s')"
  by (simp add: tickets_updateStatus_def)

lemma tickets_updateStatus_cong:
  "tickets a = tickets b
   \<Longrightarrow> tickets (tickets_updateStatus tid st err a) = tickets (tickets_updateStatus tid st err b)"
  by (simp add: tickets_updateStatus_def)

lemma funpow_failed_attempt:
  "runnerCalls ((failed_attempt job ticket ^^ k) s) = runnerCalls s @ replicate k (t_id ticket)
   \<and> jobs ((failed_attempt job ticket ^^ k) s) = add_retries (j_id job) k (jobs s)
   \<and> projects ((failed_attempt job ticket ^^ k) s) = projects s
   \<and> tickets ((failed_attempt job ticket ^^ Suc k) s)
       = tickets (tickets_updateStatus (t_id ticket) testing None s)"
proof (induction k)
  case 0
  show ?case by (simp add: tickets_failed_attempt)
next
  case (Suc k)
  let ?u = "tickets_updateStatus (t_id ticket) testing None"
  have "tickets ((failed_attempt job ticket ^^ Suc (Suc k)) s)
        = tickets (?u ((failed_attempt job ticket ^^ Suc k) s))"
    by (simp add: tickets_failed_attempt)
  also have "\<dots> = tickets (?u (s\<lparr>tickets := tickets (?u s)\<rparr>))"
    by (rule tickets_updateStatus_cong) (simp add: Suc del: funpow.simps)
  also have "\<dots> = tickets (?u s)" by (rule tickets_updateStatus_twice)
  finally show ?case
    using Suc
    by (simp add: runnerCalls_failed_attempt jobs_failed_attempt add_retries_add
                  replicate_append_same del: funpow.simps)
       (simp add: runnerCalls_failed_attempt jobs_failed_attempt add_retries_add
                  replicate_append_same)
qed

lemma retryLoop_exhausted:
  assumes "hasTest"
    and "\<forall>m. retryCount \<le> m \<and> int m \<le> maxRetries cfg
              \<longrightarrow> ee_agent env m = Inr 0 \<and> fst (ee_test env m) \<noteq> 0"
    and "analytics_record (t_id ticket) (p_id project) s = None"
    and "int retryCount \<le> maxRetries cfg"
  shows "retryLoop cfg env hasTest job ticket project retryCount s
         = (Inl (exhausted_message cfg (snd (ee_test env (nat (maxRetries cfg))))),
            (failed_attempt job ticket ^^ (Suc (nat (maxRetries cfg)) - retryCount)) s)"
  using assms
proof (induction cfg env hasTest job ticket project retryCount s rule: retryLoop.induct)
  case (1 cfg env hasTest job ticket project retryCount s)
  have a: "ee_agent env retryCount = Inr 0" "fst (ee_test env retryCount) \<noteq> 0"
    using "1.prems"(2,4) by simp_all
  have an: "analytics_record (t_id ticket) (p_id project) (failed_attempt job ticket s) = None"
    using "1.prems"(3) by (simp only: analytics_failed_attempt)
  show ?case
  proof (cases "maxRetries cfg < int (Suc retryCount)")
    case True
    with "1.prems"(4) have e: "nat (maxRetries cfg) = retryCount" by simp
    have "Suc (nat (maxRetries cfg)) - retryCount = 1" unfolding e by simp
    then show ?thesis
      unfolding retryLoop_last [OF "1.prems"(4) a(1) "1.prems"(1) a(2) an True]
      by (simp add: e)
  next
    case False
    have p2: "\<forall>m. Suc retryCount \<le> m \<and> int m \<le> maxRetries cfg
              \<longrightarrow> ee_agent env m = Inr 0 \<and> fst (ee_test env m) \<noteq> 0"
      using "1.prems"(2) by simp
    have p4: "int (Suc retryCount) \<le> maxRetries cfg" using False by simp
    have "retryLoop cfg env hasTest job ticket project (Suc retryCount)
            (jobs_incrementRetry (j_id job)
              (emit (TicketStatusEvent (t_id ticket) testing)
                (tickets_updateStatus (t_id ticket) testing None
                  (s\<lparr>runnerCalls := runnerCalls s @ [t_id ticket]\<rparr>))))
         = (Inl (exhausted_message cfg (snd (ee_test env (nat (maxRetries cfg))))),
            (failed_attempt job ticket ^^ (Suc (nat (maxRetries cfg)) - Suc retryCount))
              (jobs_incrementRetry (j_id job)
                (emit (TicketStatusEvent (t_id ticket) testing)
                  (tickets_updateStatus (t_id ticket) testing None
                    (s\<lparr>runnerCalls := runnerCalls s @ [t_id ticket]\<rparr>)))))"
      by (rule "1.IH" [OF "1.prems"(4) refl a(1) _ "1.prems"(1) refl refl a(2) refl
                 an [unfolded failed_attempt_def] False "1.prems"(1) p2
                 an [unfolded failed_attempt_def] p4]) simp
    then have ih: "retryLoop cfg env hasTest job ticket project (Suc retryCount) (failed_attempt job ticket s)
         = (Inl (exhausted_message cfg (snd (ee_test env (nat (maxRetries cfg))))),
            (failed_attempt job ticket ^^ (Suc (nat (maxRetries cfg)) - Suc retryCount))
              (failed_attempt job ticket s))"
      by (simp only: failed_attempt_def [of job ticket s, symmetric])
    have k: "Suc (nat (maxRetries cfg)) - retryCount
             = Suc (Suc (nat (maxRetries cfg)) - Suc retryCount)"
      using p4 by simp
    show ?thesis
      unfolding retryLoop_again [OF "1.prems"(4) a(1) "1.prems"(1) a(2) an False] ih k
      by (simp only: funpow_Suc_right o_apply)
  qed
qed

lemma retryLoop_failed_turn:
  assumes "int retryCount \<le> maxRetries cfg" "ee_agent env retryCount = Inr 0" hasTest
    "fst (ee_test env retryCount) \<noteq> 0"
  shows "retryLoop cfg env hasTest job ticket project retryCount s
         = (case analytics_record (t_id ticket) (p_id project) (failed_attempt job ticket s) of
              Some err \<Rightarrow> (Inl err, failed_attempt job ticket s)
            | None \<Rightarrow>
                if maxRetries cfg < int (Suc retryCount)
                then (Inl (exhausted_message cfg (snd (ee_test env retryCount))),
                      failed_attempt job ticket s)
                else retryLoop cfg env hasTest job ticket project (Suc retryCount)
                       (failed_attempt job ticket s))"
  using assms
  by (subst retryLoop.simps)
     (simp add: Let_def failed_attempt_def exhausted_message_def split: option.splits)

lemma retryLoop_no_failed_turn:
  assumes "\<not> (int retryCount \<le> maxRetries cfg \<and> ee_agent env retryCount = Inr 0 \<and> hasTest
              \<and> fst (ee_test env retryCount) \<noteq> 0)"
  shows "jobs (snd (retryLoop cfg env hasTest job ticket project retryCount s)) = jobs s"
  using assms
  by (subst retryLoop.simps)
     (auto simp: Let_def store_defs split: sum.splits option.splits)

lemma retryLoop_counts_failed_test_runs:
  "jobs (snd (retryLoop cfg env hasTest job ticket project retryCount s))
   = add_retries (j_id job)
       (failed_test_runs cfg env hasTest
          (analytics_record (t_id ticket) (p_id project) s = None) retryCount)
       (jobs s)"
proof (induction cfg env hasTest job ticket project retryCount s rule: retryLoop.induct)
  case (1 cfg env hasTest job ticket project retryCount s)
  let ?stored = "analytics_record (t_id ticket) (p_id project) s = None"
  let ?s4 = "failed_attempt job ticket s"
  have an: "analytics_record (t_id ticket) (p_id project) ?s4
            = analytics_record (t_id ticket) (p_id project) s"
    by (rule analytics_failed_attempt)
  show ?case
  proof (cases "int retryCount \<le> maxRetries cfg \<and> ee_agent env retryCount = Inr 0 \<and> hasTest
                \<and> fst (ee_test env retryCount) \<noteq> 0")
    case False
    then have "failed_test_runs cfg env hasTest ?stored retryCount = 0"
      by (subst failed_test_runs.simps) simp
    with retryLoop_no_failed_turn [OF False] show ?thesis by simp
  next
    case True
    then have c: "int retryCount \<le> maxRetries cfg" "ee_agent env retryCount = Inr 0" hasTest
      "fst (ee_test env retryCount) \<noteq> 0" by simp_all
    note turn = retryLoop_failed_turn [OF c, of job ticket project s]
    show ?thesis
    proof (cases "?stored \<and> \<not> maxRetries cfg < int (Suc retryCount)")
      case False
      then have f: "failed_test_runs cfg env hasTest ?stored retryCount = 1"
        using True by (subst failed_test_runs.simps) auto
      from False have "jobs (snd (retryLoop cfg env hasTest job ticket project retryCount s))
                       = jobs ?s4"
        unfolding turn an by (auto split: option.splits)
      then show ?thesis by (simp add: f jobs_failed_attempt)
    next
      case go: True
      then have st: "analytics_record (t_id ticket) (p_id project) s = None"
        and ne: "\<not> maxRetries cfg < int (Suc retryCount)" by simp_all
      have an4: "analytics_record (t_id ticket) (p_id project) ?s4 = None"
        using st by (simp only: an)
      have f: "failed_test_runs cfg env hasTest ?stored retryCount
               = Suc (failed_test_runs cfg env hasTest ?stored (Suc retryCount))"
        using True go by (subst failed_test_runs.simps) simp
      have "jobs (snd (retryLoop cfg env hasTest job ticket project (Suc retryCount)
                         (jobs_incrementRetry (j_id job)
                            (emit (TicketStatusEvent (t_id ticket) testing)
                               (tickets_updateStatus (t_id ticket) testing None
                                  (s\<lparr>runnerCalls := runnerCalls s @ [t_id ticket]\<rparr>))))))
            = add_retries (j_id job)
                (failed_test_runs cfg env hasTest
                   (analytics_record (t_id ticket) (p_id project)
                      (jobs_incrementRetry (j_id job)
                         (emit (TicketStatusEvent (t_id ticket) testing)
                            (tickets_updateStatus (t_id ticket) testing None
                               (s\<lparr>runnerCalls := runnerCalls s @ [t_id ticket]\<rparr>)))) = None)
                   (Suc retryCount))
                (jobs (jobs_incrementRetry (j_id job)
                         (emit (TicketStatusEvent (t_id ticket) testing)
                            (tickets_updateStatus (t_id ticket) testing None
                               (s\<lparr>runnerCalls := runnerCalls s @ [t_id ticket]\<rparr>)))))"
        by (rule "1.IH" [OF c(1) refl c(2) _ c(3) refl refl c(4) refl
                   an4 [unfolded failed_attempt_def] ne]) simp
      then have ih: "jobs (snd (retryLoop cfg env hasTest job ticket project (Suc retryCount) ?s4))
            = add_retries (j_id job)
                (failed_test_runs cfg env hasTest
                   (analytics_record (t_id ticket) (p_id project) ?s4 = None) (Suc retryCount))
                (jobs ?s4)"
        by (simp only: failed_attempt_def [of job ticket s, symmetric])
      have "jobs (snd (retryLoop cfg env hasTest job ticket project retryCount s))
            = jobs (snd (retryLoop cfg env hasTest job ticket project (Suc retryCount) ?s4))"
        unfolding turn using an4 ne by simp
      also have "\<dots> = add_retries (j_id job)
                (failed_test_runs cfg env hasTest ?stored (Suc retryCount))
                (add_retries (j_id job) 1 (jobs s))"
        unfolding ih an jobs_failed_attempt ..
      also have "\<dots> = add_retries (j_id job)
                (failed_test_runs cfg env hasTest ?stored retryCount) (jobs s)"
        unfolding f by (simp add: add_retries_add)
      finally show ?thesis .
    qed
  qed
qed

lemma mark_running_retryCount [simp]:
  "map j_retryCount (mark_running A js) = map j_retryCount js"
  by (simp add: mark_running_def)

lemma tick_retryCount [simp]: "map j_retryCount (jobs (tick cfg s)) = map j_retryCount (jobs s)"
proof -
  obtain A where "jobs (tick cfg s) = mark_running A (jobs s)" using tick_jobs by blast
  then show ?thesis by simp
qed

lemma finishWorker_fields:
  "runnerCalls (snd (finishWorker cfg job ticket project succeeded msg s)) = runnerCalls s
   \<and> map j_retryCount (jobs (snd (finishWorker cfg job ticket project succeeded msg s)))
       = map j_retryCount (jobs s)
   \<and> projects (snd (finishWorker cfg job ticket project succeeded msg s)) = projects s"
  by (simp add: finishWorker_def Let_def split: option.splits)
     (simp add: store_defs comp_def)

lemma finishWorker_failed_tickets:
  "tickets (snd (finishWorker cfg job ticket project False (Some msg) s))
   = tickets (tickets_updateStatus (t_id ticket) failed (Some msg) s)"
  by (simp add: finishWorker_def Let_def split: option.splits)
     (simp add: store_defs)

lemma findById_status_cong:
  "tickets a = tickets (tickets_updateStatus tid' st err b)
   \<Longrightarrow> tickets_findById tid a
       = map_option (\<lambda>t. if t_id t = tid' then t\<lparr>t_status := st, t_error := err\<rparr> else t)
           (tickets_findById tid b)"
  using findById_cong [of a "tickets_updateStatus tid' st err b" tid]
  by (simp only: findById_updateStatus)


lemma execute_start_fields:
  "runnerCalls (execute_start cfg job ticket path s) = runnerCalls s
   \<and> jobs (execute_start cfg job ticket path s) = jobs s
   \<and> projects (execute_start cfg job ticket path s) = projects s
   \<and> tickets (execute_start cfg job ticket path s)
       = tickets (tickets_updateStatus (t_id ticket) in_progress None
                    (tickets_updateBranch (t_id ticket)
                       (branchPrefix cfg @ ''ticket-'' @ t_id ticket @ ''-'' @ slugify (t_title ticket))
                       path s))"
  by (simp add: execute_start_def Let_def store_defs)

lemma analytics_execute_start:
  "analytics_record tid pid (execute_start cfg job ticket path s) = analytics_record tid pid s"
proof -
  have "tickets_findById tid (execute_start cfg job ticket path s) = None
        \<longleftrightarrow> tickets_findById tid s = None"
    by (simp add: findById_status_cong [OF conjunct2 [OF conjunct2 [OF conjunct2 [OF execute_start_fields]]]]
                  findById_updateBranch)
  then show ?thesis
    by (simp add: analytics_record_def projects_findById_def execute_start_fields)
qed

lemma runExecutePhase_exhausted:
  assumes git: "ee_gitVersionError env = None"
    and wt: "fst (createWorktree join (p_worktreeRoot project) (t_id ticket)
                    (slugify (t_title ticket)) (p_defaultBranch project) (branchPrefix cfg) repo)
             = Inr path"
    and tc: "s_testCommand (p_settings project) = Some c" "c \<noteq> []"
    and R: "0 \<le> maxRetries cfg"
    and fail: "\<forall>m. int m \<le> maxRetries cfg \<longrightarrow> ee_agent env m = Inr 0 \<and> fst (ee_test env m) \<noteq> 0"
    and an: "analytics_record (t_id ticket) (p_id project) s = None"
  shows "fst (runExecutePhase cfg join env repo job ticket project s)
           = Some (exhausted_message cfg (snd (ee_test env (nat (maxRetries cfg)))))
       \<and> snd (snd (runExecutePhase cfg join env repo job ticket project s))
           = (failed_attempt job ticket ^^ Suc (nat (maxRetries cfg)))
               (execute_start cfg job ticket path s)"
proof -
  obtain repo1 where cw: "createWorktree join (p_worktreeRoot project) (t_id ticket)
                    (slugify (t_title ticket)) (p_defaultBranch project) (branchPrefix cfg) repo
             = (Inr path, repo1)"
    using wt by (cases "createWorktree join (p_worktreeRoot project) (t_id ticket)
                    (slugify (t_title ticket)) (p_defaultBranch project) (branchPrefix cfg) repo") simp
  have tr: "truthy (Some c)" using tc(2) by (simp add: truthy_def)
  have f0: "\<forall>m. 0 \<le> m \<and> int m \<le> maxRetries cfg
              \<longrightarrow> ee_agent env m = Inr 0 \<and> fst (ee_test env m) \<noteq> 0"
    using fail by simp
  have an': "analytics_record (t_id ticket) (p_id project) (execute_start cfg job ticket path s) = None"
    using an by (simp only: analytics_execute_start)
  have R0: "int 0 \<le> maxRetries cfg" using R by simp
  have loop: "retryLoop cfg env (truthy (Some c)) job ticket project 0
                (execute_start cfg job ticket path s)
              = (Inl (exhausted_message cfg (snd (ee_test env (nat (maxRetries cfg))))),
                 (failed_attempt job ticket ^^ Suc (nat (maxRetries cfg)))
                   (execute_start cfg job ticket path s))"
    using retryLoop_exhausted [OF tr f0 an' R0] by simp
  show ?thesis
    using git cw tc(1) loop [unfolded execute_start_def Let_def]
    by (simp add: runExecutePhase_def Let_def execute_start_def)
qed


lemma runExecutePhase_calls:
  "\<exists>c. c \<le> nat (maxRetries cfg + 1)
       \<and> runnerCalls (snd (snd (runExecutePhase cfg join env repo job ticket project s)))
           = runnerCalls s @ replicate c (t_id ticket)"
proof -
  let ?goal = "\<lambda>s'. \<exists>c. c \<le> nat (maxRetries cfg + 1)
                  \<and> runnerCalls s' = runnerCalls s @ replicate c (t_id ticket)"
  have zero: "?goal s"
  proof -
    have "0 \<le> nat (maxRetries cfg + 1)
          \<and> runnerCalls s = runnerCalls s @ replicate 0 (t_id ticket)" by simp
    then show ?thesis by blast
  qed
  show ?thesis
  proof (cases "ee_gitVersionError env")
    case (Some err)
    with zero show ?thesis by (simp add: runExecutePhase_def)
  next
    case None
    let ?slug = "slugify (t_title ticket)"
    obtain res repo1 where cw: "createWorktree join (p_worktreeRoot project) (t_id ticket) ?slug
                    (p_defaultBranch project) (branchPrefix cfg) repo = (res, repo1)"
      by (cases "createWorktree join (p_worktreeRoot project) (t_id ticket) ?slug
                    (p_defaultBranch project) (branchPrefix cfg) repo")
    show ?thesis
    proof (cases res)
      case (Inl err)
      with None cw zero show ?thesis by (simp add: runExecutePhase_def Let_def)
    next
      case (Inr path)
      let ?testCmd = "case s_testCommand (p_settings project) of
                        Some c \<Rightarrow> Some c | None \<Rightarrow> ee_stackTestCommand env"
      let ?s4 = "execute_start cfg job ticket path s"
      obtain lr s5 where rl: "retryLoop cfg env (truthy ?testCmd) job ticket project 0 ?s4 = (lr, s5)"
        by (cases "retryLoop cfg env (truthy ?testCmd) job ticket project 0 ?s4")
      from retryLoop_calls [of cfg 0 env "truthy ?testCmd" job ticket project ?s4]
      have 5: "?goal s5" by (simp add: rl execute_start_fields)
      show ?thesis
      proof (cases lr)
        case (Inl err)
        with None cw Inr rl [unfolded execute_start_def Let_def] 5 show ?thesis
          by (simp add: runExecutePhase_def Let_def)
      next
        case ok: (Inr retryCount)
        let ?s6 = "s5\<lparr>logStreamer := stop (j_id job) (logStreamer s5)\<rparr>"
        let ?s7 = "case ee_changeSummary env of
                     Inl err \<Rightarrow> ?s6
                   | Inr files \<Rightarrow>
                       tickets_setMetadata (t_id ticket)
                         \<lparr>m_filesChanged = files, m_testsPassed = truthy ?testCmd,
                          m_retryCount = retryCount\<rparr> ?s6"
        have 7: "runnerCalls ?s7 = runnerCalls s5"
          by (cases "ee_changeSummary env") (simp_all add: store_defs)
        obtain thrown s8 where fw: "finishWorker cfg job ticket project True None ?s7 = (thrown, s8)"
          by (cases "finishWorker cfg job ticket project True None ?s7")
        have "runnerCalls (snd (finishWorker cfg job ticket project True None ?s7)) = runnerCalls s5"
          by (simp only: finishWorker_fields 7)
        then have "runnerCalls s8 = runnerCalls s5" by (simp only: fw snd_conv)
        with 5 have "?goal s8" by simp
        with None cw Inr rl [unfolded execute_start_def Let_def] ok fw show ?thesis
          by (simp add: runExecutePhase_def Let_def)
      qed
    qed
  qed
qed

lemma runWorker_rest_execute:
  assumes "j_phase job \<noteq> phase_plan"
  shows "runWorker_rest cfg join penv eenv repo job ticket project s
         = (case fst (runExecutePhase cfg join eenv repo job ticket project s) of
              None \<Rightarrow> snd (snd (runExecutePhase cfg join eenv repo job ticket project s))
            | Some message \<Rightarrow>
                snd (finishWorker cfg job ticket project False (Some message)
                       (snd (snd (runExecutePhase cfg join eenv repo job ticket project s)))))"
  using assms
  by (cases "runExecutePhase cfg join eenv repo job ticket project s")
     (simp add: runWorker_rest_def Let_def split: option.splits)

lemma runWorker_rest_calls:
  assumes "j_phase job \<noteq> phase_plan"
  shows "\<exists>c. c \<le> nat (maxRetries cfg + 1)
       \<and> runnerCalls (runWorker_rest cfg join penv eenv repo job ticket project s)
           = runnerCalls s @ replicate c (t_id ticket)"
  using runExecutePhase_calls [where cfg = cfg and join = join and env = eenv and repo = repo
          and job = job and ticket = ticket and project = project and s = s]
  by (simp add: runWorker_rest_execute [OF assms] finishWorker_fields split: option.splits)


lemma execute_T_failing_run:
  "runWorker_rest cfg0 path_join planOk testsFail repo0 job_T (ticket0 ''T'' queued) project0
     running_T = execute_T_failing"
  by code_simp

text \<open>
  C2, as the specification states it, at its own example: with the test command \<open>exit 1\<close>
  and \<open>maxRetries = 2\<close> the tests fail after each of the three runs of the agent and the
  ticket ends \<open>failed\<close>, but its metadata is not written: \<open>setMetadata\<close> is reached only
  after a successful loop, so no \<open>retryCount\<close> is recorded there.
\<close>

theorem execute_T_failing_counterexample:
  "maxRetries cfg0 = 2
   \<and> s_testCommand (p_settings project0) = Some ''exit 1''
   \<and> map (\<lambda>n. fst (ee_test testsFail n)) [0, 1, 2] = [1, 1, 1]
   \<and> runnerCalls execute_T_failing = [''T'', ''T'', ''T'']
   \<and> map t_status (tickets execute_T_failing) = [failed]
   \<and> map t_metadata (tickets execute_T_failing) = [None]"
  by code_simp

text \<open>
  C2, amended: for an execute job the worker calls the agent at most \<open>maxRetries + 1\<close>
  times, whatever the outside world answers. If a test command is configured, the
  worktree is obtained, the agent exits with 0 each time and the tests fail after each
  of its runs (the ticket and the project being in the store), then the agent is called
  exactly \<open>maxRetries + 1\<close> times; the ticket ends in status \<open>failed\<close> with the error
  message \<open>Tests still failing after R retries.\<close> followed by the output of the last test
  run, where \<open>R\<close> is \<open>maxRetries\<close>; the ticket's metadata is left as it was, so no retry
  count is recorded in it; and the retry counter of the job row has grown by
  \<open>maxRetries + 1\<close>.
\<close>

theorem exhausted_retries_fail_the_ticket:
  assumes ex: "j_phase job = phase_execute"
    and git: "ee_gitVersionError env = None"
    and wt: "fst (createWorktree join (p_worktreeRoot project) (t_id ticket)
                    (slugify (t_title ticket)) (p_defaultBranch project) (branchPrefix cfg) repo)
             = Inr path"
    and tc: "s_testCommand (p_settings project) = Some c" "c \<noteq> []"
    and R: "0 \<le> maxRetries cfg"
    and fail: "\<forall>m. int m \<le> maxRetries cfg \<longrightarrow> ee_agent env m = Inr 0 \<and> fst (ee_test env m) \<noteq> 0"
    and tk: "tickets_findById (t_id ticket) s = Some t0"
    and pj: "projects_findById (p_id project) s = Some p0"
  shows "(\<exists>n. n \<le> nat (maxRetries cfg) + 1
            \<and> runnerCalls (runWorker_rest cfg join penv' env' repo' job ticket project s)
                = runnerCalls s @ replicate n (t_id ticket))
       \<and> runnerCalls (runWorker_rest cfg join penv env repo job ticket project s)
           = runnerCalls s @ replicate (nat (maxRetries cfg) + 1) (t_id ticket)
       \<and> tickets_findById (t_id ticket) (runWorker_rest cfg join penv env repo job ticket project s)
           = Some (t0\<lparr>t_status := failed,
                      t_branch := Some (branchPrefix cfg @ ''ticket-'' @ t_id ticket @ ''-''
                                          @ slugify (t_title ticket)),
                      t_worktreePath := Some path,
                      t_error := Some (exhausted_message cfg (snd (ee_test env (nat (maxRetries cfg)))))\<rparr>)
       \<and> map_option t_metadata
           (tickets_findById (t_id ticket) (runWorker_rest cfg join penv env repo job ticket project s))
           = Some (t_metadata t0)
       \<and> map j_retryCount (jobs (runWorker_rest cfg join penv env repo job ticket project s))
           = map j_retryCount (add_retries (j_id job) (nat (maxRetries cfg) + 1) (jobs s))"
proof -
  have np: "j_phase job \<noteq> phase_plan" using ex by simp
  let ?msg = "exhausted_message cfg (snd (ee_test env (nat (maxRetries cfg))))"
  let ?s4 = "execute_start cfg job ticket path s"
  let ?s5 = "(failed_attempt job ticket ^^ Suc (nat (maxRetries cfg))) ?s4"
  let ?fin = "runWorker_rest cfg join penv env repo job ticket project s"
  have an: "analytics_record (t_id ticket) (p_id project) s = None"
    using tk pj by (simp add: analytics_record_def)
  note run = runExecutePhase_exhausted [OF git wt tc R fail an, of job]
  have fin: "?fin = snd (finishWorker cfg job ticket project False (Some ?msg) ?s5)"
    by (simp add: runWorker_rest_execute [OF np] run)
  have 1: "\<exists>n. n \<le> nat (maxRetries cfg) + 1
            \<and> runnerCalls (runWorker_rest cfg join penv' env' repo' job ticket project s)
                = runnerCalls s @ replicate n (t_id ticket)"
  proof -
    have "nat (maxRetries cfg + 1) = nat (maxRetries cfg) + 1" using R by simp
    with runWorker_rest_calls [OF np, of cfg join penv' env' repo' ticket project s]
    show ?thesis by simp
  qed
  have 2: "runnerCalls ?fin = runnerCalls s @ replicate (nat (maxRetries cfg) + 1) (t_id ticket)"
    unfolding fin
    by (simp add: finishWorker_fields funpow_failed_attempt execute_start_fields del: funpow.simps)
  have t5: "tickets ?s5 = tickets (tickets_updateStatus (t_id ticket) testing None ?s4)"
    by (simp only: funpow_failed_attempt)
  have f4: "tickets_findById (t_id ticket) ?s4
            = Some (t0\<lparr>t_branch := Some (branchPrefix cfg @ ''ticket-'' @ t_id ticket @ ''-''
                                          @ slugify (t_title ticket)),
                       t_worktreePath := Some path, t_status := in_progress, t_error := None\<rparr>)"
    using findById_id [OF tk]
    by (simp add: findById_status_cong [OF conjunct2 [OF conjunct2 [OF conjunct2 [OF execute_start_fields]]]]
                  findById_updateBranch tk)
  have f5: "tickets_findById (t_id ticket) ?s5
            = Some (t0\<lparr>t_branch := Some (branchPrefix cfg @ ''ticket-'' @ t_id ticket @ ''-''
                                          @ slugify (t_title ticket)),
                       t_worktreePath := Some path, t_status := testing, t_error := None\<rparr>)"
    unfolding findById_status_cong [OF t5] f4 using findById_id [OF tk] by simp
  have 3: "tickets_findById (t_id ticket) ?fin
           = Some (t0\<lparr>t_status := failed,
                      t_branch := Some (branchPrefix cfg @ ''ticket-'' @ t_id ticket @ ''-''
                                          @ slugify (t_title ticket)),
                      t_worktreePath := Some path,
                      t_error := Some ?msg\<rparr>)"
    unfolding fin findById_status_cong [OF finishWorker_failed_tickets] f5
    using findById_id [OF tk] by simp
  have 4: "map j_retryCount (jobs ?fin)
           = map j_retryCount (add_retries (j_id job) (nat (maxRetries cfg) + 1) (jobs s))"
    unfolding fin
    by (simp add: finishWorker_fields funpow_failed_attempt execute_start_fields del: funpow.simps)
  from 3 have 5: "map_option t_metadata (tickets_findById (t_id ticket) ?fin) = Some (t_metadata t0)"
    by simp
  from 1 2 3 4 5 show ?thesis by blast
qed


theorem exhausted_retries_fail_the_ticket_witness:
  "runnerCalls execute_T_failing = [''T'', ''T'', ''T'']
   \<and> tickets_findById ''T'' execute_T_failing
       = Some ((ticket0 ''T'' failed)
                 \<lparr>t_branch := Some ''autodev/ticket-T-dark-mode'',
                  t_worktreePath := Some ''/repo/.worktrees/ticket-T'',
                  t_error := Some (exhausted_message cfg0 ''FAIL 2'')\<rparr>)
   \<and> map j_retryCount (jobs execute_T_failing) = [3]"
proof -
  have ex: "j_phase job_T = phase_execute" by (simp add: job_T_def)
  have git: "ee_gitVersionError testsFail = None" by (simp add: testsFail_def)
  have wt: "fst (createWorktree path_join (p_worktreeRoot project0) (t_id (ticket0 ''T'' queued))
                   (slugify (t_title (ticket0 ''T'' queued))) (p_defaultBranch project0)
                   (branchPrefix cfg0) repo0) = Inr ''/repo/.worktrees/ticket-T''"
    by code_simp
  have tc: "s_testCommand (p_settings project0) = Some ''exit 1''" "''exit 1'' \<noteq> []"
    by (simp_all add: project0_def)
  have R: "0 \<le> maxRetries cfg0" by (simp add: cfg0_def)
  have fail: "\<forall>m. int m \<le> maxRetries cfg0
                \<longrightarrow> ee_agent testsFail m = Inr 0 \<and> fst (ee_test testsFail m) \<noteq> 0"
    by (simp add: testsFail_def)
  have tk: "tickets_findById (t_id (ticket0 ''T'' queued)) running_T = Some (ticket0 ''T'' queued)"
    by code_simp
  have pj: "projects_findById (p_id project0) running_T = Some project0"
    by code_simp
  have c: "runnerCalls running_T @ replicate (nat (maxRetries cfg0) + 1) (t_id (ticket0 ''T'' queued))
           = [''T'', ''T'', ''T'']"
    by code_simp
  have t: "(ticket0 ''T'' queued)
             \<lparr>t_status := failed,
              t_branch := Some (branchPrefix cfg0 @ ''ticket-'' @ t_id (ticket0 ''T'' queued) @ ''-''
                                 @ slugify (t_title (ticket0 ''T'' queued))),
              t_worktreePath := Some ''/repo/.worktrees/ticket-T'',
              t_error := Some (exhausted_message cfg0 (snd (ee_test testsFail (nat (maxRetries cfg0)))))\<rparr>
           = (ticket0 ''T'' failed)
                 \<lparr>t_branch := Some ''autodev/ticket-T-dark-mode'',
                  t_worktreePath := Some ''/repo/.worktrees/ticket-T'',
                  t_error := Some (exhausted_message cfg0 ''FAIL 2'')\<rparr>"
    by code_simp
  have j: "map j_retryCount (add_retries (j_id job_T) (nat (maxRetries cfg0) + 1) (jobs running_T)) = [3]"
    by code_simp
  have i: "t_id (ticket0 ''T'' queued) = ''T''" by (simp add: ticket0_def)
  note th = exhausted_retries_fail_the_ticket [OF ex git wt tc R fail tk pj,
           where penv = planOk and penv' = planOk and env' = testsFail and repo' = repo0,
           unfolded execute_T_failing_run c t j]
  from th [unfolded i] show ?thesis by blast
qed

section \<open>The phases of the jobs\<close>

lemma job_keys_after_plan_T:
  "job_keys after_plan_T = [(0, ''T'', phase_plan), (1, ''T'', phase_execute)]"
  by code_simp

lemma job_keys_tick: "job_keys (tick cfg s) = job_keys s"
  using tick_closed [OF prim_core [OF job_keys_prim_closed], of s cfg] by simp

lemma enqueue_job_row:
  "(case fst (enqueuePlan cfg ticket project s) of
      Inl err \<Rightarrow> True
    | Inr job \<Rightarrow> (j_id job, t_id ticket, phase_plan)
                   \<in> set (job_keys (snd (enqueuePlan cfg ticket project s)))
                 \<and> j_phase job = phase_plan)
   \<and> (case fst (enqueueExecute cfg ticket project s) of
      Inl err \<Rightarrow> True
    | Inr job \<Rightarrow> (j_id job, t_id ticket, phase_execute)
                   \<in> set (job_keys (snd (enqueueExecute cfg ticket project s)))
                 \<and> j_phase job = phase_execute)"
  by (auto simp: enqueuePlan_def enqueueExecute_def jobs_create_def Let_def job_keys_tick
           split: option.splits sum.splits)
     (auto simp: job_keys_def store_defs)

text \<open>
  C10: the orchestrator never creates a job of phase \<open>fix\<close>. In every state it reaches,
  every job row has phase \<open>plan\<close> or \<open>execute\<close>; the job that \<open>enqueuePlan\<close> returns has
  phase \<open>plan\<close>, the job that \<open>enqueueExecute\<close> returns has phase \<open>execute\<close>, and each has
  its row in the job table, under its id, for the ticket and with that phase. The retry
  loop changes nothing in the job table but the retry counter of its own job, which it
  increments once for each test run that fails. A whole execute phase, retries included,
  leaves the ids, tickets and phases of the job rows as they were, so it creates no job.
\<close>

theorem jobs_are_plan_or_execute:
  "reachable cfg s \<Longrightarrow>
   list_all (\<lambda>j. plan_or_execute (j_phase j)) (jobs s)
   \<and> (case fst (enqueuePlan cfg ticket project s) of
         Inl err \<Rightarrow> True
       | Inr job \<Rightarrow> (j_id job, t_id ticket, phase_plan)
                      \<in> set (job_keys (snd (enqueuePlan cfg ticket project s)))
                    \<and> j_phase job = phase_plan)
   \<and> (case fst (enqueueExecute cfg ticket project s) of
         Inl err \<Rightarrow> True
       | Inr job \<Rightarrow> (j_id job, t_id ticket, phase_execute)
                      \<in> set (job_keys (snd (enqueueExecute cfg ticket project s)))
                    \<and> j_phase job = phase_execute)
   \<and> jobs (snd (retryLoop cfg env hasTest job ticket project 0 s))
       = add_retries (j_id job)
           (failed_test_runs cfg env hasTest
              (analytics_record (t_id ticket) (p_id project) s = None) 0)
           (jobs s)
   \<and> job_keys (snd (snd (runExecutePhase cfg join env repo job ticket project s))) = job_keys s"
proof -
  assume "reachable cfg s"
  from reachable_closed [OF phases_prim_closed phases_create_closed this]
  obtain ps ts where "phases_ok (init_world ps ts) \<longrightarrow> phases_ok s" by blast
  then have "phases_ok s" by (simp add: phases_ok_def job_keys_def init_world_def)
  then have 1: "list_all (\<lambda>j. plan_or_execute (j_phase j)) (jobs s)"
    by (simp add: phases_ok_def job_keys_def list_all_iff)
  note 2 = retryLoop_counts_failed_test_runs [of cfg env hasTest job ticket project 0 s]
  have 3: "job_keys (snd (snd (runExecutePhase cfg join env repo job ticket project s))) = job_keys s"
    using runExecutePhase_closed [OF job_keys_prim_closed, of s cfg join env repo job ticket project]
    by simp
  from 1 2 3 enqueue_job_row [where cfg = cfg and ticket = ticket and project = project and s = s]
  show ?thesis by blast
qed

theorem jobs_are_plan_or_execute_witness:
  "map j_phase (jobs after_plan_T) = [phase_plan, phase_execute]
   \<and> list_all (\<lambda>j. plan_or_execute (j_phase j)) (jobs after_plan_T)
   \<and> map j_retryCount (jobs after_plan_T) = [0, 0]
   \<and> map j_retryCount
        (jobs (snd (retryLoop cfg0 testsFailOnce True (w_job (hd (tasks after_plan_T)))
                      (w_ticket (hd (tasks after_plan_T))) project0 0 after_plan_T))) = [0, 1]
   \<and> job_keys (snd (snd (runExecutePhase cfg0 path_join testsFailOnce repo0
                            (w_job (hd (tasks after_plan_T)))
                            (w_ticket (hd (tasks after_plan_T))) project0 after_plan_T)))
       = [(0, ''T'', phase_plan), (1, ''T'', phase_execute)]"
proof -
  have p: "map j_phase (jobs after_plan_T) = [phase_plan, phase_execute]"
    "map j_retryCount (jobs after_plan_T) = [0, 0]" by code_simp+
  have r: "map j_retryCount
             (add_retries (j_id (w_job (hd (tasks after_plan_T))))
                (failed_test_runs cfg0 testsFailOnce True
                   (analytics_record (t_id (w_ticket (hd (tasks after_plan_T)))) (p_id project0)
                      after_plan_T = None) 0)
                (jobs after_plan_T)) = [0, 1]"
    by code_simp
  note th = jobs_are_plan_or_execute [OF reachable_cfg0_after_plan_T,
         where env = testsFailOnce and hasTest = True and job = "w_job (hd (tasks after_plan_T))"
           and ticket = "w_ticket (hd (tasks after_plan_T))"
           and project = project0 and join = path_join and repo = repo0,
         unfolded job_keys_after_plan_T]
  from th have "map j_retryCount
        (jobs (snd (retryLoop cfg0 testsFailOnce True (w_job (hd (tasks after_plan_T)))
                      (w_ticket (hd (tasks after_plan_T))) project0 0 after_plan_T))) = [0, 1]"
    by (simp only: r)
  with th p show ?thesis by blast
qed

section \<open>Worktrees\<close>

lemma ticket_places_closed: "core_closed (\<lambda>a b. ticket_places a = ticket_places b)"
  by (simp add: core_closed_def) (simp add: ticket_places_def store_defs)

lemma ticket_places_metadata:
  "ticket_places s = ticket_places (tickets_setMetadata tid m s)"
  by (simp add: ticket_places_def store_defs)

lemma find_places:
  "map_option (\<lambda>t. (t_branch t, t_worktreePath t)) (find (\<lambda>t. t_id t = tid) ts)
   = map_option snd (find (\<lambda>p. fst p = tid)
                      (map (\<lambda>t. (t_id t, t_branch t, t_worktreePath t)) ts))"
  by (induction ts) simp_all

lemma ticket_places_find:
  assumes "ticket_places a = ticket_places b"
  shows "map_option (\<lambda>t. (t_branch t, t_worktreePath t)) (tickets_findById tid a)
   = map_option (\<lambda>t. (t_branch t, t_worktreePath t)) (tickets_findById tid b)"
  unfolding tickets_findById_def find_places
  using assms by (simp only: ticket_places_def)

lemma createWorktree_path:
  "createWorktree join root tid slug base prefix repo = (Inr p, repo') \<Longrightarrow>
   p = join root (''ticket-'' @ tid) \<and> p \<in> set (paths repo') \<and> root \<in> set (paths repo')"
  by (auto simp: createWorktree_def Let_def mkdirSync_def git_worktree_add_def
           split: if_splits sum.splits)

lemma createWorktree_again:
  assumes a: "createWorktree join root tid slug base prefix repo = (Inr p, repo')"
  shows "createWorktree join root tid slug' base' prefix' repo' = (Inr p, repo')"
proof -
  from createWorktree_path [OF a]
  have p: "p = join root (''ticket-'' @ tid)" and ex: "p \<in> set (paths repo')"
    and r: "root \<in> set (paths repo')" by blast+
  from r have "mkdirSync root repo' = repo'" by (simp add: mkdirSync_def)
  with p ex show ?thesis by (simp add: createWorktree_def Let_def)
qed

lemma runExecutePhase_repo:
  assumes git: "ee_gitVersionError env = None"
  shows "fst (snd (runExecutePhase cfg join env repo job ticket project s))
         = snd (createWorktree join (p_worktreeRoot project) (t_id ticket)
                  (slugify (t_title ticket)) (p_defaultBranch project) (branchPrefix cfg) repo)"
  using git
  by (simp add: runExecutePhase_def Let_def split: prod.splits sum.splits)

lemma runExecutePhase_places:
  assumes cw: "createWorktree join (p_worktreeRoot project) (t_id ticket) (slugify (t_title ticket))
                 (p_defaultBranch project) (branchPrefix cfg) repo = (Inr p, repo')"
    and git: "ee_gitVersionError env = None"
    and tk: "tickets_findById (t_id ticket) s = Some t0"
  shows "map_option (\<lambda>t. (t_branch t, t_worktreePath t))
           (tickets_findById (t_id ticket)
              (snd (snd (runExecutePhase cfg join env repo job ticket project s))))
         = Some (Some (branchPrefix cfg @ ''ticket-'' @ t_id ticket @ ''-''
                         @ slugify (t_title ticket)), Some p)"
proof -
  let ?B = "branchPrefix cfg @ ''ticket-'' @ t_id ticket @ ''-'' @ slugify (t_title ticket)"
  from cw have wt: "fst (createWorktree join (p_worktreeRoot project) (t_id ticket)
                    (slugify (t_title ticket)) (p_defaultBranch project) (branchPrefix cfg) repo)
             = Inr p" by simp
  have "ticket_places (tickets_updateBranch (t_id ticket) ?B p s)
        = ticket_places (snd (snd (runExecutePhase cfg join env repo job ticket project s)))"
    by (rule runExecutePhase_after_branch [OF ticket_places_closed ticket_places_metadata git wt])
  from ticket_places_find [OF this, of "t_id ticket"] show ?thesis
    using findById_id [OF tk] by (simp add: findById_updateBranch tk)
qed

text \<open>
  On the repository that a successful call has left, \<open>createWorktree\<close> is idempotent:
  the path it returned is \<open>ticket-<ticketId>\<close> under the worktree root, and a second call
  for the same ticket, with any slug, base branch and prefix, returns the same path and
  leaves that repository as it is. An execution that gets its worktree records this
  path and the branch made of the prefix of its configuration, the ticket id and the
  slug of the title, and so does a re-execution with the same configuration from that
  repository.
\<close>

theorem createWorktree_idempotent:
  assumes cw: "createWorktree join (p_worktreeRoot project) (t_id ticket) (slugify (t_title ticket))
                 (p_defaultBranch project) (branchPrefix cfg) repo = (Inr p, repo')"
    and git: "ee_gitVersionError env = None"
    and tk: "tickets_findById (t_id ticket) s = Some t0"
    and git': "ee_gitVersionError env' = None"
    and tk': "tickets_findById (t_id ticket) s' = Some t1"
  shows "p = join (p_worktreeRoot project) (''ticket-'' @ t_id ticket)
       \<and> createWorktree join (p_worktreeRoot project) (t_id ticket) slug' base' prefix' repo'
           = (Inr p, repo')
       \<and> map_option (\<lambda>t. (t_branch t, t_worktreePath t))
           (tickets_findById (t_id ticket)
              (snd (snd (runExecutePhase cfg join env repo job ticket project s))))
           = Some (Some (branchPrefix cfg @ ''ticket-'' @ t_id ticket @ ''-''
                           @ slugify (t_title ticket)), Some p)
       \<and> fst (snd (runExecutePhase cfg join env' repo' job' ticket project s')) = repo'
       \<and> map_option (\<lambda>t. (t_branch t, t_worktreePath t))
           (tickets_findById (t_id ticket)
              (snd (snd (runExecutePhase cfg join env' repo' job' ticket project s'))))
           = Some (Some (branchPrefix cfg @ ''ticket-'' @ t_id ticket @ ''-''
                           @ slugify (t_title ticket)), Some p)"
proof -
  note again = createWorktree_again [OF cw]
  have 1: "p = join (p_worktreeRoot project) (''ticket-'' @ t_id ticket)"
    using createWorktree_path [OF cw] by blast
  have 4: "fst (snd (runExecutePhase cfg join env' repo' job' ticket project s')) = repo'"
    by (simp add: runExecutePhase_repo [OF git'] again)
  from 1 again runExecutePhase_places [OF cw git tk] 4 runExecutePhase_places [OF again git' tk']
  show ?thesis by blast
qed

theorem createWorktree_idempotent_witness:
  "createWorktree path_join (p_worktreeRoot project0) (t_id (ticket0 ''T'' queued))
     ''renamed'' ''develop'' ''other/'' repo_T = (Inr ''/repo/.worktrees/ticket-T'', repo_T)
   \<and> fst (snd (runExecutePhase cfg0 path_join testsFail repo_T job_T (ticket0 ''T'' queued)
                  project0 execute_T_failing)) = repo_T
   \<and> map_option (\<lambda>t. (t_branch t, t_worktreePath t))
        (tickets_findById (t_id (ticket0 ''T'' queued))
           (snd (snd (runExecutePhase cfg0 path_join testsFail repo_T job_T (ticket0 ''T'' queued)
                        project0 execute_T_failing))))
       = Some (Some ''autodev/ticket-T-dark-mode'', Some ''/repo/.worktrees/ticket-T'')"
proof -
  have cw: "createWorktree path_join (p_worktreeRoot project0) (t_id (ticket0 ''T'' queued))
              (slugify (t_title (ticket0 ''T'' queued))) (p_defaultBranch project0)
              (branchPrefix cfg0) repo0
            = (Inr ''/repo/.worktrees/ticket-T'', repo_T)"
    by code_simp
  have git: "ee_gitVersionError testsFail = None" by (simp add: testsFail_def)
  have tk: "tickets_findById (t_id (ticket0 ''T'' queued)) running_T = Some (ticket0 ''T'' queued)"
    by code_simp
  have "tickets_findById (t_id (ticket0 ''T'' queued)) execute_T_failing \<noteq> None" by code_simp
  then obtain t1 where tk': "tickets_findById (t_id (ticket0 ''T'' queued)) execute_T_failing = Some t1"
    by blast
  have b: "branchPrefix cfg0 @ ''ticket-'' @ t_id (ticket0 ''T'' queued) @ ''-''
             @ slugify (t_title (ticket0 ''T'' queued)) = ''autodev/ticket-T-dark-mode''"
    by code_simp
  from createWorktree_idempotent [OF cw git tk git tk', unfolded b,
         where job' = job_T and slug' = "''renamed''" and base' = "''develop''"
           and prefix' = "''other/''"]
  show ?thesis by blast
qed

text \<open>
  C8 does not hold of the code. The first execution of ticket T creates the worktree
  \<open>ticket-T\<close> on the branch \<open>autodev/ticket-T-dark-mode\<close> and fails in its tests.
  \<open>cleanStaleWorktrees\<close> removes the worktrees of failed tickets with
  \<open>removeWorktree\<close>, which deletes the directory and keeps the branch. A re-execution of
  T then finds no directory, calls \<open>git worktree add\<close> with \<open>-b\<close> for the branch that
  exists, and fails: the workspace is not reused. And a re-execution under another
  \<open>branchPrefix\<close> reuses the directory but records the branch name built from the new
  prefix, which is not a branch of the repository: the recorded branch is not stable.
\<close>

theorem reexecution_fails_after_cleanup:
  "fst (snd (runExecutePhase cfg0 path_join testsFail repo0 job_T (ticket0 ''T'' queued) project0
               running_T)) = repo_T
   \<and> map (\<lambda>t. (t_status t, t_branch t, t_worktreePath t)) (tickets execute_T_failing)
       = [(failed, Some ''autodev/ticket-T-dark-mode'', Some ''/repo/.worktrees/ticket-T'')]
   \<and> removeWorktree ''/repo/.worktrees/ticket-T'' repo_T = (None, repo_cleaned)
   \<and> createWorktree path_join ''/repo/.worktrees'' ''T'' ''dark-mode'' ''main'' ''autodev/''
         repo_cleaned
       = (Inl (command_failed
                 [''worktree'', ''add'', ''/repo/.worktrees/ticket-T'', ''-b'',
                  ''autodev/ticket-T-dark-mode'', ''main'']
                 (''fatal: a branch named '' @ quoted ''autodev/ticket-T-dark-mode''
                    @ '' already exists'' @ [newline])),
          repo_cleaned)
   \<and> runExecutePhase cfg0 path_join testsFail repo_cleaned job_T (ticket0 ''T'' queued) project0
         execute_T_failing
       = (Some (command_failed
                  [''worktree'', ''add'', ''/repo/.worktrees/ticket-T'', ''-b'',
                   ''autodev/ticket-T-dark-mode'', ''main'']
                  (''fatal: a branch named '' @ quoted ''autodev/ticket-T-dark-mode''
                     @ '' already exists'' @ [newline])),
          repo_cleaned, execute_T_failing)
   \<and> map (\<lambda>t. (t_branch t, t_worktreePath t))
         (tickets (snd (snd (runExecutePhase cfg1 path_join testsFail repo_T job_T
                               (ticket0 ''T'' queued) project0 execute_T_failing))))
       = [(Some ''feature/ticket-T-dark-mode'', Some ''/repo/.worktrees/ticket-T'')]
   \<and> fst (snd (runExecutePhase cfg1 path_join testsFail repo_T job_T
                  (ticket0 ''T'' queued) project0 execute_T_failing)) = repo_T
   \<and> branches repo_T = [''main'', ''autodev/ticket-T-dark-mode'']"
  by code_simp

section \<open>The caps of the scheduler and cancellation\<close>

lemma reachable_cfg0_after_plan_T_U_V: "reachable cfg0 after_plan_T_U_V"
  unfolding after_plan_T_U_V_def
  by (intro r_enqueuePlan reachable_cfg0_after_plan_T)

text \<open>
  C1 does not hold of the code. With a global cap of two workers and a project capped at
  two parallel jobs that runs the execute phase right after the plan: the plan of ticket
  T is enqueued and its worker completes. \<open>runPlanPhase\<close> calls \<open>enqueueExecute\<close>, whose
  tick starts the execute worker of T under the key T of \<open>activeWorkers\<close>, where the
  plan worker still stands; then \<open>runPlanPhase\<close> deletes the key T. The execute worker of
  T runs and is counted nowhere. The plans of U and V, enqueued next, are both admitted:
  three workers of the one project are in flight, their three jobs are \<open>running\<close>, and
  \<open>activeWorkers\<close> holds two entries.
\<close>

theorem three_workers_under_cap_two:
  "maxWorkers cfg0 = 2
   \<and> s_maxParallelJobs (p_settings project0) = 2
   \<and> map (\<lambda>w. (t_id (w_ticket w), p_id (w_project w), j_phase (w_job w))) (tasks after_plan_T_U_V)
       = [(''T'', ''P'', phase_execute), (''U'', ''P'', phase_plan), (''V'', ''P'', phase_plan)]
   \<and> map (\<lambda>j. (j_ticketId j, j_phase j, j_status j)) (jobs after_plan_T_U_V)
       = [(''T'', phase_plan, job_completed), (''T'', phase_execute, running),
          (''U'', phase_plan, running), (''V'', phase_plan, running)]
   \<and> map fst (activeWorkers after_plan_T_U_V) = [''U'', ''V'']
   \<and> queue after_plan_T_U_V = []"
  by code_simp

text \<open>
  C4 does not hold of the code. Ticket T is \<open>completed\<close>, no job of it is queued and no
  worker runs it. \<open>cancel\<close> finds nothing to cancel and still writes the status \<open>failed\<close>
  with the error \<open>Cancelled by user.\<close> and emits the \<open>ticket:status\<close> event: its last two
  statements stand outside the two conditionals.
\<close>

theorem cancel_without_work_fails_ticket:
  "cancel ''T'' (init_world [project0] [ticket0 ''T'' completed]) =
     (init_world [project0] [ticket0 ''T'' completed])
       \<lparr>tickets := [(ticket0 ''T'' failed)\<lparr>t_error := Some ''Cancelled by user.''\<rparr>],
        statusWrites := [(''T'', failed)],
        events := [TicketStatusEvent ''T'' failed]\<rparr>"
  by code_simp

end
